(* ===== verification/Prelude.thy ===== *)
theory Prelude
  imports Main "HOL-Library.Word" "HOL-Library.AList" "HOL-Library.Sublist"
begin

text \<open>
  Shared vocabulary of the development: the names of the machine types, the collections of
  simplification rules the component theories fill, and the generic facts on lists and
  association lists they use. Nothing here models code.
\<close>

section \<open>Machine types\<close>

type_synonym u8 = "8 word"
type_synonym u16 = "16 word"
type_synonym u32 = "32 word"
type_synonym u64 = "64 word"

text \<open>\<open>time_t\<close> values are plain integers; \<open>size_t\<close> lengths and counts are naturals.\<close>

type_synonym time_t = int
type_synonym bytes = "char list"

section \<open>Collections of simplification rules\<close>

named_theorems spans_simps \<open>sentence spans and word splitting\<close>
named_theorems engine_simps \<open>frame facts of the storage engine\<close>
named_theorems index_simps \<open>lookups after updates of the file index\<close>
named_theorems server_simps \<open>frame facts of the name server\<close>

section \<open>Lists\<close>

lemma takeWhile_all_eq: "(\<forall>x\<in>set xs. P x) \<Longrightarrow> takeWhile P xs = xs"
  by (simp add: takeWhile_eq_all_conv)

lemma dropWhile_none: "(\<forall>x\<in>set xs. P x) \<Longrightarrow> dropWhile P xs = []"
  by (simp add: dropWhile_eq_Nil_conv)

lemma length_dropWhile_less:
  "xs \<noteq> [] \<Longrightarrow> P (hd xs) \<Longrightarrow> length (dropWhile P xs) < length xs"
  by (cases xs) (auto intro: le_imp_less_Suc length_dropWhile_le)

lemma dropWhile_hd: "dropWhile P xs = y # ys \<Longrightarrow> \<not> P y"
  by (metis hd_dropWhile list.discI list.sel(1))

lemma filter_dropWhile_not: "filter (\<lambda>x. \<not> P x) (dropWhile P xs) = filter (\<lambda>x. \<not> P x) xs"
  by (induction xs) auto

lemma filter_take_while_split:
  "filter P xs = takeWhile P (dropWhile (\<lambda>x. \<not> P x) xs)
     @ filter P (dropWhile P (dropWhile (\<lambda>x. \<not> P x) xs))"
proof -
  let ?ys = "dropWhile (\<lambda>x. \<not> P x) xs"
  have "filter P xs = filter P ?ys"
    by (induction xs) auto
  also have "\<dots> = filter P (takeWhile P ?ys) @ filter P (dropWhile P ?ys)"
    by (metis filter_append takeWhile_dropWhile_id)
  also have "filter P (takeWhile P ?ys) = takeWhile P ?ys"
    by (metis filter_True set_takeWhileD)
  finally show ?thesis .
qed

lemma take_length_prefix: "take (length p) xs = p \<longleftrightarrow> prefix p xs"
  by (metis append_eq_conv_conj append_take_drop_id prefix_def)

lemma last_dropWhile_rev: "xs \<noteq> [] \<Longrightarrow> \<not> P (last xs) \<Longrightarrow> rev (dropWhile P (rev xs)) = xs"
  by (cases xs rule: rev_cases) auto

section \<open>Finding and removing the first match\<close>

text \<open>
  The linked lists and arrays of the program are searched with \<open>strcmp\<close> from the front and
  the first match is updated or unlinked.
\<close>

fun remove_first :: "('a \<Rightarrow> bool) \<Rightarrow> 'a list \<Rightarrow> 'a list" where
  "remove_first P [] = []"
| "remove_first P (x # xs) = (if P x then xs else x # remove_first P xs)"

fun update_first :: "('a \<Rightarrow> bool) \<Rightarrow> ('a \<Rightarrow> 'a) \<Rightarrow> 'a list \<Rightarrow> 'a list" where
  "update_first P f [] = []"
| "update_first P f (x # xs) = (if P x then f x # xs else x # update_first P f xs)"

lemma length_update_first [simp]: "length (update_first P f xs) = length xs"
  by (induction xs) auto

lemma remove_first_none: "(\<forall>x\<in>set xs. \<not> P x) \<Longrightarrow> remove_first P xs = xs"
  by (induction xs) auto

lemma update_first_none: "(\<forall>x\<in>set xs. \<not> P x) \<Longrightarrow> update_first P f xs = xs"
  by (induction xs) auto

lemma set_remove_first: "set (remove_first P xs) \<subseteq> set xs"
  by (induction xs) auto

lemma length_remove_first:
  "length (remove_first P xs) = (if \<exists>x\<in>set xs. P x then length xs - 1 else length xs)"
  by (induction xs) (auto simp: Suc_diff_1 dest: length_pos_if_in_set)

lemma distinct_map_remove_first:
  "distinct (map k xs) \<Longrightarrow> distinct (map k (remove_first P xs))"
  by (induction xs) (auto dest: set_remove_first [THEN subsetD])

lemma remove_first_key:
  "distinct (map k xs) \<Longrightarrow> remove_first (\<lambda>x. k x = a) xs = filter (\<lambda>x. k x \<noteq> a) xs"
proof (induction xs)
  case (Cons x xs)
  show ?case
  proof (cases "k x = a")
    case True
    with Cons.prems have "\<forall>y\<in>set xs. k y \<noteq> a" by (auto simp: image_iff)
    with True show ?thesis by simp
  qed (use Cons in simp)
qed simp

lemma map_key_update_first:
  "(\<And>x. k (f x) = k x) \<Longrightarrow> map k (update_first P f xs) = map k xs"
  by (induction xs) auto

lemma find_update_first:
  "(\<And>x. k (f x) = k x) \<Longrightarrow>
   find (\<lambda>x. k x = b) (update_first (\<lambda>x. k x = a) f xs) =
     (if a = b then map_option f (find (\<lambda>x. k x = b) xs) else find (\<lambda>x. k x = b) xs)"
  by (induction xs) auto

lemma find_remove_first_other:
  "a \<noteq> b \<Longrightarrow> find (\<lambda>x. k x = b) (remove_first (\<lambda>x. k x = a) xs) = find (\<lambda>x. k x = b) xs"
  by (induction xs) auto

lemma find_filter_other:
  "a \<noteq> b \<Longrightarrow> find (\<lambda>x. k x = b) (filter (\<lambda>x. k x \<noteq> a) xs) = find (\<lambda>x. k x = b) xs"
  by (induction xs) auto

lemma find_None_key: "find (\<lambda>x. k x = a) xs = None \<longleftrightarrow> a \<notin> k ` set xs"
  by (auto simp: find_None_iff)

lemma find_append: "find P (xs @ ys) = (case find P xs of None \<Rightarrow> find P ys | Some x \<Rightarrow> Some x)"
  by (induction xs) auto

lemma find_Some_mem: "find P xs = Some x \<Longrightarrow> x \<in> set xs \<and> P x"
  by (metis find_Some_iff nth_mem)

lemma find_split:
  assumes "find P xs = Some x"
  obtains us vs where "xs = us @ x # vs" and "P x" and "\<forall>y\<in>set us. \<not> P y"
proof -
  from assms obtain i where i: "i < length xs" "P (xs ! i)" "x = xs ! i" "\<forall>j<i. \<not> P (xs ! j)"
    by (auto simp: find_Some_iff)
  then have "xs = take i xs @ x # drop (Suc i) xs" by (simp add: id_take_nth_drop)
  with i show thesis by (intro that) (auto simp: in_set_conv_nth)
qed

lemma find_map: "find P (map f xs) = map_option f (find (\<lambda>x. P (f x)) xs)"
  by (induction xs) auto

lemma remove_first_map: "remove_first P (map f xs) = map f (remove_first (\<lambda>x. P (f x)) xs)"
  by (induction xs) auto

lemma remove_first_split: "\<forall>y\<in>set us. \<not> P y \<Longrightarrow> P x \<Longrightarrow> remove_first P (us @ x # vs) = us @ vs"
  by (induction us) auto

end
