(* ===== verification/C_Strings.thy ===== *)
theory C_Strings
  imports Prelude
begin

text \<open>
  The part of the C library the sources call on strings: zero-terminated reads, bounded copies
  (\<open>strncpy\<close> and \<open>snprintf\<close> into a buffer of a given size), \<open>strstr\<close>, \<open>strchr\<close>,
  \<open>strrchr\<close>, \<open>strtok_r\<close>, \<open>strtoul\<close>, \<open>tolower\<close> and decimal output. A C string is a
  \<open>char list\<close> without the terminating zero byte; a byte buffer with an explicit length is a
  \<open>char list\<close> that may hold zero bytes, and \<open>c_str\<close> reads it as a string.
\<close>

section \<open>Zero-terminated strings and fixed-size buffers\<close>

abbreviation NUL :: char where "NUL \<equiv> CHR 0x00"
abbreviation LF :: char where "LF \<equiv> CHR 0x0A"
abbreviation CR :: char where "CR \<equiv> CHR 0x0D"
abbreviation TAB :: char where "TAB \<equiv> CHR 0x09"
abbreviation SP :: char where "SP \<equiv> CHR 0x20"
abbreviation DQ :: char where "DQ \<equiv> CHR 0x22"
abbreviation SLASH :: char where "SLASH \<equiv> CHR 0x2F"
abbreviation BSL :: char where "BSL \<equiv> CHR 0x5C"

definition c_str :: "bytes \<Rightarrow> string" where
  "c_str b = takeWhile (\<lambda>c. c \<noteq> NUL) b"

text \<open>A string stored in a zero-terminated buffer of \<open>sz\<close> bytes.\<close>

definition fit :: "nat \<Rightarrow> string \<Rightarrow> string" where
  "fit sz s = take (sz - 1) s"

lemma c_str_no_NUL: "NUL \<notin> set (c_str b)"
  by (auto simp: c_str_def dest: set_takeWhileD)

lemma c_str_id: "NUL \<notin> set s \<Longrightarrow> c_str s = s"
  unfolding c_str_def by (rule takeWhile_all_eq) auto

lemma c_str_idem [simp]: "c_str (c_str b) = c_str b"
  by (rule c_str_id) (rule c_str_no_NUL)

lemma length_c_str: "length (c_str b) \<le> length b"
  by (simp add: c_str_def length_takeWhile_le)

lemma fit_id: "length s < sz \<Longrightarrow> fit sz s = s"
  by (simp add: fit_def)

lemma length_fit: "0 < sz \<Longrightarrow> length (fit sz s) < sz"
  by (simp add: fit_def)

lemma fit_idem [simp]: "fit sz (fit sz s) = fit sz s"
  by (simp add: fit_def)

lemma set_fit: "set (fit sz s) \<subseteq> set s"
  by (simp add: fit_def set_take_subset)

section \<open>Searching\<close>

text \<open>\<open>strstr\<close> and \<open>strchr\<close> return the suffix that starts at the first match.\<close>

fun strstr :: "string \<Rightarrow> string \<Rightarrow> string option" where
  "strstr [] n = (if n = [] then Some [] else None)"
| "strstr (c # cs) n = (if take (length n) (c # cs) = n then Some (c # cs) else strstr cs n)"

fun strchr :: "string \<Rightarrow> char \<Rightarrow> string option" where
  "strchr [] x = None"
| "strchr (c # cs) x = (if c = x then Some (c # cs) else strchr cs x)"

text \<open>\<open>strrchr\<close>: the text before the last match and the text after it.\<close>

definition strrchr :: "string \<Rightarrow> char \<Rightarrow> (string \<times> string) option" where
  "strrchr s x = (if x \<in> set s then
     Some (rev (tl (dropWhile (\<lambda>c. c \<noteq> x) (rev s))), rev (takeWhile (\<lambda>c. c \<noteq> x) (rev s)))
   else None)"

lemma strstr_Some: "strstr h n = Some s \<Longrightarrow> \<exists>p. h = p @ s \<and> prefix n s"
proof (induction h)
  case Nil
  then show ?case by (simp split: if_splits)
next
  case (Cons c cs)
  show ?case
  proof (cases "take (length n) (c # cs) = n")
    case True
    with Cons.prems have "s = c # cs" by simp
    with True show ?thesis by (metis append_Nil take_length_prefix)
  next
    case False
    with Cons.prems have "strstr cs n = Some s" by (simp split: if_splits)
    then obtain p where "cs = p @ s" "prefix n s" using Cons.IH by blast
    then show ?thesis by (metis append_Cons)
  qed
qed

lemma strstr_None: "strstr h n = None \<longleftrightarrow> \<not> sublist n h"
proof (induction h)
  case (Cons c cs)
  then show ?case
    by (auto simp: take_length_prefix sublist_Cons_right)
qed auto

lemma strstr_prefix: "prefix n h \<Longrightarrow> strstr h n = Some h"
  by (cases h) (auto simp: take_length_prefix [symmetric])

lemma strstr_skip:
  "(\<forall>k<length p. \<not> prefix n (drop k (p @ s))) \<Longrightarrow> strstr (p @ s) n = strstr s n"
proof (induction p)
  case (Cons c p)
  have "\<not> prefix n ((c # p) @ s)" using Cons.prems by fastforce
  moreover have "\<forall>k<length p. \<not> prefix n (drop k (p @ s))"
    using Cons.prems by fastforce
  ultimately show ?case using Cons.IH
    by (simp add: take_length_prefix [symmetric])
qed simp

lemma strstr_hd_absent:
  "n = x # m \<Longrightarrow> x \<notin> set p \<Longrightarrow> strstr (p @ s) n = strstr s n"
  by (induction p) auto

lemma strstr_longer: "strstr h p = Some s \<Longrightarrow> prefix (p @ q) s \<Longrightarrow> strstr h (p @ q) = Some s"
proof (induction h p rule: strstr.induct)
  case (2 c cs p)
  show ?case
  proof (cases "prefix p (c # cs)")
    case True
    then have "s = c # cs" using "2.prems"(1) strstr_prefix by fastforce
    with "2.prems"(2) show ?thesis by (simp only: strstr_prefix)
  next
    case False
    then have "\<not> prefix (p @ q) (c # cs)" using append_prefixD by blast
    then have "take (length (p @ q)) (c # cs) \<noteq> p @ q" by (simp only: take_length_prefix not_False_eq_True)
    moreover have "take (length p) (c # cs) \<noteq> p" using False by (simp only: take_length_prefix not_False_eq_True)
    ultimately show ?thesis using 2 by (simp only: strstr.simps if_False simp_thms)
  qed
qed (auto split: if_splits)

lemma strchr_Some: "strchr s x = Some t \<Longrightarrow> \<exists>p. s = p @ t \<and> x \<notin> set p \<and> hd t = x \<and> t \<noteq> []"
proof (induction s)
  case (Cons c s)
  show ?case
  proof (cases "c = x")
    case True
    with Cons.prems show ?thesis by (intro exI [of _ "[]"]) auto
  next
    case False
    with Cons.prems obtain p where "s = p @ t" "x \<notin> set p" "hd t = x" "t \<noteq> []"
      using Cons.IH by auto
    with False show ?thesis by (intro exI [of _ "c # p"]) auto
  qed
qed simp

lemma strchr_None: "strchr s x = None \<longleftrightarrow> x \<notin> set s"
  by (induction s) auto

lemma strchr_append: "x \<notin> set p \<Longrightarrow> strchr (p @ x # r) x = Some (x # r)"
  by (induction p) auto

lemma strrchr_None: "strrchr s x = None \<longleftrightarrow> x \<notin> set s"
  by (simp add: strrchr_def)

lemma strrchr_append: "x \<notin> set b \<Longrightarrow> strrchr (a @ x # b) x = Some (a, b)"
proof -
  assume b: "x \<notin> set b"
  have r: "rev (a @ x # b) = rev b @ x # rev a" by simp
  have "takeWhile (\<lambda>c. c \<noteq> x) (rev b @ x # rev a) = rev b"
    using b by (induction "rev b" arbitrary: b) (auto simp: takeWhile_append2 takeWhile_tail)
  moreover have "dropWhile (\<lambda>c. c \<noteq> x) (rev b @ x # rev a) = x # rev a"
    using b by (subst dropWhile_append2) auto
  ultimately show ?thesis unfolding strrchr_def r by simp
qed

lemma strrchr_Some: "strrchr s x = Some (a, b) \<Longrightarrow> s = a @ x # b \<and> x \<notin> set b"
proof -
  assume s: "strrchr s x = Some (a, b)"
  then have "x \<in> set s" by (simp add: strrchr_def split: if_splits)
  then obtain a' b' where ab: "s = a' @ x # b'" "x \<notin> set b'"
    by (metis split_list_last)
  with strrchr_append [OF ab(2)] s show ?thesis by simp
qed

section \<open>Tokens\<close>

text \<open>The sequence of tokens a \<open>strtok_r\<close> loop over a set of delimiters yields.\<close>

function tokens :: "(char \<Rightarrow> bool) \<Rightarrow> string \<Rightarrow> string list" where
  "tokens d s = (let r = dropWhile d s in
     if r = [] then []
     else takeWhile (\<lambda>c. \<not> d c) r # tokens d (dropWhile (\<lambda>c. \<not> d c) r))"
  by pat_completeness auto
termination
proof (relation "measure (\<lambda>(d, s). length s)", goal_cases)
  case (2 d s x)
  then have "\<not> d (hd x)" by (simp add: hd_dropWhile)
  with 2 have "length (dropWhile (\<lambda>c. \<not> d c) x) < length x"
    by (intro length_dropWhile_less) auto
  also have "length x \<le> length s" using 2 by (simp add: length_dropWhile_le)
  finally show ?case by simp
qed simp

declare tokens.simps [simp del]

lemma tokens_none: "dropWhile d s = [] \<Longrightarrow> tokens d s = []"
  by (subst tokens.simps) (simp only: Let_def if_True simp_thms)

lemma tokens_some:
  "dropWhile d s \<noteq> [] \<Longrightarrow> tokens d s = takeWhile (\<lambda>c. \<not> d c) (dropWhile d s)
     # tokens d (dropWhile (\<lambda>c. \<not> d c) (dropWhile d s))"
  by (subst tokens.simps) (simp only: Let_def if_False simp_thms)

lemma tokens_Nil [simp]: "tokens d [] = []"
  by (rule tokens_none) simp

lemma tokens_skip: "d c \<Longrightarrow> tokens d (c # s) = tokens d s"
  by (subst (1 2) tokens.simps) simp

lemma tokens_dropWhile: "tokens d (dropWhile d s) = tokens d s"
  by (subst (1 2) tokens.simps) (simp add: dropWhile_idem Let_def)

lemma tokens_word:
  assumes "\<not> d c"
  shows "tokens d (c # s) =
    (c # takeWhile (\<lambda>x. \<not> d x) s) # tokens d (dropWhile (\<lambda>x. \<not> d x) s)"
  by (subst tokens.simps) (simp add: assms)

lemmas tokens_cons = tokens_skip tokens_word

lemma tokens_nonempty: "w \<in> set (tokens d s) \<Longrightarrow> w \<noteq> [] \<and> (\<forall>c\<in>set w. \<not> d c)"
proof (induction d s rule: tokens.induct)
  case (1 d s)
  let ?r = "dropWhile d s"
  show ?case
  proof (cases "?r = []")
    case True
    with "1.prems" show ?thesis by (simp only: tokens_none list.set empty_iff)
  next
    case False
    then have nd: "\<not> d (hd ?r)" by (rule hd_dropWhile)
    from "1.prems" consider "w = takeWhile (\<lambda>c. \<not> d c) ?r"
      | "w \<in> set (tokens d (dropWhile (\<lambda>c. \<not> d c) ?r))"
      unfolding tokens_some [OF False] by auto
    then show ?thesis
    proof cases
      case 1
      with False nd show ?thesis by (cases ?r) (auto dest: set_takeWhileD)
    next
      case 2
      with "1.IH" [OF refl False] show ?thesis by blast
    qed
  qed
qed

lemma concat_tokens: "concat (tokens d s) = filter (\<lambda>c. \<not> d c) s"
proof (induction d s rule: tokens.induct)
  case (1 d s)
  show ?case
  proof (cases "dropWhile d s = []")
    case True
    then have "filter (\<lambda>c. \<not> d c) s = []"
      by (metis filter_dropWhile_not filter.simps(1))
    with True show ?thesis by (simp only: tokens_none concat.simps)
  next
    case False
    from "1.IH" [OF refl False] show ?thesis
      using filter_take_while_split [of "\<lambda>c. \<not> d c" s]
      by (simp only: tokens_some [OF False] concat.simps not_not)
  qed
qed

lemma tokens_word_sep:
  assumes "w \<noteq> []" and "\<forall>c\<in>set w. \<not> d c" and "d x"
  shows "tokens d (w @ x # s) = w # tokens d s"
proof -
  obtain a v where w: "w = a # v" using assms(1) by (cases w) auto
  have "takeWhile (\<lambda>y. \<not> d y) (v @ x # s) = v"
    using assms w by (subst takeWhile_append2) auto
  moreover have "dropWhile (\<lambda>y. \<not> d y) (v @ x # s) = x # s"
    using assms w by (subst dropWhile_append2) auto
  ultimately show ?thesis using assms w by (simp add: tokens_word tokens_skip)
qed

lemma tokens_single:
  assumes "w \<noteq> []" and "\<forall>c\<in>set w. \<not> d c"
  shows "tokens d w = [w]"
proof -
  obtain a v where w: "w = a # v" using assms(1) by (cases w) auto
  have "takeWhile (\<lambda>y. \<not> d y) v = v" and d: "dropWhile (\<lambda>y. \<not> d y) v = []"
    using assms w by auto
  then show ?thesis using assms w by (simp add: tokens_word d del: dropWhile_eq_Nil_conv)
qed

lemma tokens_append_sep: "d x \<Longrightarrow> tokens d (a @ x # b) = tokens d a @ tokens d b"
proof (induction a rule: measure_induct_rule [of length])
  case (less a)
  show ?case
  proof (cases a)
    case Nil
    with less.prems show ?thesis by (simp add: tokens_skip)
  next
    case (Cons c a')
    show ?thesis
    proof (cases "d c")
      case True
      with less Cons show ?thesis by (simp add: tokens_skip)
    next
      case False
      have "length (dropWhile (\<lambda>y. \<not> d y) a') < length a"
        using Cons by (simp add: le_imp_less_Suc length_dropWhile_le)
      from less.IH [OF this less.prems] less.prems False Cons show ?thesis
        by (simp add: tokens_word takeWhile_tail dropWhile_append3)
    qed
  qed
qed

section \<open>Decimal numbers\<close>

definition digit_char :: "nat \<Rightarrow> char" where
  "digit_char n = char_of (48 + n)"

definition is_digit :: "char \<Rightarrow> bool" where
  "is_digit c = (48 \<le> (of_char c :: nat) \<and> (of_char c :: nat) \<le> 57)"

definition digit_val :: "char \<Rightarrow> nat" where
  "digit_val c = of_char c - 48"

text \<open>\<open>%zu\<close>, \<open>%u\<close> and \<open>%lu\<close>.\<close>

fun show_nat :: "nat \<Rightarrow> string" where
  "show_nat n = (if n < 10 then [digit_char n] else show_nat (n div 10) @ [digit_char (n mod 10)])"

declare show_nat.simps [simp del]

text \<open>\<open>%d\<close>, \<open>%ld\<close> and \<open>%lld\<close>.\<close>

definition show_int :: "int \<Rightarrow> string" where
  "show_int i = (if i < 0 then CHR ''-'' # show_nat (nat (- i)) else show_nat (nat i))"

text \<open>\<open>%06lu\<close>.\<close>

definition show_nat_pad6 :: "nat \<Rightarrow> string" where
  "show_nat_pad6 n = replicate (6 - length (show_nat n)) (CHR ''0'') @ show_nat n"

lemma of_char_digit: "n < 10 \<Longrightarrow> of_char (digit_char n) = (48 + n :: nat)"
  by (simp add: digit_char_def of_char_of)

lemma digit_val_char [simp]: "n < 10 \<Longrightarrow> digit_val (digit_char n) = n"
  by (simp add: digit_val_def of_char_digit)

lemma is_digit_char [simp]: "n < 10 \<Longrightarrow> is_digit (digit_char n)"
  by (simp add: is_digit_def of_char_digit)

lemma show_nat_digits: "\<forall>c\<in>set (show_nat n). is_digit c"
proof (induction n rule: show_nat.induct)
  case (1 n)
  then show ?case by (subst show_nat.simps) auto
qed

lemma show_nat_nonempty: "show_nat n \<noteq> []"
  by (subst show_nat.simps) simp

fun digits_val :: "nat \<Rightarrow> string \<Rightarrow> nat" where
  "digits_val acc [] = acc"
| "digits_val acc (c # cs) = digits_val (10 * acc + digit_val c) cs"

lemma digits_val_append: "digits_val acc (xs @ ys) = digits_val (digits_val acc xs) ys"
  by (induction xs arbitrary: acc) auto

lemma digits_val_show_nat: "digits_val 0 (show_nat n) = n"
proof (induction n rule: show_nat.induct)
  case (1 n)
  then show ?case by (subst show_nat.simps) (auto simp: digits_val_append)
qed

text \<open>
  \<open>strtoul\<close> in base 10 on a 64-bit \<open>unsigned long\<close>: leading white space, an optional sign,
  digits. The result is the value, the rest of the input (the whole input when there is no
  digit) and whether \<open>errno\<close> was set to \<open>ERANGE\<close>, in which case the value is
  \<open>ULONG_MAX\<close>. A minus sign negates in the unsigned type.
\<close>

definition is_space :: "char \<Rightarrow> bool" where
  "is_space c = (c = SP \<or> c = TAB \<or> c = LF \<or> c = CHR 0x0B \<or> c = CHR 0x0C \<or> c = CR)"

definition ULONG_MAX :: nat where "ULONG_MAX = 2 ^ 64 - 1"

definition strtoul :: "string \<Rightarrow> nat \<times> string \<times> bool" where
  "strtoul s = (let t = dropWhile is_space s;
       neg = (case t of c # _ \<Rightarrow> c = CHR ''-'' | [] \<Rightarrow> False);
       u = (case t of c # r \<Rightarrow> if c = CHR ''-'' \<or> c = CHR ''+'' then r else t | [] \<Rightarrow> []);
       ds = takeWhile is_digit u;
       v = digits_val 0 ds
     in if ds = [] then (0, s, False)
        else if ULONG_MAX < v then (ULONG_MAX, dropWhile is_digit u, True)
        else (if neg \<and> v \<noteq> 0 then 2 ^ 64 - v else v, dropWhile is_digit u, False))"

text \<open>\<open>strtoll\<close> in base 10 on a 64-bit \<open>long long\<close>, saturating.\<close>

definition LLONG_MAX :: int where "LLONG_MAX = 2 ^ 63 - 1"

definition strtoll :: "string \<Rightarrow> int" where
  "strtoll s = (let t = dropWhile is_space s;
       neg = (case t of c # _ \<Rightarrow> c = CHR ''-'' | [] \<Rightarrow> False);
       u = (case t of c # r \<Rightarrow> if c = CHR ''-'' \<or> c = CHR ''+'' then r else t | [] \<Rightarrow> []);
       v = int (digits_val 0 (takeWhile is_digit u))
     in if neg then max (- LLONG_MAX - 1) (- v) else min LLONG_MAX v)"

lemma is_digit_not_sign: "is_digit c \<Longrightarrow> \<not> is_space c \<and> c \<noteq> CHR ''-'' \<and> c \<noteq> CHR ''+''"
  by (auto simp: is_digit_def is_space_def)

lemma show_nat_split:
  assumes "r = [] \<or> \<not> is_digit (hd r)"
  shows "takeWhile is_digit (show_nat n @ r) = show_nat n"
    and "dropWhile is_digit (show_nat n @ r) = r"
proof -
  have d: "\<And>x. x \<in> set (show_nat n) \<Longrightarrow> is_digit x" using show_nat_digits by blast
  show "takeWhile is_digit (show_nat n @ r) = show_nat n"
    using d assms by (cases r) (auto simp: takeWhile_append2)
  show "dropWhile is_digit (show_nat n @ r) = r"
    using d assms by (cases r) (auto simp: dropWhile_append2)
qed

lemma show_nat_Cons:
  obtains c cs where "show_nat n = c # cs" and "is_digit c"
  using show_nat_digits [of n] show_nat_nonempty [of n] by (cases "show_nat n") auto

lemma strtoul_show_nat:
  assumes "n \<le> ULONG_MAX" and "r = [] \<or> \<not> is_digit (hd r)"
  shows "strtoul (show_nat n @ r) = (n, r, False)"
proof -
  obtain c cs where c: "show_nat n = c # cs" "is_digit c" by (rule show_nat_Cons)
  note s = show_nat_split [OF assms(2), of n]
  from c(2) have nc: "\<not> is_space c" "c \<noteq> CHR ''-''" "c \<noteq> CHR ''+''"
    by (auto dest: is_digit_not_sign)
  then have "strtoul (c # cs @ r) = (let ds = takeWhile is_digit (c # cs @ r); v = digits_val 0 ds
      in if ds = [] then (0, c # cs @ r, False)
         else if ULONG_MAX < v then (ULONG_MAX, dropWhile is_digit (c # cs @ r), True)
         else (v, dropWhile is_digit (c # cs @ r), False))"
    by (simp add: strtoul_def Let_def)
  moreover have "c # cs @ r = show_nat n @ r" using c(1) by simp
  ultimately show ?thesis
    using s assms(1) show_nat_nonempty [of n] by (simp add: Let_def digits_val_show_nat)
qed

lemma show_nat_length: "n < 10 ^ k \<Longrightarrow> 0 < k \<Longrightarrow> length (show_nat n) \<le> k"
proof (induction n arbitrary: k rule: show_nat.induct)
  case (1 n)
  show ?case
  proof (cases "n < 10")
    case False
    with "1.prems" obtain j where j: "k = Suc j" "0 < j"
      by (cases k; cases "k - 1") auto
    have "n div 10 < 10 ^ j" using "1.prems"(1) j(1) by (simp add: less_mult_imp_div_less mult.commute)
    with "1.IH" [OF False] j have "length (show_nat (n div 10)) \<le> j" by blast
    with False j(1) show ?thesis by (subst show_nat.simps) simp
  qed (use "1.prems" in \<open>subst show_nat.simps, simp\<close>)
qed

section \<open>Case folding\<close>

definition tolower :: "char \<Rightarrow> char" where
  "tolower c = (if 65 \<le> (of_char c :: nat) \<and> (of_char c :: nat) \<le> 90
     then char_of (of_char c + 32 :: nat) else c)"

section \<open>Formatting into a buffer\<close>

text \<open>
  Lists are formatted into a fixed buffer with \<open>offset += snprintf(...)\<close>, which counts also what
  was cut off. A call with an offset beyond the end would write outside: \<open>None\<close>.
\<close>

definition snprintf_at :: "nat \<Rightarrow> string \<times> nat \<Rightarrow> string \<Rightarrow> (string \<times> nat) option" where
  "snprintf_at sz p text = (case p of (buf, offset) \<Rightarrow>
     if sz < offset then None else Some (fit sz (buf @ text), offset + length text))"

end
