(* ===== verification/Persistence.thy ===== *)
theory Persistence
  imports C_Strings
begin

text \<open>
  \<open>common/src/persistence.c\<close>: where each piece of persistent state lives. A path builder
  formats into a buffer of \<open>len\<close> bytes and fails (\<open>None\<close>, the return code -1) when the
  result with its terminator does not fit; the storage-server builders go through a local
  buffer of 512 bytes. Arguments are strings, so the null-pointer guards have no counterpart.
  The dated names of the log files are in \<open>Log_Paths\<close>.
\<close>

definition PATH_MAX :: nat where "PATH_MAX = 4096"

definition write_path :: "nat \<Rightarrow> string \<Rightarrow> string option" where
  "write_path len s = (if len = 0 then None else if len \<le> length s then None else Some s)"

definition ns_registry_path :: "nat \<Rightarrow> string \<Rightarrow> string option" where
  "ns_registry_path len base_dir = write_path len (base_dir @ ''/registry.jsonl'')"

definition ns_files_index_path :: "nat \<Rightarrow> string \<Rightarrow> string option" where
  "ns_files_index_path len base_dir = write_path len (base_dir @ ''/files_index.json'')"

definition ns_acl_path :: "nat \<Rightarrow> string \<Rightarrow> string \<Rightarrow> string option" where
  "ns_acl_path len base_dir filename = write_path len (base_dir @ ''/acl/'' @ filename @ ''.acl.json'')"

definition ns_cache_path :: "nat \<Rightarrow> string \<Rightarrow> string option" where
  "ns_cache_path len base_dir = write_path len (base_dir @ ''/cache/lookup.cache'')"

definition ns_requests_path :: "nat \<Rightarrow> string \<Rightarrow> string \<Rightarrow> string option" where
  "ns_requests_path len base_dir filename =
     write_path len (base_dir @ ''/requests/'' @ filename @ ''.requests.json'')"

definition ss_root_path :: "nat \<Rightarrow> string \<Rightarrow> string \<Rightarrow> string option" where
  "ss_root_path len base_dir ss_id = write_path len (base_dir @ ''/ss_data_'' @ ss_id)"

definition ss_file_path :: "nat \<Rightarrow> string \<Rightarrow> string \<Rightarrow> string \<Rightarrow> string option" where
  "ss_file_path len base_dir ss_id filename = (case ss_root_path 512 base_dir ss_id of
     None \<Rightarrow> None | Some root \<Rightarrow> write_path len (root @ ''/files/'' @ filename))"

definition ss_metadata_path :: "nat \<Rightarrow> string \<Rightarrow> string \<Rightarrow> string \<Rightarrow> string option" where
  "ss_metadata_path len base_dir ss_id filename = (case ss_root_path 512 base_dir ss_id of
     None \<Rightarrow> None | Some root \<Rightarrow> write_path len (root @ ''/metadata/'' @ filename @ ''.meta.json''))"

definition ss_undo_path :: "nat \<Rightarrow> string \<Rightarrow> string \<Rightarrow> string \<Rightarrow> string option" where
  "ss_undo_path len base_dir ss_id filename = (case ss_root_path 512 base_dir ss_id of
     None \<Rightarrow> None | Some root \<Rightarrow> write_path len (root @ ''/undo/'' @ filename @ ''.undo.json''))"

definition ss_checkpoint_dir :: "nat \<Rightarrow> string \<Rightarrow> string \<Rightarrow> string \<Rightarrow> string option" where
  "ss_checkpoint_dir len base_dir ss_id filename = (case ss_root_path 512 base_dir ss_id of
     None \<Rightarrow> None | Some root \<Rightarrow> write_path len (root @ ''/checkpoints/'' @ filename))"

definition ss_checkpoint_path :: "nat \<Rightarrow> string \<Rightarrow> string \<Rightarrow> string \<Rightarrow> string \<Rightarrow> string option" where
  "ss_checkpoint_path len base_dir ss_id filename tag =
     (case ss_checkpoint_dir 512 base_dir ss_id filename of
        None \<Rightarrow> None | Some dir \<Rightarrow> write_path len (dir @ ''/'' @ tag @ ''.chk''))"

lemma write_path_Some: "write_path len s = Some p \<longleftrightarrow> p = s \<and> length s < len"
  by (auto simp: write_path_def)

lemma write_path_bound: "write_path len s = Some p \<Longrightarrow> length p < len"
  by (simp add: write_path_Some)

text \<open>The successful case of each builder, with the root directory named once.\<close>

definition ss_root :: "string \<Rightarrow> string \<Rightarrow> string" where
  "ss_root base_dir ss_id = base_dir @ ''/ss_data_'' @ ss_id"

lemma ss_root_path_Some: "ss_root_path len b i = Some p \<longleftrightarrow> p = ss_root b i \<and> length (ss_root b i) < len"
  by (auto simp: ss_root_path_def ss_root_def write_path_Some)

lemma ss_root_path_cases:
  obtains "ss_root_path len b i = None" | "ss_root_path len b i = Some (ss_root b i)"
  using ss_root_path_Some by (metis option.exhaust)

lemma ss_file_path_Some:
  "ss_file_path len b i f = Some p \<Longrightarrow> p = ss_root b i @ ''/files/'' @ f \<and> length p < len"
  by (cases rule: ss_root_path_cases [of 512 b i]) (simp_all add: ss_file_path_def write_path_Some)

lemma ss_metadata_path_Some:
  "ss_metadata_path len b i f = Some p \<Longrightarrow>
     p = ss_root b i @ ''/metadata/'' @ f @ ''.meta.json'' \<and> length p < len"
  by (cases rule: ss_root_path_cases [of 512 b i]) (simp_all add: ss_metadata_path_def write_path_Some)

lemma ss_undo_path_Some:
  "ss_undo_path len b i f = Some p \<Longrightarrow>
     p = ss_root b i @ ''/undo/'' @ f @ ''.undo.json'' \<and> length p < len"
  by (cases rule: ss_root_path_cases [of 512 b i]) (simp_all add: ss_undo_path_def write_path_Some)

lemma ss_checkpoint_dir_Some:
  "ss_checkpoint_dir len b i f = Some p \<Longrightarrow> p = ss_root b i @ ''/checkpoints/'' @ f \<and> length p < len"
  by (cases rule: ss_root_path_cases [of 512 b i]) (simp_all add: ss_checkpoint_dir_def write_path_Some)

lemma ss_checkpoint_path_Some:
  assumes "ss_checkpoint_path len b i f t = Some p"
  shows "p = ss_root b i @ ''/checkpoints/'' @ f @ ''/'' @ t @ ''.chk'' \<and> length p < len"
proof (cases "ss_checkpoint_dir 512 b i f")
  case None
  with assms show ?thesis by (simp add: ss_checkpoint_path_def)
next
  case (Some d)
  with assms ss_checkpoint_dir_Some [OF Some] show ?thesis
    by (simp add: ss_checkpoint_path_def write_path_Some)
qed

lemma ss_paths_distinct:
  assumes "ss_file_path len b i f = Some p"
    and "ss_metadata_path len b i g = Some q"
    and "ss_undo_path len b i h = Some r"
  shows "p \<noteq> q \<and> p \<noteq> r \<and> q \<noteq> r"
  using assms(1) [THEN ss_file_path_Some] assms(2) [THEN ss_metadata_path_Some]
    assms(3) [THEN ss_undo_path_Some] by simp

text \<open>
  A tag without a slash is recovered from the checkpoint path, and so is the file name:
  different checkpoints never share a file.
\<close>

lemma last_slash_unique:
  assumes "f @ SLASH # t = g @ SLASH # u" and "SLASH \<notin> set t" and "SLASH \<notin> set u"
  shows "f = g \<and> t = u"
proof -
  have "Some (f, t) = Some (g, u)"
    unfolding strrchr_append [OF assms(2), of f, symmetric] assms(1)
    by (rule strrchr_append [OF assms(3)])
  then show ?thesis by simp
qed

lemma ss_checkpoint_path_inj:
  assumes "ss_checkpoint_path len b i f t = Some p" and "ss_checkpoint_path len b i g u = Some p"
    and "SLASH \<notin> set t" and "SLASH \<notin> set u"
  shows "f = g \<and> t = u"
proof -
  from assms(1,2) [THEN ss_checkpoint_path_Some]
  have "f @ SLASH # (t @ ''.chk'') = g @ SLASH # (u @ ''.chk'')" by simp
  moreover have "SLASH \<notin> set (t @ ''.chk'')" "SLASH \<notin> set (u @ ''.chk'')"
    using assms(3,4) by auto
  ultimately have "f = g \<and> t @ ''.chk'' = u @ ''.chk''" by (rule last_slash_unique)
  then show ?thesis by simp
qed

end
