(* ===== verification/Disk.thy ===== *)
theory Disk
  imports Persistence
begin

text \<open>
  The file system the storage engine runs on and the helpers of \<open>storage_engine.c\<close> that touch
  it: \<open>ensure_dir\<close>, \<open>ensure_parent_dir\<close>, \<open>normalize_relative_path\<close>, \<open>atomic_write\<close> and
  \<open>read_file_if_exists\<close>. A file system is a working directory and a finite table from
  absolute paths (lists of component names) to nodes; the kernel resolves a path string
  component by component, each intermediate one being an existing directory, with \<open>.\<close> and
  \<open>..\<close> interpreted (there are no symbolic links). Failures of the device or of permissions are
  outcomes the record \<open>io\<close> chooses freely per path, so a statement for every \<open>io\<close> covers a full
  disk, a short write or a failed rename at any of the calls.
\<close>

section \<open>Files, directories and path resolution\<close>

datatype node = Dir | Reg bytes

type_synonym path = "string list"

record fs =
  fs_cwd :: path
  fs_nodes :: "(path \<times> node) list"

datatype errno = ENOENT | ENOTDIR | EEXIST | EISDIR | ENOTEMPTY | EINVAL | EOTHER

record io =
  io_mkdir :: "string \<Rightarrow> bool"
  io_mkstemp :: "string \<Rightarrow> string option"
  io_write :: "string \<Rightarrow> nat \<Rightarrow> int"
  io_fsync :: "string \<Rightarrow> bool"
  io_rename :: "string \<Rightarrow> bool"

definition node_at :: "fs \<Rightarrow> path \<Rightarrow> node option" where
  "node_at d p = (if p = [] then Some Dir else map_of (fs_nodes d) p)"

definition fs_put :: "path \<Rightarrow> node \<Rightarrow> fs \<Rightarrow> fs" where
  "fs_put p n d = d\<lparr>fs_nodes := AList.update p n (fs_nodes d)\<rparr>"

definition fs_del :: "path \<Rightarrow> fs \<Rightarrow> fs" where
  "fs_del p d = d\<lparr>fs_nodes := AList.delete p (fs_nodes d)\<rparr>"

abbreviation components :: "string \<Rightarrow> string list" where
  "components s \<equiv> tokens (\<lambda>c. c = SLASH) s"

definition path_step :: "path \<Rightarrow> string \<Rightarrow> path" where
  "path_step cur c = (if c = ''.'' then cur else if c = ''..'' then butlast cur else cur @ [c])"

fun walk :: "fs \<Rightarrow> path \<Rightarrow> string list \<Rightarrow> errno + path" where
  "walk d cur [] = Inr cur"
| "walk d cur (c # cs) = (case node_at d cur of
     None \<Rightarrow> Inl ENOENT
   | Some (Reg _) \<Rightarrow> Inl ENOTDIR
   | Some Dir \<Rightarrow> walk d (path_step cur c) cs)"

definition resolve :: "fs \<Rightarrow> string \<Rightarrow> errno + path" where
  "resolve d s = (if s = [] then Inl ENOENT
     else walk d (if hd s = SLASH then [] else fs_cwd d) (components s))"

section \<open>System calls\<close>

definition sys_stat :: "fs \<Rightarrow> string \<Rightarrow> errno + node" where
  "sys_stat d s = (case resolve d s of Inl e \<Rightarrow> Inl e
     | Inr p \<Rightarrow> (case node_at d p of None \<Rightarrow> Inl ENOENT | Some n \<Rightarrow> Inr n))"

definition sys_mkdir :: "io \<Rightarrow> fs \<Rightarrow> string \<Rightarrow> errno + fs" where
  "sys_mkdir w d s = (case resolve d s of Inl e \<Rightarrow> Inl e
     | Inr p \<Rightarrow> if node_at d p \<noteq> None then Inl EEXIST
               else if \<not> io_mkdir w s then Inl EOTHER
               else Inr (fs_put p Dir d))"

definition sys_unlink :: "fs \<Rightarrow> string \<Rightarrow> fs" where
  "sys_unlink d s = (case resolve d s of Inl e \<Rightarrow> d
     | Inr p \<Rightarrow> (case node_at d p of Some (Reg _) \<Rightarrow> fs_del p d | _ \<Rightarrow> d))"

definition fs_move_tree :: "path \<Rightarrow> path \<Rightarrow> fs \<Rightarrow> fs" where
  "fs_move_tree p q d = d\<lparr>fs_nodes := map (\<lambda>(r, n). (if prefix p r then q @ drop (length p) r else r, n))
     (AList.delete q (fs_nodes d))\<rparr>"

definition sys_rename :: "io \<Rightarrow> fs \<Rightarrow> string \<Rightarrow> string \<Rightarrow> errno + fs" where
  "sys_rename w d s t = (case resolve d s of Inl e \<Rightarrow> Inl e | Inr p \<Rightarrow>
     (case resolve d t of Inl e \<Rightarrow> Inl e | Inr q \<Rightarrow>
       (case node_at d p of
          None \<Rightarrow> Inl ENOENT
        | Some (Reg b) \<Rightarrow>
            if node_at d q = Some Dir then Inl EISDIR
            else if \<not> io_rename w t then Inl EOTHER
            else Inr (if p = q then d else fs_put q (Reg b) (fs_del p d))
        | Some Dir \<Rightarrow>
            if p = q then Inr d
            else if prefix p q then Inl EINVAL
            else if node_at d q \<noteq> None \<and> node_at d q \<noteq> Some Dir then Inl ENOTDIR
            else if list_ex (\<lambda>(r, n). strict_prefix q r) (fs_nodes d) then Inl ENOTEMPTY
            else if \<not> io_rename w t then Inl EOTHER
            else Inr (fs_move_tree p q d))))"

text \<open>\<open>mkstemp\<close> replaces the six last characters of its template and creates the file.\<close>

definition sys_mkstemp :: "io \<Rightarrow> fs \<Rightarrow> string \<Rightarrow> (string \<times> fs) option" where
  "sys_mkstemp w d template = (let k = length template - 6 in
     if drop k template \<noteq> ''XXXXXX'' then None
     else case io_mkstemp w template of None \<Rightarrow> None | Some suf \<Rightarrow>
       (let t = take k template @ suf in
        case resolve d t of Inl e \<Rightarrow> None
        | Inr p \<Rightarrow> if node_at d p \<noteq> None then None else Some (t, fs_put p (Reg []) d)))"

text \<open>Storing the data of an open file by its name; \<open>fopen\<close> with mode \<open>w\<close> creates it.\<close>

definition sys_store :: "fs \<Rightarrow> string \<Rightarrow> bytes \<Rightarrow> fs" where
  "sys_store d s b = (case resolve d s of Inl e \<Rightarrow> d
     | Inr p \<Rightarrow> if node_at d p = Some Dir then d else fs_put p (Reg b) d)"

text \<open>\<open>opendir\<close> and \<open>readdir\<close>: the names in a directory, the two dot entries first.\<close>

definition sys_readdir :: "fs \<Rightarrow> string \<Rightarrow> errno + string list" where
  "sys_readdir d s = (case resolve d s of Inl e \<Rightarrow> Inl e
     | Inr p \<Rightarrow> (case node_at d p of
         None \<Rightarrow> Inl ENOENT
       | Some (Reg _) \<Rightarrow> Inl ENOTDIR
       | Some Dir \<Rightarrow> Inr (''.'' # ''..'' # map (last \<circ> fst)
           (filter (\<lambda>(r, n). r \<noteq> [] \<and> butlast r = p) (AList.clearjunk (fs_nodes d))))))"

section \<open>The helpers of the engine\<close>

function ensure_dir :: "io \<Rightarrow> fs \<Rightarrow> string \<Rightarrow> bool \<times> fs" where
  "ensure_dir w d path = (case sys_mkdir w d path of
     Inr d' \<Rightarrow> (True, d')
   | Inl e \<Rightarrow>
       if e = EEXIST then (True, d)
       else if e = ENOENT then
         (case strrchr (fit PATH_MAX path) SLASH of
            None \<Rightarrow> (False, d)
          | Some (tmp, _) \<Rightarrow>
              if tmp = [] then (False, d)
              else let (ok, d') = ensure_dir w d tmp in
                if \<not> ok then (False, d')
                else (case sys_mkdir w d' path of
                   Inr d'' \<Rightarrow> (True, d'')
                 | Inl e' \<Rightarrow> (e' = EEXIST, d')))
       else (False, d))"
  by pat_completeness auto
termination
proof (relation "measure (\<lambda>(w, d, path). length path)", goal_cases)
  case (2 w d path e ts tmp b)
  then have "fit PATH_MAX path = tmp @ SLASH # b" by (auto dest: strrchr_Some)
  then have "length tmp < length (fit PATH_MAX path)" by simp
  also have "\<dots> \<le> length path" by (simp add: fit_def)
  finally show ?case by simp
qed simp

declare ensure_dir.simps [simp del]

definition ensure_parent_dir :: "io \<Rightarrow> fs \<Rightarrow> string \<Rightarrow> bool \<times> fs" where
  "ensure_parent_dir w d path = (case strrchr (fit PATH_MAX path) SLASH of
     None \<Rightarrow> (True, d)
   | Some (tmp, _) \<Rightarrow> if tmp = [] then (True, d) else ensure_dir w d tmp)"

function collapse_slashes :: "nat \<Rightarrow> string \<Rightarrow> string" where
  "collapse_slashes idx [] = []"
| "collapse_slashes idx (c # cs) = (if idx + 1 < PATH_MAX
     then if c = SLASH then SLASH # collapse_slashes (idx + 1) (dropWhile (\<lambda>x. x = SLASH) cs)
          else c # collapse_slashes (idx + 1) cs
     else [])"
  by pat_completeness auto
termination
  by (relation "measure (\<lambda>(idx, s). length s)") (auto intro: le_imp_less_Suc length_dropWhile_le)

definition strip_slashes :: "string \<Rightarrow> string" where
  "strip_slashes s = rev (dropWhile (\<lambda>x. x = SLASH) (rev s))"

definition normalize_relative_path :: "string \<Rightarrow> nat \<Rightarrow> string option" where
  "normalize_relative_path input len = (if len = 0 then None else
     (let temp = strip_slashes (collapse_slashes 0 (dropWhile (\<lambda>x. x = SLASH) input)) in
      if list_ex (\<lambda>tok. tok = ''.'' \<or> tok = ''..'') (components temp) then None
      else Some (fit len temp)))"

definition atomic_write :: "io \<Rightarrow> fs \<Rightarrow> string \<Rightarrow> bytes \<Rightarrow> bool \<times> fs" where
  "atomic_write w d path data = (let (ok, d1) = ensure_parent_dir w d path in
     if \<not> ok then (False, d1)
     else case sys_mkstemp w d1 (fit PATH_MAX (path @ ''.XXXXXX'')) of
       None \<Rightarrow> (False, d1)
     | Some (tmp_path, d2) \<Rightarrow>
         (let written = io_write w tmp_path (length data);
              d3 = (if written < 0 then d2 else sys_store d2 tmp_path (take (nat written) data)) in
          if written < 0 \<or> nat written \<noteq> length data then (False, sys_unlink d3 tmp_path)
          else if \<not> io_fsync w tmp_path then (False, sys_unlink d3 tmp_path)
          else case sys_rename w d3 tmp_path path of
            Inl e \<Rightarrow> (False, sys_unlink d3 tmp_path)
          | Inr d4 \<Rightarrow> (True, d4)))"

definition read_file_if_exists :: "fs \<Rightarrow> string \<Rightarrow> bytes option" where
  "read_file_if_exists d path = (case sys_stat d path of Inr (Reg b) \<Rightarrow> Some b | _ \<Rightarrow> None)"

section \<open>Extension of a file system by directories\<close>

definition fs_le :: "fs \<Rightarrow> fs \<Rightarrow> bool" where
  "fs_le d d' \<longleftrightarrow> fs_cwd d' = fs_cwd d \<and>
     (\<forall>q. node_at d' q = node_at d q \<or> node_at d q = None \<and> node_at d' q = Some Dir)"

lemma node_at_root [simp]: "node_at d [] = Some Dir"
  by (simp add: node_at_def)

lemma node_at_put: "node_at (fs_put p n d) q = (if q = p \<and> p \<noteq> [] then Some n else node_at d q)"
  by (simp add: node_at_def fs_put_def AList.update_conv')

lemma node_at_del: "node_at (fs_del p d) q = (if q = p \<and> p \<noteq> [] then None else node_at d q)"
  by (simp add: node_at_def fs_del_def AList.delete_conv')

lemma fs_cwd_simps [simp]: "fs_cwd (fs_put p n d) = fs_cwd d" "fs_cwd (fs_del p d) = fs_cwd d"
  by (simp_all add: fs_put_def fs_del_def)

lemma fs_le_refl [simp]: "fs_le d d"
  by (simp add: fs_le_def)

lemma fs_le_trans: "fs_le d d' \<Longrightarrow> fs_le d' d'' \<Longrightarrow> fs_le d d''"
  unfolding fs_le_def by metis

lemma walk_mono:
  assumes "\<And>q. node_at d q = Some Dir \<Longrightarrow> node_at d' q = Some Dir"
  shows "walk d cur cs = Inr p \<Longrightarrow> walk d' cur cs = Inr p"
  by (induction cs arbitrary: cur) (auto simp: assms split: option.splits node.splits)

lemma resolve_mono:
  assumes "\<And>q. node_at d q = Some Dir \<Longrightarrow> node_at d' q = Some Dir" and "fs_cwd d' = fs_cwd d"
  shows "resolve d s = Inr p \<Longrightarrow> resolve d' s = Inr p"
  using walk_mono [OF assms(1)] assms(2) by (auto simp: resolve_def split: if_splits)

lemma resolve_fs_le: "fs_le d d' \<Longrightarrow> resolve d s = Inr p \<Longrightarrow> resolve d' s = Inr p"
  by (rule resolve_mono) (auto simp: fs_le_def, metis option.distinct(1))

lemma sys_mkdir_Inr:
  assumes "sys_mkdir w d s = Inr d'"
  shows "fs_le d d'" and "\<exists>p. resolve d' s = Inr p \<and> node_at d' p = Some Dir"
proof -
  from assms obtain p where p: "resolve d s = Inr p" "node_at d p = None" "d' = fs_put p Dir d"
    by (auto simp: sys_mkdir_def split: sum.splits if_splits)
  then have "p \<noteq> []" by auto
  with p show le: "fs_le d d'" by (simp add: fs_le_def node_at_put)
  from resolve_fs_le [OF le p(1)] p \<open>p \<noteq> []\<close>
  show "\<exists>p. resolve d' s = Inr p \<and> node_at d' p = Some Dir" by (auto simp: node_at_put)
qed

lemma sys_mkdir_EEXIST:
  "sys_mkdir w d s = Inl EEXIST \<Longrightarrow> \<exists>p. resolve d s = Inr p \<and> node_at d p \<noteq> None \<or> resolve d s = Inl EEXIST"
  by (auto simp: sys_mkdir_def split: sum.splits if_splits)

lemma walk_not_EEXIST: "walk d cur cs \<noteq> Inl EEXIST"
  by (induction cs arbitrary: cur) (auto split: option.splits node.splits)

lemma resolve_not_EEXIST: "resolve d s \<noteq> Inl EEXIST"
  by (simp add: resolve_def walk_not_EEXIST)

lemma ensure_dir_extends: "ensure_dir w d path = (ok, d') \<Longrightarrow> fs_le d d'"
proof (induction w d path arbitrary: ok d' rule: ensure_dir.induct)
  case (1 w d path)
  from "1.prems" show ?case
    by (subst (asm) ensure_dir.simps)
      (auto split: sum.splits if_splits option.splits prod.splits
        dest: sys_mkdir_Inr(1) "1.IH" intro: fs_le_trans)
qed

lemma ensure_dir_exists:
  assumes "ensure_dir w d path = (True, d')"
  shows "\<exists>p. resolve d' path = Inr p \<and> node_at d' p \<noteq> None"
proof -
  have E: "\<And>d. sys_mkdir w d path = Inl EEXIST \<Longrightarrow> \<exists>p. resolve d path = Inr p \<and> node_at d p \<noteq> None"
    using sys_mkdir_EEXIST resolve_not_EEXIST by metis
  have N: "\<And>d d'. sys_mkdir w d path = Inr d' \<Longrightarrow> \<exists>p. resolve d' path = Inr p \<and> node_at d' p \<noteq> None"
    using sys_mkdir_Inr(2) by fastforce
  from assms show ?thesis
    by (subst (asm) ensure_dir.simps)
      (auto split: sum.splits if_splits option.splits prod.splits dest: E N)
qed

lemma ensure_parent_dir_extends: "ensure_parent_dir w d path = (ok, d') \<Longrightarrow> fs_le d d'"
  by (auto simp: ensure_parent_dir_def split: option.splits if_splits prod.splits
      dest: ensure_dir_extends)

section \<open>Replacing a file is all or nothing\<close>

lemma resolve_same_dirs:
  assumes "\<And>q. node_at d q = Some Dir \<longleftrightarrow> node_at d' q = Some Dir" and "fs_cwd d' = fs_cwd d"
  shows "resolve d s = Inr p \<longleftrightarrow> resolve d' s = Inr p"
  using resolve_mono [of d d' s p] resolve_mono [of d' d s p] assms by auto

lemma sys_mkstemp_Some:
  assumes "sys_mkstemp w d s = Some (t, d')"
  obtains p where "resolve d t = Inr p" "node_at d p = None" "p \<noteq> []" "d' = fs_put p (Reg []) d"
proof -
  from assms obtain p where "resolve d t = Inr p" "node_at d p = None" "d' = fs_put p (Reg []) d"
    by (auto simp: sys_mkstemp_def Let_def split: if_splits option.splits sum.splits)
  then show ?thesis using that by force
qed

lemma atomic_write_cases:
  assumes "atomic_write w d path data = (ok, d')"
  shows "if ok then \<exists>d1 p. fs_le d d1 \<and> resolve d1 path = Inr p \<and> node_at d1 p \<noteq> Some Dir
             \<and> fs_cwd d' = fs_cwd d1 \<and> (\<forall>q. node_at d' q = (if q = p then Some (Reg data) else node_at d1 q))
         else fs_le d d'"
proof -
  obtain ok1 d1 where e: "ensure_parent_dir w d path = (ok1, d1)" by fastforce
  note le = ensure_parent_dir_extends [OF e]
  show ?thesis
  proof (cases "sys_mkstemp w d1 (fit PATH_MAX (path @ ''.XXXXXX''))")
    case None
    with e assms le show ?thesis by (auto simp: atomic_write_def split: if_splits)
  next
    case (Some r)
    then obtain t d2 where m: "sys_mkstemp w d1 (fit PATH_MAX (path @ ''.XXXXXX'')) = Some (t, d2)"
      by (cases r) auto
    from sys_mkstemp_Some [OF m] obtain p where p: "resolve d1 t = Inr p" "node_at d1 p = None"
      "p \<noteq> []" "d2 = fs_put p (Reg []) d1" .
    define wr where "wr = io_write w t (length data)"
    define d3 where "d3 = (if wr < 0 then d2 else sys_store d2 t (take (nat wr) data))"
    have r2: "resolve d2 t = Inr p"
      using p by (subst resolve_same_dirs [of _ d1]) (auto simp: node_at_put)
    have n3: "node_at d3 q = (if q = p then Some (Reg (if wr < 0 then [] else take (nat wr) data))
        else node_at d1 q)" for q
      using p r2 by (auto simp: d3_def sys_store_def node_at_put)
    have c3: "fs_cwd d3 = fs_cwd d1" using p r2 by (auto simp: d3_def sys_store_def node_at_put)
    have r3: "resolve d3 s = Inr q \<longleftrightarrow> resolve d1 s = Inr q" for s q
      using p c3 by (intro resolve_same_dirs) (auto simp: n3)
    have u: "sys_unlink d3 t = fs_del p d3"
      using r3 [of t p] p n3 by (simp add: sys_unlink_def)
    have "fs_le d1 (fs_del p d3)"
      using p by (auto simp: fs_le_def node_at_del n3 c3)
    with le have undo: "fs_le d (fs_del p d3)" by (rule fs_le_trans)
    have a: "(ok, d') = (if \<not> ok1 then (False, d1)
        else if wr < 0 \<or> nat wr \<noteq> length data \<or> \<not> io_fsync w t then (False, fs_del p d3)
        else case sys_rename w d3 t path of Inl e \<Rightarrow> (False, fs_del p d3) | Inr d4 \<Rightarrow> (True, d4))"
      using assms unfolding atomic_write_def e m prod.case option.case Let_def
      by (fold wr_def, fold d3_def, fold u) (auto split: if_splits)
    show ?thesis
    proof (cases ok)
      case False
      with a le undo show ?thesis by (auto split: if_splits sum.splits)
    next
      case True
      with a have w: "\<not> wr < 0" "nat wr = length data" and rn: "sys_rename w d3 t path = Inr d'"
        by (auto split: if_splits sum.splits)
      from rn r3 [of t p] p n3 [of p] w obtain q where q: "resolve d3 path = Inr q"
          "node_at d3 q \<noteq> Some Dir" "d' = (if p = q then d3 else fs_put q (Reg data) (fs_del p d3))"
        by (auto simp: sys_rename_def split: sum.splits option.splits node.splits if_splits)
      have "node_at d1 q \<noteq> Some Dir" "q \<noteq> []" using q(2) n3 [of q] p by (auto split: if_splits)
      moreover have "node_at d' x = (if x = q then Some (Reg data) else node_at d1 x)" for x
        using q(3) \<open>q \<noteq> []\<close> p w by (auto simp: node_at_put node_at_del n3)
      moreover have "fs_cwd d' = fs_cwd d1" using q(3) c3 by auto
      ultimately show ?thesis using True le q(1) r3 by (intro if_P [THEN iffD2]) (auto intro!: exI)
    qed
  qed
qed

section \<open>Clean paths\<close>

definition clean_path :: "string \<Rightarrow> bool" where
  "clean_path s = list_all (\<lambda>c. c \<noteq> ''.'' \<and> c \<noteq> ''..'') (components s)"

lemma walk_append:
  "walk d cur (xs @ ys) = (case walk d cur xs of Inl e \<Rightarrow> Inl e | Inr m \<Rightarrow> walk d m ys)"
  by (induction xs arbitrary: cur) (auto split: option.splits node.splits)

lemma walk_clean:
  "list_all (\<lambda>c. c \<noteq> ''.'' \<and> c \<noteq> ''..'') cs \<Longrightarrow> walk d cur cs = Inr p \<Longrightarrow> p = cur @ cs"
  by (induction cs arbitrary: cur) (force simp: path_step_def split: option.splits node.splits)+

lemma resolve_below:
  assumes "resolve d (r @ SLASH # s) = Inr p" and "r \<noteq> []" and "clean_path s"
  shows "\<exists>m. resolve d r = Inr m \<and> p = m @ components s"
  using assms walk_clean [of "components s" d]
  by (auto simp: resolve_def tokens_append_sep walk_append clean_path_def split: sum.splits if_splits)

lemma components_single: "s \<noteq> [] \<Longrightarrow> SLASH \<notin> set s \<Longrightarrow> components s = [s]"
  by (rule tokens_single) auto

lemma clean_path_sep: "clean_path (a @ SLASH # b) \<longleftrightarrow> clean_path a \<and> clean_path b"
  by (simp add: clean_path_def tokens_append_sep)

lemma clean_path_ext:
  assumes "clean_path f" and "SLASH \<notin> set e" and "2 < length e"
  shows "clean_path (f @ e)"
proof -
  have long: "clean_path (b @ e)" if "SLASH \<notin> set b" for b
  proof -
    have "components (b @ e) = [b @ e]"
      using that assms by (intro components_single) auto
    moreover have "b @ e \<noteq> ''.''" "b @ e \<noteq> ''..''"
      using assms(3) by (auto simp: append_eq_Cons_conv)
    ultimately show ?thesis by (simp add: clean_path_def)
  qed
  show ?thesis
  proof (cases "SLASH \<in> set f")
    case False
    then show ?thesis by (rule long)
  next
    case True
    then obtain a b where f: "f = a @ SLASH # b" "SLASH \<notin> set b" by (metis split_list_last)
    with assms(1) long [OF f(2)] show ?thesis by (simp add: clean_path_sep)
  qed
qed

section \<open>Normalised relative paths\<close>

fun single_slashes :: "string \<Rightarrow> bool" where
  "single_slashes [] = True"
| "single_slashes (c # cs) = (single_slashes cs \<and> \<not> (c = SLASH \<and> cs \<noteq> [] \<and> hd cs = SLASH))"

definition tidy_path :: "string \<Rightarrow> bool" where
  "tidy_path s \<longleftrightarrow> clean_path s \<and> single_slashes s \<and> length s < PATH_MAX
     \<and> (s \<noteq> [] \<longrightarrow> hd s \<noteq> SLASH \<and> last s \<noteq> SLASH)"

lemma collapse_slashes_hd: "collapse_slashes n s \<noteq> [] \<Longrightarrow> hd (collapse_slashes n s) = hd s"
  by (cases s) (auto split: if_splits)

lemma hd_skip_slashes: "dropWhile (\<lambda>x. x = SLASH) s \<noteq> [] \<Longrightarrow> hd (dropWhile (\<lambda>x. x = SLASH) s) \<noteq> SLASH"
  by (metis (mono_tags) hd_dropWhile)

lemma collapse_skip_hd:
  assumes "collapse_slashes n (dropWhile (\<lambda>x. x = SLASH) s) \<noteq> []"
  shows "hd (collapse_slashes n (dropWhile (\<lambda>x. x = SLASH) s)) \<noteq> SLASH"
  using collapse_slashes_hd [OF assms] hd_skip_slashes assms by (metis collapse_slashes.simps(1))

lemma single_slashes_collapse: "single_slashes (collapse_slashes n s)"
  by (induction n s rule: collapse_slashes.induct) (auto dest: collapse_skip_hd)

lemma length_collapse: "n < PATH_MAX \<Longrightarrow> n + length (collapse_slashes n s) < PATH_MAX"
  by (induction n s rule: collapse_slashes.induct) auto

lemma collapse_id: "single_slashes s \<Longrightarrow> n + length s < PATH_MAX \<Longrightarrow> collapse_slashes n s = s"
proof (induction n s rule: collapse_slashes.induct)
  case (2 n c cs)
  show ?case
  proof (cases "c = SLASH")
    case True
    with "2.prems" have "dropWhile (\<lambda>x. x = SLASH) cs = cs" by (cases cs) auto
    with 2 True show ?thesis by simp
  qed (use 2 in simp)
qed simp

lemma strip_slashes_take: "\<exists>k. strip_slashes s = take k s"
  unfolding strip_slashes_def by (metis dropWhile_eq_drop rev_drop rev_rev_ident)

lemma single_slashes_take: "single_slashes s \<Longrightarrow> single_slashes (take k s)"
proof (induction s arbitrary: k)
  case (Cons c s)
  then show ?case by (cases k; cases "k - 1") (auto simp: take_Cons')
qed simp

lemma last_strip_slashes: "strip_slashes s \<noteq> [] \<Longrightarrow> last (strip_slashes s) \<noteq> SLASH"
  unfolding strip_slashes_def by (metis (mono_tags) hd_dropWhile last_rev rev.simps(1))

lemma strip_slashes_id: "s \<noteq> [] \<longrightarrow> last s \<noteq> SLASH \<Longrightarrow> strip_slashes s = s"
  unfolding strip_slashes_def by (cases "s = []") (auto intro: last_dropWhile_rev)

lemma normalize_tidy:
  assumes "normalize_relative_path s PATH_MAX = Some r"
  shows "tidy_path r"
proof -
  let ?c = "collapse_slashes 0 (dropWhile (\<lambda>x. x = SLASH) s)"
  obtain k where k: "strip_slashes ?c = take k ?c" using strip_slashes_take by blast
  have l: "length (strip_slashes ?c) < PATH_MAX"
    using length_collapse [of 0 "dropWhile (\<lambda>x. x = SLASH) s"] k by (simp add: PATH_MAX_def)
  with assms have r: "r = strip_slashes ?c" "clean_path r"
    by (auto simp: normalize_relative_path_def clean_path_def fit_id list_ex_iff list_all_iff Let_def
        split: if_splits)
  have "hd r \<noteq> SLASH" if "r \<noteq> []"
    using that r(1) k collapse_skip_hd [of 0 s] by (cases k) (auto simp: hd_conv_nth)
  with r l last_strip_slashes [of ?c] single_slashes_take [OF single_slashes_collapse, of k] k
  show ?thesis by (auto simp: tidy_path_def)
qed

lemma normalize_fixed:
  assumes "tidy_path r"
  shows "normalize_relative_path r PATH_MAX = Some r"
proof -
  have "dropWhile (\<lambda>x. x = SLASH) r = r" using assms by (cases r) (auto simp: tidy_path_def)
  moreover have "collapse_slashes 0 r = r" using assms by (auto simp: tidy_path_def intro: collapse_id)
  moreover have "strip_slashes r = r" using assms by (auto simp: tidy_path_def intro: strip_slashes_id)
  moreover have "fit PATH_MAX r = r" using assms by (auto simp: tidy_path_def intro: fit_id)
  ultimately show ?thesis using assms
    by (auto simp: normalize_relative_path_def Let_def tidy_path_def clean_path_def list_ex_iff
        list_all_iff PATH_MAX_def)
qed

lemma resolve_store_file:
  assumes "ss_file_path len b i f = Some s" and "clean_path f" and "resolve d s = Inr p"
  shows "\<exists>m. resolve d (ss_root b i) = Inr m \<and> p = m @ ''files'' # components f"
  using ss_file_path_Some [OF assms(1)] assms(2,3)
    resolve_below [of d "ss_root b i" "''files/'' @ f" p]
    tokens_append_sep [of "\<lambda>c. c = SLASH" SLASH "''files''" f]
    clean_path_sep [of "''files''" f]
  by (auto simp: ss_root_def clean_path_def tokens_cons)

section \<open>The interface of the file store\<close>

text \<open>
  What the engine relies on: a write that reports success is read back, one that reports
  failure leaves every readable file as it was, and a write to one name never changes what is
  read under a name that is kept apart from it.
\<close>

locale file_store =
  fixes store :: "'d \<Rightarrow> 'k \<Rightarrow> 'b \<Rightarrow> bool \<times> 'd"
    and fetch :: "'d \<Rightarrow> 'k \<Rightarrow> 'b option"
    and apart :: "'k \<Rightarrow> 'k \<Rightarrow> bool"
  assumes fetch_stored: "store d k b = (True, d') \<Longrightarrow> fetch d' k = Some b"
    and fetch_failed: "store d k b = (False, d') \<Longrightarrow> fetch d j = Some x \<Longrightarrow> fetch d' j = Some x"
    and fetch_apart: "store d k b = (ok, d') \<Longrightarrow> apart j k \<Longrightarrow> fetch d j = Some x \<Longrightarrow> fetch d' j = Some x"
begin

lemma old_or_new:
  "store d k b = (ok, d') \<Longrightarrow> fetch d k = Some a \<Longrightarrow> fetch d' k = Some (if ok then b else a)"
  using fetch_stored fetch_failed by (cases ok) auto

lemma stored_then_other:
  "store d k b = (True, d1) \<Longrightarrow> store d1 j c = (ok, d2) \<Longrightarrow> apart k j \<Longrightarrow> fetch d2 k = Some b"
  using fetch_stored fetch_apart by blast

lemma stored_then_two:
  "store d k b = (True, d1) \<Longrightarrow> store d1 j c = (ok, d2) \<Longrightarrow> store d2 l e = (ok', d3)
     \<Longrightarrow> apart k j \<Longrightarrow> apart k l \<Longrightarrow> fetch d3 k = Some b"
  using stored_then_other fetch_apart by blast

end

definition paths_apart :: "string \<Rightarrow> string \<Rightarrow> bool" where
  "paths_apart s t \<longleftrightarrow> (\<forall>d p q. resolve d s = Inr p \<longrightarrow> resolve d t = Inr q \<longrightarrow> p \<noteq> q)"

lemma read_file_Some:
  "read_file_if_exists d s = Some b \<longleftrightarrow> (\<exists>p. resolve d s = Inr p \<and> node_at d p = Some (Reg b))"
  by (auto simp: read_file_if_exists_def sys_stat_def split: sum.splits option.splits node.splits)

lemma read_file_fs_le: "fs_le d d' \<Longrightarrow> read_file_if_exists d s = Some b \<Longrightarrow> read_file_if_exists d' s = Some b"
  using resolve_fs_le unfolding read_file_Some fs_le_def by (metis option.distinct(1))

lemma read_after_atomic_write:
  assumes "atomic_write w d s b = (True, d')"
  shows "read_file_if_exists d' s = Some b"
    and "paths_apart t s \<Longrightarrow> read_file_if_exists d t = Some x \<Longrightarrow> read_file_if_exists d' t = Some x"
proof -
  from atomic_write_cases [OF assms] obtain d1 p where
    le: "fs_le d d1" and p: "resolve d1 s = Inr p" "node_at d1 p \<noteq> Some Dir" and c: "fs_cwd d' = fs_cwd d1"
    and n: "\<And>q. node_at d' q = (if q = p then Some (Reg b) else node_at d1 q)" by auto
  have r: "resolve d1 u = Inr q \<Longrightarrow> resolve d' u = Inr q" for u q
    using p c n by (intro resolve_mono [of d1 d']) auto
  show "read_file_if_exists d' s = Some b" using r p n by (auto simp: read_file_Some)
  assume t: "paths_apart t s" "read_file_if_exists d t = Some x"
  then obtain q where q: "resolve d1 t = Inr q" "node_at d1 q = Some (Reg x)"
    using read_file_fs_le [OF le] by (auto simp: read_file_Some)
  moreover from t(1) q p have "q \<noteq> p" unfolding paths_apart_def by blast
  ultimately show "read_file_if_exists d' t = Some x" using r n by (auto simp: read_file_Some)
qed

interpretation disk: file_store "atomic_write w" read_file_if_exists paths_apart
proof unfold_locales
  fix d :: fs and k b d' j x ok
  show "atomic_write w d k b = (True, d') \<Longrightarrow> read_file_if_exists d' k = Some b"
    by (rule read_after_atomic_write(1))
  show failed: "atomic_write w d k b = (False, d') \<Longrightarrow> read_file_if_exists d j = Some x
      \<Longrightarrow> read_file_if_exists d' j = Some x"
    using atomic_write_cases [of w d k b False d'] read_file_fs_le by simp
  show "atomic_write w d k b = (ok, d') \<Longrightarrow> paths_apart j k \<Longrightarrow> read_file_if_exists d j = Some x
      \<Longrightarrow> read_file_if_exists d' j = Some x"
    using failed read_after_atomic_write(2) by (cases ok) auto
qed

lemma apart_below:
  assumes "r \<noteq> []" and "clean_path s" and "clean_path t" and "components s \<noteq> components t"
  shows "paths_apart (r @ SLASH # s) (r @ SLASH # t)"
  unfolding paths_apart_def using assms resolve_below by (metis sum.inject(2) same_append_eq)

lemma clean_under: "clean_path f \<Longrightarrow> SLASH \<notin> set a \<Longrightarrow> 2 < length a \<Longrightarrow> clean_path (a @ SLASH # f)
    \<and> components (a @ SLASH # f) = a # components f"
  using components_single [of a]
  by (cases "a = []") (auto simp: clean_path_sep tokens_append_sep clean_path_def)

lemma store_paths_apart:
  assumes "clean_path f" and "ss_file_path len b i f = Some p" and "ss_metadata_path len b i f = Some q"
    and "ss_undo_path len b i f = Some r"
  shows "paths_apart p q" and "paths_apart p r" and "paths_apart q r"
proof -
  have m: "clean_path (f @ ''.meta.json'')" and u: "clean_path (f @ ''.undo.json'')"
    using assms(1) by (auto intro!: clean_path_ext)
  note F = clean_under [OF assms(1), of "''files''"] and M = clean_under [OF m, of "''metadata''"]
    and U = clean_under [OF u, of "''undo''"]
  have r: "ss_root b i \<noteq> []" by (simp add: ss_root_def)
  show "paths_apart p q" using apart_below [OF r, of "''files'' @ SLASH # f" "''metadata'' @ SLASH # f @ ''.meta.json''"]
      F M ss_file_path_Some [OF assms(2)] ss_metadata_path_Some [OF assms(3)] by simp
  show "paths_apart p r" using apart_below [OF r, of "''files'' @ SLASH # f" "''undo'' @ SLASH # f @ ''.undo.json''"]
      F U ss_file_path_Some [OF assms(2)] ss_undo_path_Some [OF assms(4)] by simp
  show "paths_apart q r" using apart_below [OF r, of "''metadata'' @ SLASH # f @ ''.meta.json''"
        "''undo'' @ SLASH # f @ ''.undo.json''"]
      M U ss_metadata_path_Some [OF assms(3)] ss_undo_path_Some [OF assms(4)] by simp
qed

end
