(* ===== verification/Text.thy ===== *)
theory Text
  imports C_Strings
begin

text \<open>
  The text routines of \<open>storage_engine.c\<close>: splitting a document into sentences
  (\<open>compute_spans\<close>), counting and splitting words, inserting words at an index
  (\<open>apply_updates\<close>) and joining them again. The growable arrays of the code are lists.
\<close>

section \<open>Return codes\<close>

datatype storage_rc = STORAGE_OK | STORAGE_ERR_NOT_FOUND | STORAGE_ERR_INVALID | STORAGE_ERR_LOCKED
  | STORAGE_ERR_IO | STORAGE_ERR_EXISTS | STORAGE_ERR_NOT_FOLDER | STORAGE_ERR_NO_ACCESS

section \<open>Sentences\<close>

record sentence_span =
  sp_start :: nat
  sp_length :: nat

definition is_delim :: "char \<Rightarrow> bool" where
  "is_delim c = (c = CHR ''.'' \<or> c = CHR ''!'' \<or> c = CHR ''?'')"

definition is_ws :: "char \<Rightarrow> bool" where
  "is_ws c = (c = SP \<or> c = LF \<or> c = CR \<or> c = TAB)"

function skip_ws :: "bytes \<Rightarrow> nat \<Rightarrow> nat" where
  "skip_ws t s = (if s < length t \<and> is_ws (t ! s) then skip_ws t (s + 1) else s)"
  by pat_completeness auto
termination by (relation "measure (\<lambda>(t, s). length t - s)") auto

declare skip_ws.simps [simp del]

lemma skip_ws_ge: "s \<le> skip_ws t s"
  by (induction t s rule: skip_ws.induct) (subst skip_ws.simps, auto)

function spans_loop :: "bytes \<Rightarrow> nat \<Rightarrow> nat \<Rightarrow> sentence_span list" where
  "spans_loop t i start = (if i < length t then
     if is_delim (t ! i) then
       (let e = i + 1; start' = skip_ws t e in
        \<lparr>sp_start = start, sp_length = e - start\<rparr> # spans_loop t start' start')
     else spans_loop t (i + 1) start
   else [])"
  by pat_completeness auto
termination
proof (relation "measure (\<lambda>(t, i, start). length t - i)", goal_cases)
  case (2 t i start x xa)
  then have "i < xa" using skip_ws_ge [of x t] by simp
  with 2 show ?case by simp
qed auto

declare spans_loop.simps [simp del]

definition compute_spans :: "bytes \<Rightarrow> sentence_span list" where
  "compute_spans t = spans_loop t 0 0"

section \<open>Words\<close>

fun count_words_loop :: "bool \<Rightarrow> nat \<Rightarrow> string \<Rightarrow> nat" where
  "count_words_loop in_word count [] = count"
| "count_words_loop in_word count (c # cs) =
     (if is_ws c then count_words_loop False count cs
      else if \<not> in_word then count_words_loop True (count + 1) cs
      else count_words_loop in_word count cs)"

definition count_words :: "bytes \<Rightarrow> nat" where
  "count_words t = count_words_loop False 0 (c_str t)"

definition normalise_inline_whitespace :: "string \<Rightarrow> string" where
  "normalise_inline_whitespace s = map (\<lambda>c. if c = CR \<or> c = LF \<or> c = TAB then SP else c) s"

definition tokenize_words :: "bytes \<Rightarrow> string list" where
  "tokenize_words sentence =
     filter (\<lambda>tok. tok \<noteq> []) (tokens (\<lambda>c. c = SP) (normalise_inline_whitespace (c_str sentence)))"

record storage_word_update =
  wu_index :: nat
  wu_text :: "string option"

fun apply_updates :: "string list \<Rightarrow> storage_word_update list \<Rightarrow> storage_rc + string list" where
  "apply_updates words [] = Inr words"
| "apply_updates words (upd # updates) = (case wu_text upd of
     None \<Rightarrow> Inl STORAGE_ERR_INVALID
   | Some text \<Rightarrow>
       if length words < wu_index upd then Inl STORAGE_ERR_INVALID
       else let new_tokens = tokenize_words text in
         if new_tokens = [] then apply_updates words updates
         else apply_updates (take (wu_index upd) words @ new_tokens @ drop (wu_index upd) words) updates)"

fun join_words :: "string list \<Rightarrow> string" where
  "join_words [] = []"
| "join_words [w] = w"
| "join_words (w # ws) = w @ SP # join_words ws"

section \<open>What the sentence spans are\<close>

definition span_text :: "bytes \<Rightarrow> sentence_span \<Rightarrow> bytes" where
  "span_text t s = take (sp_length s) (drop (sp_start s) t)"

definition is_sentence :: "bytes \<Rightarrow> bool" where
  "is_sentence s \<longleftrightarrow> s \<noteq> [] \<and> is_delim (last s) \<and> list_all (\<lambda>c. \<not> is_delim c) (butlast s)"

lemma ws_not_delim: "is_ws c \<Longrightarrow> \<not> is_delim c"
  by (auto simp: is_ws_def is_delim_def)

lemma skip_ws_dropWhile: "drop (skip_ws t s) t = dropWhile is_ws (drop s t)"
proof (induction t s rule: skip_ws.induct)
  case (1 t s)
  show ?case
  proof (cases "s < length t")
    case True
    then have "drop s t = t ! s # drop (Suc s) t" by (rule Cons_nth_drop_Suc [symmetric])
    with True 1 show ?thesis by (subst skip_ws.simps) auto
  qed (subst skip_ws.simps, simp)
qed

lemma skip_ws_bound: "s \<le> length t \<Longrightarrow> skip_ws t s \<le> length t"
  by (induction t s rule: skip_ws.induct) (subst skip_ws.simps, auto)

lemma spans_loop_step:
  "i < length t \<Longrightarrow> \<not> is_delim (t ! i) \<Longrightarrow> spans_loop t i start = spans_loop t (i + 1) start"
  "i < length t \<Longrightarrow> is_delim (t ! i) \<Longrightarrow> spans_loop t i start =
     \<lparr>sp_start = start, sp_length = i + 1 - start\<rparr> # spans_loop t (skip_ws t (i + 1)) (skip_ws t (i + 1))"
  "\<not> i < length t \<Longrightarrow> spans_loop t i start = []"
  by (subst spans_loop.simps, simp add: Let_def)+

lemma length_spans_loop: "length (spans_loop t i start) = length (filter is_delim (drop i t))"
proof (induction t i start rule: spans_loop.induct)
  case (1 t i start)
  show ?case
  proof (cases "i < length t")
    case True
    then have d: "drop i t = t ! i # drop (Suc i) t" by (rule Cons_nth_drop_Suc [symmetric])
    have "filter is_delim (dropWhile is_ws u) = filter is_delim u" for u
      by (induction u) (auto simp: ws_not_delim)
    with True 1 d show ?thesis
      by (cases "is_delim (t ! i)") (auto simp: spans_loop_step skip_ws_dropWhile)
  qed (simp add: spans_loop_step)
qed

definition tiles :: "bytes \<Rightarrow> bytes list \<Rightarrow> bytes list \<Rightarrow> bytes \<Rightarrow> bool" where
  "tiles t ss gaps rest \<longleftrightarrow> length gaps = length ss \<and> t = concat (map2 (@) ss gaps) @ rest
     \<and> list_all (list_all is_ws) gaps \<and> list_all is_sentence ss \<and> list_all (\<lambda>c. \<not> is_delim c) rest"

lemma tiles_Cons:
  "tiles t ss gaps rest \<Longrightarrow> is_sentence s \<Longrightarrow> list_all is_ws g \<Longrightarrow> tiles (s @ g @ t) (s # ss) (g # gaps) rest"
  by (simp add: tiles_def)

lemma spans_loop_tiles:
  assumes "start \<le> i" and "i \<le> length t" and "\<forall>k. start \<le> k \<and> k < i \<longrightarrow> \<not> is_delim (t ! k)"
  shows "\<exists>gaps rest. tiles (drop start t) (map (span_text t) (spans_loop t i start)) gaps rest"
  using assms
proof (induction t i start rule: spans_loop.induct)
  case (1 t i start)
  show ?case
  proof (cases "i < length t")
    case False
    with "1.prems" have "list_all (\<lambda>c. \<not> is_delim c) (drop start t)"
      by (auto simp: list_all_length)
    then show ?thesis using False
      by (intro exI [of _ "[]"] exI [of _ "drop start t"]) (simp add: spans_loop_step tiles_def)
  next
    case i: True
    show ?thesis
    proof (cases "is_delim (t ! i)")
      case False
      with 1 i show ?thesis by (auto simp: spans_loop_step less_Suc_eq)
    next
      case True
      let ?n = "skip_ws t (i + 1)"
      let ?s = "take (i + 1 - start) (drop start t)"
      let ?g = "takeWhile is_ws (drop (i + 1) t)"
      from skip_ws_bound [of "i + 1" t] i have "?n \<le> length t" by simp
      moreover have "\<forall>k. ?n \<le> k \<and> k < ?n \<longrightarrow> \<not> is_delim (t ! k)" by auto
      ultimately obtain gaps rest
        where IH: "tiles (drop ?n t) (map (span_text t) (spans_loop t ?n ?n)) gaps rest"
        using "1.IH"(1) [OF i True refl refl] by blast
      have s: "?s = take (i - start) (drop start t) @ [t ! i]"
        using "1.prems" i by (simp add: Suc_diff_le take_Suc_conv_app_nth)
      have "is_sentence ?s"
        unfolding is_sentence_def s using "1.prems" i True by (auto simp: list_all_length)
      moreover have "list_all is_ws ?g" by (auto simp: list_all_iff dest: set_takeWhileD)
      moreover have "drop start t = ?s @ ?g @ drop ?n t"
      proof -
        have "drop (i + 1) t = ?g @ drop ?n t" by (simp add: skip_ws_dropWhile)
        moreover have "drop start t = ?s @ drop (i + 1) t"
          using append_take_drop_id [of "i + 1 - start" "drop start t"] "1.prems" by simp
        ultimately show ?thesis by simp
      qed
      ultimately have "tiles (drop start t) (?s # map (span_text t) (spans_loop t ?n ?n)) (?g # gaps) rest"
        using tiles_Cons [OF IH] by metis
      moreover have "map (span_text t) (spans_loop t i start) = ?s # map (span_text t) (spans_loop t ?n ?n)"
        by (simp add: spans_loop_step(2) [OF i True] span_text_def)
      ultimately show ?thesis by metis
    qed
  qed
qed

text \<open>The starts and lengths themselves: in bounds, ordered and apart.\<close>

definition spans_from :: "nat \<Rightarrow> nat \<Rightarrow> sentence_span list \<Rightarrow> bool" where
  "spans_from lo hi ss \<longleftrightarrow> sorted_wrt (\<lambda>a b. sp_start a + sp_length a \<le> sp_start b) ss
     \<and> list_all (\<lambda>s. lo \<le> sp_start s \<and> 0 < sp_length s \<and> sp_start s + sp_length s \<le> hi) ss"

lemma spans_loop_bounds: "start \<le> i \<Longrightarrow> spans_from start (length t) (spans_loop t i start)"
proof (induction t i start rule: spans_loop.induct)
  case (1 t i start)
  have le: "i + 1 \<le> skip_ws t (i + 1)" by (rule skip_ws_ge)
  have *: "spans_from (skip_ws t (i + 1)) (length t) ss \<Longrightarrow> i < length t \<Longrightarrow>
      spans_from start (length t) (\<lparr>sp_start = start, sp_length = i + 1 - start\<rparr> # ss)" for ss
    using "1.prems" le by (fastforce simp: spans_from_def list_all_iff)
  show ?case
  proof (cases "i < length t")
    case True
    with 1 * show ?thesis by (cases "is_delim (t ! i)") (auto simp: spans_loop_step)
  qed (simp add: spans_loop_step spans_from_def)
qed

lemma compute_spans_bounds: "spans_from 0 (length t) (compute_spans t)"
  by (simp add: compute_spans_def spans_loop_bounds)

lemma compute_spans_Nil [simp]: "compute_spans [] = []"
  by (simp add: compute_spans_def spans_loop_step)

lemma compute_spans_nth:
  assumes "k < length (compute_spans t)"
  shows "sp_start (compute_spans t ! k) + sp_length (compute_spans t ! k) \<le> length t"
  using compute_spans_bounds [of t] assms by (auto simp: spans_from_def list_all_length)

section \<open>Words: counting, splitting, joining\<close>

lemma tokens_map: "tokens d (map f s) = map (map f) (tokens (d \<circ> f) s)"
proof (induction "d \<circ> f" s rule: tokens.induct)
  case (1 s)
  show ?case
  proof (cases "dropWhile (d \<circ> f) s = []")
    case True
    then show ?thesis by (simp add: tokens_none dropWhile_map del: dropWhile_eq_Nil_conv)
  next
    case False
    with "1.hyps" [OF refl False] show ?thesis
      by (simp add: tokens_some dropWhile_map takeWhile_map comp_def del: dropWhile_eq_Nil_conv)
  qed
qed

lemma tokenize_words_tokens: "tokenize_words s = tokens is_ws (c_str s)"
proof -
  let ?f = "\<lambda>c. if c = CR \<or> c = LF \<or> c = TAB then SP else c"
  have "(\<lambda>c. c = SP) \<circ> ?f = is_ws" by (rule ext) (auto simp: is_ws_def)
  then have t: "tokens (\<lambda>c. c = SP) (normalise_inline_whitespace (c_str s))
      = map (map ?f) (tokens is_ws (c_str s))"
    by (simp only: normalise_inline_whitespace_def tokens_map)
  have "map ?f w = w" if "w \<in> set (tokens is_ws (c_str s))" for w
    using tokens_nonempty [OF that] by (intro map_idI) (auto simp: is_ws_def)
  then have "map (map ?f) (tokens is_ws (c_str s)) = tokens is_ws (c_str s)" by (rule map_idI)
  moreover have "filter (\<lambda>tok. tok \<noteq> []) (tokens is_ws (c_str s)) = tokens is_ws (c_str s)"
    using tokens_nonempty by (intro filter_True) blast
  ultimately show ?thesis by (simp only: tokenize_words_def t)
qed

lemma count_words_loop_tokens:
  "count_words_loop b n s = n + length (tokens is_ws (if b then dropWhile (\<lambda>c. \<not> is_ws c) s else s))"
proof (induction s arbitrary: b n)
  case (Cons c s)
  then show ?case by (cases b; cases "is_ws c") (simp_all add: tokens_skip tokens_word)
qed simp

lemma count_words_tokens: "count_words t = length (tokenize_words t)"
  by (simp add: count_words_def count_words_loop_tokens tokenize_words_tokens)

definition is_word :: "string \<Rightarrow> bool" where
  "is_word w \<longleftrightarrow> w \<noteq> [] \<and> list_all (\<lambda>c. \<not> is_ws c \<and> c \<noteq> NUL) w"

lemma tokenize_words_words: "list_all is_word (tokenize_words s)"
proof -
  have "is_word w" if "w \<in> set (tokens is_ws (c_str s))" for w
  proof -
    have "set w \<subseteq> set (concat (tokens is_ws (c_str s)))" using that by auto
    also have "\<dots> \<subseteq> set (c_str s)" by (simp add: concat_tokens)
    finally show ?thesis using tokens_nonempty [OF that] c_str_no_NUL [of s]
      by (auto simp: is_word_def list_all_iff)
  qed
  then show ?thesis by (auto simp: tokenize_words_tokens list_all_iff)
qed

lemma join_words_no_NUL: "list_all is_word ws \<Longrightarrow> NUL \<notin> set (join_words ws)"
  by (induction ws rule: join_words.induct) (auto simp: is_word_def list_all_iff)

lemma tokens_join_words: "list_all is_word ws \<Longrightarrow> tokens is_ws (join_words ws) = ws"
proof (induction ws rule: join_words.induct)
  case (2 w)
  then show ?case by (simp add: is_word_def list_all_iff tokens_single)
next
  case (3 w v ws)
  have "is_ws SP" by (simp add: is_ws_def)
  with 3 show ?case by (simp add: is_word_def list_all_iff tokens_word_sep)
qed simp

lemma tokenize_join: "list_all is_word ws \<Longrightarrow> tokenize_words (join_words ws) = ws"
  by (simp add: tokenize_words_tokens c_str_id join_words_no_NUL tokens_join_words)

section \<open>Inserting words\<close>

lemma subseq_insert: "subseq ws (take i ws @ ts @ drop i ws)"
  by (metis append_take_drop_id list_emb_append_mono subseq_append_le_same_iff list_emb_append2 subseq_order.refl)

lemma apply_updates_words:
  "apply_updates ws us = Inr ws' \<Longrightarrow> list_all is_word ws \<Longrightarrow> list_all is_word ws'"
proof (induction ws us rule: apply_updates.induct)
  case (2 ws u us)
  then obtain t where t: "wu_text u = Some t" and l: "wu_index u \<le> length ws"
    by (auto split: option.splits if_splits)
  have "list_all is_word (take (wu_index u) ws @ tokenize_words t @ drop (wu_index u) ws)"
    using "2.prems"(2) tokenize_words_words [of t]
    by (auto simp: list_all_iff dest: in_set_takeD in_set_dropD)
  with 2 t l show ?case by (auto simp: Let_def split: if_splits)
qed simp

lemma apply_updates_subseq: "apply_updates ws us = Inr ws' \<Longrightarrow> subseq ws ws'"
proof (induction ws us rule: apply_updates.induct)
  case (2 ws u us)
  then obtain t where t: "wu_text u = Some t" and l: "wu_index u \<le> length ws"
    by (auto split: option.splits if_splits)
  with 2 show ?case
    using subseq_insert [of ws "wu_index u" "tokenize_words t"]
    by (auto simp: Let_def split: if_splits intro: subseq_order.trans)
qed simp

lemma apply_updates_length:
  "apply_updates ws us = Inr ws' \<Longrightarrow>
     length ws' = length ws + sum_list (map (\<lambda>u. count_words (the (wu_text u))) us)"
proof (induction ws us rule: apply_updates.induct)
  case (2 ws u us)
  then obtain t where t: "wu_text u = Some t" and l: "wu_index u \<le> length ws"
    by (auto split: option.splits if_splits)
  with 2 show ?case by (auto simp: Let_def count_words_tokens split: if_splits)
qed simp

lemma apply_updates_error: "apply_updates ws us = Inl e \<Longrightarrow> e = STORAGE_ERR_INVALID"
  by (induction ws us rule: apply_updates.induct)
    (auto simp: Let_def split: option.splits if_splits)

end
