(* ===== verification/Storage_File.thy ===== *)
theory Storage_File
  imports Disk Text
begin

text \<open>
  The in-memory file of the storage engine (\<open>storage_file_t\<close> of \<open>storage_engine.c\<close>), the
  engine record and the static helpers that compute on one file: sentence-lock capacity,
  derived metadata, the metadata file format, loading and persisting. The public operations
  are in \<open>Storage_Engine\<close>. The clock is an argument \<open>now\<close>.
\<close>

section \<open>State\<close>

record sentence_lock =
  sl_held :: bool
  sl_locked :: bool

record storage_file =
  sf_filename :: string
  sf_owner :: string
  sf_content :: bytes
  sf_undo_snapshot :: "bytes option"
  sf_undo_token :: string
  sf_created_at :: time_t
  sf_modified_at :: time_t
  sf_last_accessed :: time_t
  sf_last_accessed_by :: string
  sf_word_count :: nat
  sf_char_count :: nat
  sf_sentence_count :: nat
  sf_locks :: "sentence_lock list"

record storage_engine =
  se_root_path :: string
  se_ss_id :: string
  se_files :: "storage_file list"
  se_file_capacity :: nat
  se_undo_seq :: u64

definition is_valid_checkpoint_tag :: "string \<Rightarrow> bool" where
  "is_valid_checkpoint_tag tag = (tag \<noteq> [] \<and> list_all (\<lambda>c. let p = (of_char c :: nat) in
     97 \<le> p \<and> p \<le> 122 \<or> 65 \<le> p \<and> p \<le> 90 \<or> 48 \<le> p \<and> p \<le> 57 \<or> c = CHR ''-'' \<or> c = CHR ''_'') tag)"

text \<open>The value part of a field in a metadata file: after the first colon behind the key.\<close>

definition meta_value :: "string \<Rightarrow> string \<Rightarrow> string option" where
  "meta_value json key = (case strstr json key of None \<Rightarrow> None
     | Some p \<Rightarrow> (case strchr p (CHR '':'') of None \<Rightarrow> None | Some q \<Rightarrow> Some (tl q)))"

definition meta_string :: "string \<Rightarrow> string \<Rightarrow> nat \<Rightarrow> string \<Rightarrow> string" where
  "meta_string json key sz old = (case meta_value json key of None \<Rightarrow> old
     | Some p \<Rightarrow> fit sz (takeWhile (\<lambda>c. c \<noteq> DQ) (dropWhile (\<lambda>c. c = SP \<or> c = DQ) p)))"

definition read_folder_owner_meta :: "fs \<Rightarrow> string \<Rightarrow> nat \<Rightarrow> string" where
  \<open>read_folder_owner_meta d folder_path owner_len =
     (let meta_path = folder_path @ ''/.folder_meta'' in
      if PATH_MAX + 32 \<le> length meta_path then []
      else case read_file_if_exists d meta_path of
        None \<Rightarrow> []
      | Some meta \<Rightarrow> if meta = [] then []
          else meta_string (c_str meta) ''"owner"'' owner_len [])\<close>

section \<open>Locks and derived metadata\<close>

function grow_capacity :: "nat \<Rightarrow> nat \<Rightarrow> nat" where
  "grow_capacity cap desired = (if 0 < cap \<and> cap < desired then grow_capacity (cap * 2) desired else cap)"
  by pat_completeness auto
termination by (relation "measure (\<lambda>(cap, desired). desired - cap)") auto

declare grow_capacity.simps [simp del]

definition ensure_sentence_capacity :: "storage_file \<Rightarrow> nat \<Rightarrow> storage_file" where
  "ensure_sentence_capacity f desired = (if desired \<le> length (sf_locks f) then f
     else let cap = length (sf_locks f);
              new_capacity = grow_capacity (if cap \<noteq> 0 then cap else 4) desired in
       f\<lparr>sf_locks := sf_locks f @ replicate (new_capacity - cap) \<lparr>sl_held = False, sl_locked = False\<rparr>\<rparr>)"

definition allocate_file :: "string \<Rightarrow> string option \<Rightarrow> storage_file" where
  "allocate_file filename owner = \<lparr>sf_filename = fit 256 filename,
     sf_owner = (case owner of Some u \<Rightarrow> fit 128 u | None \<Rightarrow> ''unknown''),
     sf_content = [], sf_undo_snapshot = None, sf_undo_token = [],
     sf_created_at = 0, sf_modified_at = 0, sf_last_accessed = 0, sf_last_accessed_by = [],
     sf_word_count = 0, sf_char_count = 0, sf_sentence_count = 0, sf_locks = []\<rparr>"

definition update_metadata_from_content :: "storage_file \<Rightarrow> storage_file" where
  "update_metadata_from_content f = (let span_count = length (compute_spans (sf_content f)) in
     ensure_sentence_capacity
       (f\<lparr>sf_char_count := length (sf_content f), sf_word_count := count_words (sf_content f),
          sf_sentence_count := span_count\<rparr>) span_count)"

section \<open>Paths and directories of a store\<close>

definition build_paths :: "storage_engine \<Rightarrow> string \<Rightarrow> nat \<Rightarrow> (string \<times> string \<times> string) option" where
  "build_paths e filename len = (case ss_file_path len (se_root_path e) (se_ss_id e) filename of
     None \<Rightarrow> None | Some file_path \<Rightarrow>
     (case ss_metadata_path len (se_root_path e) (se_ss_id e) filename of
       None \<Rightarrow> None | Some metadata_path \<Rightarrow>
       (case ss_undo_path len (se_root_path e) (se_ss_id e) filename of
         None \<Rightarrow> None | Some undo_path \<Rightarrow> Some (file_path, metadata_path, undo_path))))"

fun ensure_subdirs :: "io \<Rightarrow> fs \<Rightarrow> string \<Rightarrow> string list \<Rightarrow> bool \<times> fs" where
  "ensure_subdirs w d root [] = (True, d)"
| "ensure_subdirs w d root (sub # subs) = (let path = root @ ''/'' @ sub in
     if PATH_MAX \<le> length path then (False, d)
     else let (ok, d') = ensure_dir w d path in
       if ok then ensure_subdirs w d' root subs else (False, d'))"

definition ensure_engine_dirs :: "io \<Rightarrow> fs \<Rightarrow> storage_engine \<Rightarrow> bool \<times> fs" where
  "ensure_engine_dirs w d e = (case ss_root_path PATH_MAX (se_root_path e) (se_ss_id e) of
     None \<Rightarrow> (False, d)
   | Some root \<Rightarrow> (let (ok, d') = ensure_dir w d root in
       if \<not> ok then (False, d')
       else ensure_subdirs w d' root [''files'', ''metadata'', ''undo'', ''logs'', ''checkpoints'']))"

section \<open>Persisting\<close>

definition metadata_json :: "storage_file \<Rightarrow> string" where
  \<open>metadata_json f =
     ''{"filename":"'' @ sf_filename f @ ''","owner":"'' @ sf_owner f @
     ''","word_count":'' @ show_nat (sf_word_count f) @
     '',"char_count":'' @ show_nat (sf_char_count f) @
     '',"sentence_count":'' @ show_nat (sf_sentence_count f) @
     '',"created_at":'' @ show_int (sf_created_at f) @
     '',"modified_at":'' @ show_int (sf_modified_at f) @
     '',"last_accessed":'' @ show_int (sf_last_accessed f) @
     '',"last_accessed_by":"'' @ sf_last_accessed_by f @
     ''","undo_token":"'' @ sf_undo_token f @ ''"}''\<close>

definition persist_metadata :: "io \<Rightarrow> fs \<Rightarrow> storage_engine \<Rightarrow> storage_file \<Rightarrow> bool \<times> fs" where
  "persist_metadata w d e f = (case build_paths e (sf_filename f) PATH_MAX of
     None \<Rightarrow> (False, d)
   | Some (_, meta_path, _) \<Rightarrow>
       if 512 \<le> length (metadata_json f) then (False, d)
       else atomic_write w d meta_path (metadata_json f))"

definition persist_content :: "io \<Rightarrow> fs \<Rightarrow> storage_engine \<Rightarrow> storage_file \<Rightarrow> bool \<times> fs" where
  "persist_content w d e f = (case build_paths e (sf_filename f) PATH_MAX of
     None \<Rightarrow> (False, d)
   | Some (file_path, _, _) \<Rightarrow> atomic_write w d file_path (sf_content f))"

definition persist_undo :: "io \<Rightarrow> fs \<Rightarrow> storage_engine \<Rightarrow> storage_file \<Rightarrow> bool \<times> fs" where
  "persist_undo w d e f = (case build_paths e (sf_filename f) PATH_MAX of
     None \<Rightarrow> (False, d)
   | Some (_, _, undo_path) \<Rightarrow> (case sf_undo_snapshot f of
       None \<Rightarrow> (True, sys_unlink d undo_path)
     | Some snapshot \<Rightarrow> atomic_write w d undo_path snapshot))"

definition generate_undo_token :: "storage_engine \<Rightarrow> storage_file \<Rightarrow> storage_engine \<times> storage_file" where
  "generate_undo_token e f = (let seq = se_undo_seq e + 1 in
     (e\<lparr>se_undo_seq := seq\<rparr>, f\<lparr>sf_undo_token := fit 64 (''undo-'' @ show_nat_pad6 (unat seq))\<rparr>))"

section \<open>Loading\<close>

fun find_file_from :: "nat \<Rightarrow> storage_file list \<Rightarrow> string \<Rightarrow> nat option" where
  "find_file_from i [] filename = None"
| "find_file_from i (f # fs) filename =
     (if sf_filename f = filename then Some i else find_file_from (i + 1) fs filename)"

definition find_file_locked :: "storage_engine \<Rightarrow> string \<Rightarrow> nat option" where
  "find_file_locked e filename = find_file_from 0 (se_files e) filename"

definition meta_count :: "string \<Rightarrow> string \<Rightarrow> nat \<Rightarrow> nat" where
  "meta_count json key old = (case meta_value json key of None \<Rightarrow> old | Some p \<Rightarrow> fst (strtoul p))"

definition meta_time :: "string \<Rightarrow> string \<Rightarrow> time_t \<Rightarrow> time_t" where
  "meta_time json key old = (case meta_value json key of None \<Rightarrow> old | Some p \<Rightarrow> strtoll p)"

definition load_metadata :: "time_t \<Rightarrow> storage_file \<Rightarrow> string option \<Rightarrow> storage_file" where
  \<open>load_metadata now f meta = (case meta of
     None \<Rightarrow> f\<lparr>sf_created_at := now, sf_modified_at := now, sf_last_accessed := 0\<rparr>
   | Some json \<Rightarrow> f\<lparr>
       sf_owner := meta_string json ''"owner"'' 128 (sf_owner f),
       sf_word_count := meta_count json ''word_count'' (sf_word_count f),
       sf_char_count := meta_count json ''char_count'' (sf_char_count f),
       sf_sentence_count := meta_count json ''sentence_count'' (sf_sentence_count f),
       sf_created_at := meta_time json ''created_at'' (sf_created_at f),
       sf_modified_at := meta_time json ''modified_at'' (sf_modified_at f),
       sf_last_accessed := meta_time json ''last_accessed'' (sf_last_accessed f),
       sf_undo_token := meta_string json ''undo_token'' 64 (sf_undo_token f),
       sf_last_accessed_by := meta_string json ''last_accessed_by'' 128 (sf_last_accessed_by f)\<rparr>)\<close>

definition load_file_from_disk :: "time_t \<Rightarrow> fs \<Rightarrow> storage_engine \<Rightarrow> storage_file \<Rightarrow> storage_file option" where
  "load_file_from_disk now d e f = (case build_paths e (sf_filename f) PATH_MAX of
     None \<Rightarrow> None
   | Some (file_path, meta_path, undo_path) \<Rightarrow>
       (let content = (case read_file_if_exists d file_path of Some b \<Rightarrow> b | None \<Rightarrow> []);
            f1 = load_metadata now (f\<lparr>sf_content := content\<rparr>)
                   (map_option c_str (read_file_if_exists d meta_path));
            f2 = f1\<lparr>sf_undo_snapshot := read_file_if_exists d undo_path\<rparr>
        in Some (update_metadata_from_content f2)))"

definition get_or_load_file :: "time_t \<Rightarrow> fs \<Rightarrow> storage_engine \<Rightarrow> string \<Rightarrow> string option
    \<Rightarrow> (storage_engine \<times> nat) option" where
  "get_or_load_file now d e filename owner_hint = (case find_file_locked e filename of
     Some i \<Rightarrow> Some (e, i)
   | None \<Rightarrow> (case load_file_from_disk now d e (allocate_file filename owner_hint) of
       None \<Rightarrow> None
     | Some f \<Rightarrow>
         (let n = length (se_files e);
              cap = (if n = se_file_capacity e
                     then if se_file_capacity e \<noteq> 0 then se_file_capacity e * 2 else 4
                     else se_file_capacity e)
          in Some (e\<lparr>se_files := se_files e @ [f], se_file_capacity := cap\<rparr>, n))))"

definition write_new_content :: "storage_engine \<Rightarrow> storage_file \<Rightarrow> sentence_span \<Rightarrow> bytes
    \<Rightarrow> storage_engine \<times> storage_file" where
  "write_new_content e f span replacement =
     (let prefix_len = sp_start span;
          suffix_offset = sp_start span + sp_length span;
          new_content = take prefix_len (sf_content f) @ replacement @ drop suffix_offset (sf_content f)
      in generate_undo_token e (f\<lparr>sf_undo_snapshot := Some (sf_content f), sf_content := new_content\<rparr>))"

section \<open>Well-formed files\<close>

definition meta_ok :: "storage_file \<Rightarrow> bool" where
  "meta_ok f \<longleftrightarrow> sf_char_count f = length (sf_content f) \<and> sf_word_count f = count_words (sf_content f)
     \<and> sf_sentence_count f = length (compute_spans (sf_content f))
     \<and> sf_sentence_count f \<le> length (sf_locks f)"

definition locks_free :: "storage_file \<Rightarrow> bool" where
  "locks_free f \<longleftrightarrow> list_all (\<lambda>l. \<not> sl_held l) (sf_locks f)"

definition names_fit :: "storage_file \<Rightarrow> bool" where
  "names_fit f \<longleftrightarrow> length (sf_filename f) < 256 \<and> length (sf_owner f) < 128
     \<and> length (sf_undo_token f) < 64 \<and> length (sf_last_accessed_by f) < 128"

definition file_ok :: "storage_file \<Rightarrow> bool" where
  "file_ok f \<longleftrightarrow> meta_ok f \<and> locks_free f \<and> names_fit f"

definition engine_ok :: "storage_engine \<Rightarrow> bool" where
  "engine_ok e \<longleftrightarrow> list_all file_ok (se_files e) \<and> length (se_files e) \<le> se_file_capacity e"

lemma grow_capacity_ge: "0 < cap \<Longrightarrow> desired \<le> grow_capacity cap desired \<and> cap \<le> grow_capacity cap desired"
  by (induction cap desired rule: grow_capacity.induct) (subst (1 2) grow_capacity.simps, auto)

lemma ensure_capacity_length: "desired \<le> length (sf_locks (ensure_sentence_capacity f desired))
    \<and> length (sf_locks f) \<le> length (sf_locks (ensure_sentence_capacity f desired))"
  using grow_capacity_ge [of "if length (sf_locks f) \<noteq> 0 then length (sf_locks f) else 4" desired]
  by (auto simp: ensure_sentence_capacity_def Let_def)

lemma ensure_capacity_simps [engine_simps]:
  "sf_filename (ensure_sentence_capacity f n) = sf_filename f"
  "sf_owner (ensure_sentence_capacity f n) = sf_owner f"
  "sf_content (ensure_sentence_capacity f n) = sf_content f"
  "sf_undo_snapshot (ensure_sentence_capacity f n) = sf_undo_snapshot f"
  "sf_undo_token (ensure_sentence_capacity f n) = sf_undo_token f"
  "sf_created_at (ensure_sentence_capacity f n) = sf_created_at f"
  "sf_modified_at (ensure_sentence_capacity f n) = sf_modified_at f"
  "sf_last_accessed (ensure_sentence_capacity f n) = sf_last_accessed f"
  "sf_last_accessed_by (ensure_sentence_capacity f n) = sf_last_accessed_by f"
  "sf_word_count (ensure_sentence_capacity f n) = sf_word_count f"
  "sf_char_count (ensure_sentence_capacity f n) = sf_char_count f"
  "sf_sentence_count (ensure_sentence_capacity f n) = sf_sentence_count f"
  by (simp_all add: ensure_sentence_capacity_def Let_def)

lemma locks_free_capacity: "locks_free f \<Longrightarrow> locks_free (ensure_sentence_capacity f n)"
  by (auto simp: locks_free_def ensure_sentence_capacity_def Let_def list_all_iff)

lemma names_fit_capacity: "names_fit (ensure_sentence_capacity f n) = names_fit f"
  by (simp add: names_fit_def engine_simps)

lemma update_metadata_simps [engine_simps]:
  "sf_filename (update_metadata_from_content f) = sf_filename f"
  "sf_owner (update_metadata_from_content f) = sf_owner f"
  "sf_content (update_metadata_from_content f) = sf_content f"
  "sf_undo_snapshot (update_metadata_from_content f) = sf_undo_snapshot f"
  "sf_undo_token (update_metadata_from_content f) = sf_undo_token f"
  "sf_created_at (update_metadata_from_content f) = sf_created_at f"
  "sf_modified_at (update_metadata_from_content f) = sf_modified_at f"
  "sf_last_accessed (update_metadata_from_content f) = sf_last_accessed f"
  "sf_last_accessed_by (update_metadata_from_content f) = sf_last_accessed_by f"
  by (simp_all add: update_metadata_from_content_def Let_def engine_simps)

lemma update_metadata_locks_length:
  "length (sf_locks f) \<le> length (sf_locks (update_metadata_from_content f))"
  using ensure_capacity_length [of _ "f\<lparr>sf_char_count := _, sf_word_count := _, sf_sentence_count := _\<rparr>"]
  by (simp add: update_metadata_from_content_def Let_def)

lemma update_metadata_ok: "meta_ok (update_metadata_from_content f)"
  using ensure_capacity_length
  by (auto simp: meta_ok_def update_metadata_from_content_def Let_def engine_simps)

lemma locks_free_update: "locks_free f \<Longrightarrow> locks_free (update_metadata_from_content f)"
  unfolding update_metadata_from_content_def Let_def
  by (rule locks_free_capacity) (simp add: locks_free_def)

lemma names_fit_update: "names_fit (update_metadata_from_content f) = names_fit f"
  by (simp add: names_fit_def engine_simps)

lemma file_ok_update: "locks_free f \<Longrightarrow> names_fit f \<Longrightarrow> file_ok (update_metadata_from_content f)"
  by (simp add: file_ok_def update_metadata_ok locks_free_update names_fit_update)

lemma allocate_file_simps [simp]:
  "sf_filename (allocate_file n h) = fit 256 n" "sf_content (allocate_file n h) = []"
  "sf_undo_snapshot (allocate_file n h) = None" "sf_locks (allocate_file n h) = []"
  by (simp_all add: allocate_file_def)

lemma names_fit_allocate: "names_fit (allocate_file n h)"
  by (auto simp: names_fit_def allocate_file_def length_fit split: option.splits)

lemma length_meta_string: "length old < sz \<Longrightarrow> length (meta_string j k sz old) < sz"
  by (auto simp: meta_string_def length_fit split: option.splits)

lemma load_metadata_simps [engine_simps]:
  "sf_filename (load_metadata now f j) = sf_filename f"
  "sf_content (load_metadata now f j) = sf_content f"
  "sf_locks (load_metadata now f j) = sf_locks f"
  by (auto simp: load_metadata_def split: option.splits)

lemma names_fit_load: "names_fit f \<Longrightarrow> names_fit (load_metadata now f j)"
  by (auto simp: names_fit_def load_metadata_def length_meta_string split: option.splits)

lemma load_file_ok:
  assumes "load_file_from_disk now d e f = Some g" and "names_fit f" and "sf_locks f = []"
  shows "file_ok g \<and> sf_filename g = sf_filename f"
  using assms names_fit_load [of "f\<lparr>sf_content := _\<rparr>" now]
  by (auto simp: load_file_from_disk_def Let_def engine_simps locks_free_def names_fit_def
      split: option.splits intro!: file_ok_update)

end
