(* ===== verification/Storage_Engine.thy ===== *)
theory Storage_Engine
  imports Storage_File
begin

text \<open>
  The public operations of \<open>storage_engine.c\<close>. An operation takes the engine and the file
  system and returns its return code with both updated, and its output where it has one. The
  per-engine and per-file mutexes make each operation atomic; the per-sentence mutexes are
  part of the state, because \<open>storage_engine_write\<close> leaves their \<open>locked\<close> flags behind.
\<close>

definition upd_file :: "nat \<Rightarrow> storage_file \<Rightarrow> storage_engine \<Rightarrow> storage_engine" where
  "upd_file i f e = e\<lparr>se_files := (se_files e)[i := f]\<rparr>"

section \<open>Creating the engine\<close>

definition storage_engine_init :: "io \<Rightarrow> fs \<Rightarrow> string \<Rightarrow> string \<Rightarrow> storage_engine option \<times> fs" where
  "storage_engine_init w d base_dir ss_id =
     (let e = \<lparr>se_root_path = fit PATH_MAX base_dir, se_ss_id = fit 128 ss_id, se_files = [],
               se_file_capacity = 0, se_undo_seq = 0\<rparr>;
          (ok, d') = ensure_engine_dirs w d e
      in (if ok then Some e else None, d'))"

section \<open>Create, delete, read\<close>

definition storage_engine_create_file :: "io \<Rightarrow> time_t \<Rightarrow> fs \<Rightarrow> storage_engine \<Rightarrow> string \<Rightarrow> string
    \<Rightarrow> storage_rc \<times> fs \<times> storage_engine" where
  "storage_engine_create_file w now d e filename owner =
     (case get_or_load_file now d e filename (Some owner) of
        None \<Rightarrow> (STORAGE_ERR_IO, d, e)
      | Some (e1, i) \<Rightarrow>
          (let f = se_files e1 ! i in
           if 0 < length (sf_content f) then (STORAGE_ERR_INVALID, d, e1)
           else
             (let f1 = update_metadata_from_content
                    (f\<lparr>sf_created_at := now, sf_modified_at := now, sf_last_accessed := now,
                       sf_owner := fit 128 owner\<rparr>);
                  e2 = upd_file i f1 e1;
                  (ok, d1) = persist_content w d e2 f1
              in if \<not> ok then (STORAGE_ERR_IO, d1, e2)
                 else let (ok', d2) = persist_metadata w d1 e2 f1 in
                   if \<not> ok' then (STORAGE_ERR_IO, d2, e2) else (STORAGE_OK, d2, e2))))"

definition storage_engine_delete_file :: "fs \<Rightarrow> storage_engine \<Rightarrow> string
    \<Rightarrow> storage_rc \<times> fs \<times> storage_engine" where
  "storage_engine_delete_file d e filename = (case find_file_locked e filename of
     None \<Rightarrow> (STORAGE_ERR_NOT_FOUND, d, e)
   | Some i \<Rightarrow>
       (let e1 = e\<lparr>se_files := take i (se_files e) @ drop (i + 1) (se_files e)\<rparr>;
            d1 = (case build_paths e filename PATH_MAX of
                    None \<Rightarrow> d
                  | Some (file_path, meta_path, undo_path) \<Rightarrow>
                      sys_unlink (sys_unlink (sys_unlink d file_path) meta_path) undo_path)
        in (STORAGE_OK, d1, e1)))"

definition storage_engine_read :: "io \<Rightarrow> time_t \<Rightarrow> fs \<Rightarrow> storage_engine \<Rightarrow> string
    \<Rightarrow> storage_rc \<times> string option \<times> fs \<times> storage_engine" where
  "storage_engine_read w now d e filename = (case get_or_load_file now d e filename None of
     None \<Rightarrow> (STORAGE_ERR_NOT_FOUND, None, d, e)
   | Some (e1, i) \<Rightarrow>
       (let f = (se_files e1 ! i)\<lparr>sf_last_accessed := now\<rparr>;
            (_, d1) = persist_metadata w d e1 f
        in (STORAGE_OK, Some (c_str (sf_content f)), d1, upd_file i f e1)))"

section \<open>Write\<close>

text \<open>The part of a document behind its last sentence; carriage returns are not skipped here.\<close>

function skip_blank :: "bytes \<Rightarrow> nat \<Rightarrow> nat" where
  "skip_blank t s = (if s < length t \<and> (t ! s = SP \<or> t ! s = TAB \<or> t ! s = LF)
     then skip_blank t (s + 1) else s)"
  by pat_completeness auto
termination by (relation "measure (\<lambda>(t, s). length t - s)") auto

declare skip_blank.simps [simp del]

text \<open>The span a sentence index denotes and the lock capacity it needs.\<close>

definition select_span :: "bytes \<Rightarrow> sentence_span list \<Rightarrow> nat \<Rightarrow> (sentence_span \<times> nat) option" where
  "select_span content spans sentence_index = (let span_count = length spans in
     if span_count = 0 \<and> sentence_index = 0 then
       Some (\<lparr>sp_start = 0, sp_length = length content\<rparr>, 1)
     else if sentence_index = span_count \<and> 0 < length content then
       (let incomplete_start = (if 0 < span_count
              then skip_blank content (sp_start (spans ! (span_count - 1)) + sp_length (spans ! (span_count - 1)))
              else 0)
        in Some (\<lparr>sp_start = incomplete_start, sp_length = length content - incomplete_start\<rparr>, span_count + 1))
     else if span_count \<le> sentence_index then None
     else Some (spans ! sentence_index, span_count))"

definition set_lock :: "nat \<Rightarrow> bool \<Rightarrow> bool \<Rightarrow> storage_file \<Rightarrow> storage_file" where
  "set_lock i held locked f = f\<lparr>sf_locks := (sf_locks f)[i := \<lparr>sl_held = held, sl_locked = locked\<rparr>]\<rparr>"

definition persist_all :: "io \<Rightarrow> fs \<Rightarrow> storage_engine \<Rightarrow> storage_file \<Rightarrow> (bool \<times> bool \<times> bool) \<times> fs" where
  "persist_all w d e f =
     (let (rc_content, d1) = persist_content w d e f;
          (rc_meta, d2) = persist_metadata w d1 e f;
          (rc_undo, d3) = persist_undo w d2 e f
      in ((rc_content, rc_meta, rc_undo), d3))"

definition storage_engine_write :: "io \<Rightarrow> time_t \<Rightarrow> fs \<Rightarrow> storage_engine \<Rightarrow> string \<Rightarrow> nat
    \<Rightarrow> storage_word_update list \<Rightarrow> nat \<Rightarrow> storage_rc \<times> string \<times> fs \<times> storage_engine" where
  "storage_engine_write w now d e filename sentence_index updates undo_token_len =
     (if updates = [] then (STORAGE_ERR_INVALID, [], d, e)
      else case get_or_load_file now d e filename None of
        None \<Rightarrow> (STORAGE_ERR_NOT_FOUND, [], d, e)
      | Some (e1, i) \<Rightarrow>
          (let f = se_files e1 ! i;
               spans = (if 0 < length (sf_content f) then compute_spans (sf_content f) else [])
           in case select_span (sf_content f) spans sentence_index of
             None \<Rightarrow> (STORAGE_ERR_INVALID, [], d, e1)
           | Some (span, desired) \<Rightarrow>
               (let f1 = ensure_sentence_capacity f desired in
                if sl_held (sf_locks f1 ! sentence_index)
                then (STORAGE_ERR_LOCKED, [], d, upd_file i f1 e1)
                else
                  (let f2 = set_lock sentence_index True True f1;
                       words = tokenize_words (span_text (sf_content f2) span)
                   in case apply_updates words updates of
                     Inl rc \<Rightarrow> (rc, [], d, upd_file i (set_lock sentence_index False True f2) e1)
                   | Inr words' \<Rightarrow>
                       (let (e2, f3) = write_new_content e1 f2 span (join_words words');
                            f4 = update_metadata_from_content
                                   (f3\<lparr>sf_modified_at := now, sf_last_accessed := now\<rparr>);
                            (_, d1) = persist_all w d e2 f4;
                            f5 = set_lock sentence_index False False f4
                        in (STORAGE_OK, fit undo_token_len (sf_undo_token f4), d1, upd_file i f5 e2))))))"

definition storage_engine_unlock_sentence :: "time_t \<Rightarrow> fs \<Rightarrow> storage_engine \<Rightarrow> string \<Rightarrow> nat
    \<Rightarrow> storage_rc \<times> storage_engine" where
  "storage_engine_unlock_sentence now d e filename sentence_index =
     (case get_or_load_file now d e filename None of
        None \<Rightarrow> (STORAGE_ERR_NOT_FOUND, e)
      | Some (e1, i) \<Rightarrow>
          (let f = se_files e1 ! i in
           if length (sf_locks f) \<le> sentence_index then (STORAGE_ERR_INVALID, e1)
           else if sl_locked (sf_locks f ! sentence_index)
           then (STORAGE_OK, upd_file i (set_lock sentence_index False False f) e1)
           else (STORAGE_OK, e1)))"

section \<open>Undo, info, access marks\<close>

definition storage_engine_undo :: "io \<Rightarrow> time_t \<Rightarrow> fs \<Rightarrow> storage_engine \<Rightarrow> string
    \<Rightarrow> storage_rc \<times> fs \<times> storage_engine" where
  "storage_engine_undo w now d e filename = (case get_or_load_file now d e filename None of
     None \<Rightarrow> (STORAGE_ERR_NOT_FOUND, d, e)
   | Some (e1, i) \<Rightarrow>
       (let f = se_files e1 ! i in
        case sf_undo_snapshot f of
          None \<Rightarrow> (STORAGE_ERR_INVALID, d, e1)
        | Some snapshot \<Rightarrow>
            (let f1 = update_metadata_from_content
                   (f\<lparr>sf_content := snapshot, sf_undo_snapshot := Some (sf_content f),
                      sf_modified_at := now, sf_last_accessed := now\<rparr>);
                 (_, d1) = persist_all w d e1 f1
             in (STORAGE_OK, d1, upd_file i f1 e1))))"

record storage_file_info =
  fi_filename :: string
  fi_owner :: string
  fi_word_count :: nat
  fi_char_count :: nat
  fi_sentence_count :: nat
  fi_created_at :: time_t
  fi_modified_at :: time_t
  fi_last_accessed :: time_t
  fi_last_accessed_by :: string

definition storage_engine_info :: "time_t \<Rightarrow> fs \<Rightarrow> storage_engine \<Rightarrow> string
    \<Rightarrow> storage_rc \<times> storage_file_info option \<times> storage_engine" where
  "storage_engine_info now d e filename = (case get_or_load_file now d e filename None of
     None \<Rightarrow> (STORAGE_ERR_NOT_FOUND, None, e)
   | Some (e1, i) \<Rightarrow>
       (let f = se_files e1 ! i in
        (STORAGE_OK, Some \<lparr>fi_filename = fit 256 (sf_filename f), fi_owner = fit 128 (sf_owner f),
           fi_word_count = sf_word_count f, fi_char_count = sf_char_count f,
           fi_sentence_count = sf_sentence_count f, fi_created_at = sf_created_at f,
           fi_modified_at = sf_modified_at f, fi_last_accessed = sf_last_accessed f,
           fi_last_accessed_by = fit 128 (sf_last_accessed_by f)\<rparr>, e1)))"

definition storage_engine_mark_access :: "io \<Rightarrow> time_t \<Rightarrow> fs \<Rightarrow> storage_engine \<Rightarrow> string \<Rightarrow> string option
    \<Rightarrow> storage_rc \<times> fs \<times> storage_engine" where
  "storage_engine_mark_access w now d e filename username =
     (case get_or_load_file now d e filename None of
        None \<Rightarrow> (STORAGE_ERR_NOT_FOUND, d, e)
      | Some (e1, i) \<Rightarrow>
          (let f = (se_files e1 ! i)\<lparr>sf_last_accessed := now\<rparr>;
               f1 = (case username of Some (c # cs) \<Rightarrow> f\<lparr>sf_last_accessed_by := fit 128 (c # cs)\<rparr> | _ \<Rightarrow> f);
               (ok, d1) = persist_metadata w d e1 f1
           in (if ok then STORAGE_OK else STORAGE_ERR_IO, d1, upd_file i f1 e1)))"

section \<open>Folders\<close>

definition storage_engine_create_folder :: "io \<Rightarrow> fs \<Rightarrow> storage_engine \<Rightarrow> string \<Rightarrow> string option
    \<Rightarrow> storage_rc \<times> fs" where
  \<open>storage_engine_create_folder w d e foldername owner =
     (if foldername = [] then (STORAGE_ERR_INVALID, d)
      else case normalize_relative_path foldername PATH_MAX of
        None \<Rightarrow> (STORAGE_ERR_INVALID, d)
      | Some relative \<Rightarrow>
          if relative = [] then (STORAGE_ERR_INVALID, d)
          else case ss_file_path PATH_MAX (se_root_path e) (se_ss_id e) relative of
            None \<Rightarrow> (STORAGE_ERR_INVALID, d)
          | Some folder_path \<Rightarrow>
              (case sys_stat d folder_path of
                 Inr Dir \<Rightarrow> (STORAGE_ERR_EXISTS, d)
               | Inr (Reg _) \<Rightarrow> (STORAGE_ERR_INVALID, d)
               | Inl _ \<Rightarrow>
                   (let (ok, d1) = ensure_dir w d folder_path in
                    if \<not> ok then (STORAGE_ERR_IO, d1)
                    else (let meta_path = folder_path @ ''/.folder_meta'' in
                      (STORAGE_OK,
                       if length meta_path < PATH_MAX + 20
                       then sys_store d1 meta_path (''{"owner":"''
                              @ (case owner of Some u \<Rightarrow> u | None \<Rightarrow> ''system'')
                              @ ''","type":"folder"}'' @ [LF])
                       else d1)))))\<close>

definition parent_of :: "string \<Rightarrow> string" where
  "parent_of s = (case strrchr s SLASH of Some (a, _) \<Rightarrow> a | None \<Rightarrow> s)"

definition leaf_of :: "string \<Rightarrow> string" where
  "leaf_of s = (case strrchr s SLASH of Some (_, b) \<Rightarrow> b | None \<Rightarrow> s)"

definition rename_if_possible :: "io \<Rightarrow> fs \<Rightarrow> string \<Rightarrow> string \<Rightarrow> fs" where
  "rename_if_possible w d s t = (case sys_rename w d s t of Inr d' \<Rightarrow> d' | Inl _ \<Rightarrow> d)"

definition rename_in_memory :: "storage_engine \<Rightarrow> string \<Rightarrow> string \<Rightarrow> storage_engine" where
  "rename_in_memory e filename dest_rel = (case find_file_locked e filename of
     None \<Rightarrow> e
   | Some i \<Rightarrow> if length dest_rel < 256
       then upd_file i ((se_files e ! i)\<lparr>sf_filename := fit 256 dest_rel\<rparr>) e
       else e)"

definition storage_engine_move_file :: "io \<Rightarrow> fs \<Rightarrow> storage_engine \<Rightarrow> string \<Rightarrow> string
    \<Rightarrow> storage_rc \<times> fs \<times> storage_engine" where
  "storage_engine_move_file w d e filename foldername =
     (case (normalize_relative_path filename PATH_MAX, normalize_relative_path foldername PATH_MAX) of
        (Some src_rel, Some folder_rel) \<Rightarrow>
          if src_rel = [] then (STORAGE_ERR_INVALID, d, e)
          else (case build_paths e src_rel PATH_MAX of
            None \<Rightarrow> (STORAGE_ERR_INVALID, d, e)
          | Some (src_file, src_meta, src_undo) \<Rightarrow>
              (case sys_stat d src_file of Inl _ \<Rightarrow> (STORAGE_ERR_NOT_FOUND, d, e) | Inr _ \<Rightarrow>
              (case ss_file_path PATH_MAX (se_root_path e) (se_ss_id e) folder_rel of
                 None \<Rightarrow> (STORAGE_ERR_INVALID, d, e)
               | Some folder_path \<Rightarrow>
                   if sys_stat d folder_path \<noteq> Inr Dir then (STORAGE_ERR_NOT_FOUND, d, e)
                   else
                     (let leaf = leaf_of src_rel;
                          dest_rel = (if folder_rel = [] then leaf else folder_rel @ ''/'' @ leaf)
                      in if PATH_MAX \<le> length dest_rel then (STORAGE_ERR_INVALID, d, e)
                         else case build_paths e dest_rel PATH_MAX of
                           None \<Rightarrow> (STORAGE_ERR_INVALID, d, e)
                         | Some (dest_file, dest_meta, dest_undo) \<Rightarrow>
                             (let d1 = snd (ensure_dir w d (parent_of dest_meta));
                                  d2 = snd (ensure_dir w d1 (parent_of dest_undo))
                              in case sys_rename w d2 src_file dest_file of
                                Inl _ \<Rightarrow> (STORAGE_ERR_IO, d2, e)
                              | Inr d3 \<Rightarrow>
                                  (STORAGE_OK,
                                   rename_if_possible w (rename_if_possible w d3 src_meta dest_meta)
                                     src_undo dest_undo,
                                   rename_in_memory e filename dest_rel))))))
      | _ \<Rightarrow> (STORAGE_ERR_INVALID, d, e))"

definition storage_engine_list_folder :: "fs \<Rightarrow> storage_engine \<Rightarrow> string \<Rightarrow> string option
    \<Rightarrow> storage_rc \<times> string list \<times> string list" where
  "storage_engine_list_folder d e foldername username =
     (case (if foldername = [] \<or> foldername = ''/'' then Some []
            else normalize_relative_path foldername PATH_MAX) of
        None \<Rightarrow> (STORAGE_ERR_INVALID, [], [])
      | Some folder_rel \<Rightarrow>
          (case ss_file_path PATH_MAX (se_root_path e) (se_ss_id e) folder_rel of
             None \<Rightarrow> (STORAGE_ERR_INVALID, [], [])
           | Some folder_path \<Rightarrow>
               (case sys_stat d folder_path of
                  Inl _ \<Rightarrow> (STORAGE_ERR_NOT_FOUND, [], [])
                | Inr (Reg _) \<Rightarrow> (STORAGE_ERR_NOT_FOLDER, [], [])
                | Inr Dir \<Rightarrow>
                    (let owner = read_folder_owner_meta d folder_path 128 in
                     if (case username of Some u \<Rightarrow> u \<noteq> [] \<and> folder_rel \<noteq> [] \<and> owner \<noteq> [] \<and> owner \<noteq> u
                         | None \<Rightarrow> False)
                     then (STORAGE_ERR_NO_ACCESS, [], [])
                     else case sys_readdir d folder_path of
                       Inl _ \<Rightarrow> (STORAGE_ERR_IO, [], [])
                     | Inr names \<Rightarrow>
                         (let shown = filter (\<lambda>n. n \<noteq> ''.'' \<and> n \<noteq> ''..'' \<and> n \<noteq> ''.folder_meta''
                                \<and> length (folder_path @ ''/'' @ n) < PATH_MAX) names;
                              is_dir = (\<lambda>n. sys_stat d (folder_path @ ''/'' @ n) = Inr Dir)
                          in (STORAGE_OK, filter (\<lambda>n. \<not> is_dir n) shown, filter is_dir shown))))))"

section \<open>Checkpoints\<close>

definition storage_engine_checkpoint :: "io \<Rightarrow> time_t \<Rightarrow> fs \<Rightarrow> storage_engine \<Rightarrow> string \<Rightarrow> string
    \<Rightarrow> storage_rc \<times> fs \<times> storage_engine" where
  "storage_engine_checkpoint w now d e filename tag =
     (if \<not> is_valid_checkpoint_tag tag then (STORAGE_ERR_INVALID, d, e)
      else case get_or_load_file now d e filename None of
        None \<Rightarrow> (STORAGE_ERR_NOT_FOUND, d, e)
      | Some (e1, i) \<Rightarrow>
          (case ss_checkpoint_dir PATH_MAX (se_root_path e1) (se_ss_id e1) filename of
             None \<Rightarrow> (STORAGE_ERR_IO, d, e1)
           | Some checkpoint_dir \<Rightarrow>
               (let (ok, d1) = ensure_dir w d checkpoint_dir in
                if \<not> ok then (STORAGE_ERR_IO, d1, e1)
                else case ss_checkpoint_path PATH_MAX (se_root_path e1) (se_ss_id e1) filename tag of
                  None \<Rightarrow> (STORAGE_ERR_IO, d1, e1)
                | Some checkpoint_path \<Rightarrow>
                    (case sys_stat d1 checkpoint_path of
                       Inr _ \<Rightarrow> (STORAGE_ERR_EXISTS, d1, e1)
                     | Inl _ \<Rightarrow>
                         (let (ok', d2) = atomic_write w d1 checkpoint_path (sf_content (se_files e1 ! i))
                          in (if ok' then STORAGE_OK else STORAGE_ERR_IO, d2, e1))))))"

definition storage_engine_list_checkpoints :: "fs \<Rightarrow> storage_engine \<Rightarrow> string
    \<Rightarrow> storage_rc \<times> string list" where
  "storage_engine_list_checkpoints d e filename =
     (case ss_checkpoint_dir PATH_MAX (se_root_path e) (se_ss_id e) filename of
        None \<Rightarrow> (STORAGE_ERR_IO, [])
      | Some checkpoint_dir \<Rightarrow>
          (case sys_readdir d checkpoint_dir of
             Inl err \<Rightarrow> (if err = ENOENT then STORAGE_OK else STORAGE_ERR_IO, [])
           | Inr names \<Rightarrow> (STORAGE_OK,
               map (\<lambda>name. take (length name - 4) name)
                 (filter (\<lambda>name. name \<noteq> ''.'' \<and> name \<noteq> ''..'' \<and> 5 \<le> length name
                    \<and> drop (length name - 4) name = ''.chk'') names))))"

definition storage_engine_view_checkpoint :: "fs \<Rightarrow> storage_engine \<Rightarrow> string \<Rightarrow> string
    \<Rightarrow> storage_rc \<times> bytes option" where
  "storage_engine_view_checkpoint d e filename tag =
     (if \<not> is_valid_checkpoint_tag tag then (STORAGE_ERR_INVALID, None)
      else case ss_checkpoint_path PATH_MAX (se_root_path e) (se_ss_id e) filename tag of
        None \<Rightarrow> (STORAGE_ERR_IO, None)
      | Some checkpoint_path \<Rightarrow>
          (case read_file_if_exists d checkpoint_path of
             None \<Rightarrow> (STORAGE_ERR_NOT_FOUND, None)
           | Some content \<Rightarrow> (STORAGE_OK, Some content)))"

definition storage_engine_revert_checkpoint :: "io \<Rightarrow> time_t \<Rightarrow> fs \<Rightarrow> storage_engine \<Rightarrow> string \<Rightarrow> string
    \<Rightarrow> storage_rc \<times> fs \<times> storage_engine" where
  "storage_engine_revert_checkpoint w now d e filename tag =
     (case ss_checkpoint_path PATH_MAX (se_root_path e) (se_ss_id e) filename tag of
        None \<Rightarrow> (STORAGE_ERR_IO, d, e)
      | Some checkpoint_path \<Rightarrow>
          (case read_file_if_exists d checkpoint_path of
             None \<Rightarrow> (STORAGE_ERR_NOT_FOUND, d, e)
           | Some snapshot \<Rightarrow>
               (case get_or_load_file now d e filename None of
                  None \<Rightarrow> (STORAGE_ERR_NOT_FOUND, d, e)
                | Some (e1, i) \<Rightarrow>
                    (let f = se_files e1 ! i;
                         f1 = update_metadata_from_content
                           (f\<lparr>sf_content := snapshot, sf_undo_snapshot := Some (sf_content f),
                              sf_modified_at := now, sf_last_accessed := now\<rparr>);
                         ((rc_content, rc_meta, rc_undo), d1) = persist_all w d e1 f1
                     in (if rc_content \<and> rc_meta \<and> rc_undo then STORAGE_OK else STORAGE_ERR_IO,
                         d1, upd_file i f1 e1)))))"

section \<open>Replication\<close>

definition storage_engine_import :: "io \<Rightarrow> time_t \<Rightarrow> fs \<Rightarrow> storage_engine \<Rightarrow> string \<Rightarrow> string
    \<Rightarrow> storage_rc \<times> fs \<times> storage_engine" where
  "storage_engine_import w now d e filename content =
     (case get_or_load_file now d e filename (Some ''system'') of
        None \<Rightarrow> (STORAGE_ERR_IO, d, e)
      | Some (e1, i) \<Rightarrow>
          (let f = se_files e1 ! i;
               f1 = update_metadata_from_content
                 (f\<lparr>sf_content := content, sf_modified_at := now,
                    sf_last_accessed := (if sf_last_accessed f = 0 then now else sf_last_accessed f)\<rparr>);
               e2 = upd_file i f1 e1;
               (ok, d1) = persist_content w d e2 f1
           in if \<not> ok then (STORAGE_ERR_IO, d1, e2)
              else let (ok', d2) = persist_metadata w d1 e2 f1 in
                (if ok' then STORAGE_OK else STORAGE_ERR_IO, d2, e2)))"

end
