(* ===== verification/Engine_Invariant.thy ===== *)
theory Engine_Invariant
  imports Storage_Engine
begin

text \<open>
  The invariant of the storage engine, over every sequence of operations and every outcome of
  the file system: the counts a file reports are those of its content, there is a lock for
  every sentence and no sentence mutex stays held, names fit their buffers and the table of
  files fits its capacity.
\<close>

section \<open>Looking files up\<close>

lemma find_file_from_Some:
  "find_file_from k fs n = Some i \<Longrightarrow> k \<le> i \<and> i - k < length fs \<and> sf_filename (fs ! (i - k)) = n
     \<and> (\<forall>j < i - k. sf_filename (fs ! j) \<noteq> n)"
proof (induction fs arbitrary: k)
  case (Cons f fs)
  show ?case
  proof (cases "sf_filename f = n")
    case False
    with Cons.prems have "find_file_from (k + 1) fs n = Some i" by simp
    from Cons.IH [OF this] have IH: "k < i" "i - Suc k < length fs"
        "sf_filename (fs ! (i - Suc k)) = n" "\<forall>j < i - Suc k. sf_filename (fs ! j) \<noteq> n" by auto
    then have "i - k = Suc (i - Suc k)" by simp
    with IH False show ?thesis by (auto simp: nth_Cons split: nat.splits)
  qed (use Cons in simp)
qed simp

lemma find_file_locked_Some:
  "find_file_locked e n = Some i \<Longrightarrow> i < length (se_files e) \<and> sf_filename (se_files e ! i) = n
     \<and> (\<forall>j<i. sf_filename (se_files e ! j) \<noteq> n)"
  using find_file_from_Some [of 0] by (fastforce simp: find_file_locked_def)

lemma find_file_from_None: "find_file_from k fs n = None \<longleftrightarrow> (\<forall>f\<in>set fs. sf_filename f \<noteq> n)"
  by (induction fs arbitrary: k) auto

lemma find_file_locked_first:
  "i < length (se_files e) \<Longrightarrow> sf_filename (se_files e ! i) = n \<Longrightarrow>
     (\<forall>j<i. sf_filename (se_files e ! j) \<noteq> n) \<Longrightarrow> find_file_locked e n = Some i"
proof (cases "find_file_locked e n")
  case None
  then show "i < length (se_files e) \<Longrightarrow> sf_filename (se_files e ! i) = n \<Longrightarrow> ?thesis"
    by (auto simp: find_file_locked_def find_file_from_None)
next
  case (Some j)
  then show "i < length (se_files e) \<Longrightarrow> sf_filename (se_files e ! i) = n \<Longrightarrow>
      (\<forall>j<i. sf_filename (se_files e ! j) \<noteq> n) \<Longrightarrow> ?thesis"
    using find_file_locked_Some [OF Some] by (metis linorder_neqE_nat)
qed

section \<open>The invariant through the helpers\<close>

lemma engine_ok_nth: "engine_ok e \<Longrightarrow> i < length (se_files e) \<Longrightarrow> file_ok (se_files e ! i)"
  by (auto simp: engine_ok_def list_all_length)

lemma upd_file_simps [engine_simps]:
  "se_root_path (upd_file i f e) = se_root_path e" "se_ss_id (upd_file i f e) = se_ss_id e"
  "se_files (upd_file i f e) = (se_files e)[i := f]"
  "se_file_capacity (upd_file i f e) = se_file_capacity e" "se_undo_seq (upd_file i f e) = se_undo_seq e"
  by (simp_all add: upd_file_def)

lemma engine_ok_upd: "engine_ok e \<Longrightarrow> file_ok f \<Longrightarrow> engine_ok (upd_file i f e)"
  by (auto simp: engine_ok_def engine_simps list_all_iff dest: set_update_subset_insert [THEN subsetD])

lemma engine_ok_seq: "engine_ok (e\<lparr>se_undo_seq := s\<rparr>) = engine_ok e"
  by (simp add: engine_ok_def)

lemma get_or_load_ok:
  assumes "get_or_load_file now d e n h = Some (e1, i)" and "engine_ok e"
  shows "engine_ok e1" and "i < length (se_files e1)" and "file_ok (se_files e1 ! i)"
    and "sf_filename (se_files e1 ! i) = fit 256 n"
    and "se_root_path e1 = se_root_path e" and "se_ss_id e1 = se_ss_id e"
    and "\<exists>fs. se_files e1 = se_files e @ fs" and "se_undo_seq e1 = se_undo_seq e"
proof -
  have *: "engine_ok e1 \<and> i < length (se_files e1) \<and> sf_filename (se_files e1 ! i) = fit 256 n
    \<and> se_root_path e1 = se_root_path e \<and> se_ss_id e1 = se_ss_id e \<and> (\<exists>fs. se_files e1 = se_files e @ fs)
    \<and> se_undo_seq e1 = se_undo_seq e"
  proof (cases "find_file_locked e n")
    case (Some j)
    with assms(1) have [simp]: "e1 = e" "i = j" by (auto simp: get_or_load_file_def)
    from find_file_locked_Some [OF Some] engine_ok_nth [OF assms(2), of i]
    show ?thesis using assms(2) by (auto simp: file_ok_def names_fit_def fit_id)
  next
    case None
    with assms(1) obtain f where f: "load_file_from_disk now d e (allocate_file n h) = Some f"
      "se_files e1 = se_files e @ [f]" "i = length (se_files e)"
      "se_file_capacity e1 = (if length (se_files e) = se_file_capacity e
         then if se_file_capacity e \<noteq> 0 then se_file_capacity e * 2 else 4 else se_file_capacity e)"
      "se_root_path e1 = se_root_path e" "se_ss_id e1 = se_ss_id e" "se_undo_seq e1 = se_undo_seq e"
      by (auto simp: get_or_load_file_def Let_def split: option.splits)
    from load_file_ok [OF f(1) names_fit_allocate] have "file_ok f" "sf_filename f = fit 256 n" by auto
    with f assms(2) show ?thesis by (auto simp: engine_ok_def)
  qed
  then show "engine_ok e1" "i < length (se_files e1)" "sf_filename (se_files e1 ! i) = fit 256 n"
    "se_root_path e1 = se_root_path e" "se_ss_id e1 = se_ss_id e" "\<exists>fs. se_files e1 = se_files e @ fs"
    "se_undo_seq e1 = se_undo_seq e" by auto
  with * show "file_ok (se_files e1 ! i)" using engine_ok_nth by blast
qed

lemma get_or_load_cases:
  assumes "engine_ok e"
  obtains (None) "get_or_load_file now d e n h = None"
  | (Some) e1 i where "get_or_load_file now d e n h = Some (e1, i)" and "engine_ok e1"
      and "i < length (se_files e1)" and "file_ok (se_files e1 ! i)"
  using get_or_load_ok [OF _ assms, of now d n h] by (cases "get_or_load_file now d e n h") auto

lemma set_lock_simps [engine_simps]:
  "sf_filename (set_lock i h l f) = sf_filename f" "sf_content (set_lock i h l f) = sf_content f"
  "sf_owner (set_lock i h l f) = sf_owner f" "sf_undo_token (set_lock i h l f) = sf_undo_token f"
  "sf_last_accessed_by (set_lock i h l f) = sf_last_accessed_by f"
  "sf_undo_snapshot (set_lock i h l f) = sf_undo_snapshot f"
  "sf_locks (set_lock i h l f) = (sf_locks f)[i := \<lparr>sl_held = h, sl_locked = l\<rparr>]"
  "set_lock i h l (set_lock i h' l' f) = set_lock i h l f"
  by (simp_all add: set_lock_def)

lemma set_lock_ok: "file_ok f \<Longrightarrow> file_ok (set_lock i False l f)"
  by (auto simp: set_lock_def file_ok_def meta_ok_def names_fit_def locks_free_def list_all_iff
      dest!: set_update_subset_insert [THEN subsetD])

lemma file_ok_capacity: "file_ok f \<Longrightarrow> file_ok (ensure_sentence_capacity f n)"
  using ensure_capacity_length [of n f]
  by (auto simp: file_ok_def meta_ok_def names_fit_capacity engine_simps intro: locks_free_capacity)

lemma file_ok_parts: "file_ok f \<Longrightarrow> locks_free f" "file_ok f \<Longrightarrow> names_fit f" "file_ok f \<Longrightarrow> meta_ok f"
  by (simp_all add: file_ok_def)

text \<open>A file whose times, content and snapshot are replaced and whose counts are recomputed.\<close>

lemma file_ok_recount:
  "file_ok f \<Longrightarrow> sf_locks g = sf_locks f \<Longrightarrow> sf_filename g = sf_filename f \<Longrightarrow>
   length (sf_owner g) < 128 \<Longrightarrow> length (sf_undo_token g) < 64 \<Longrightarrow>
   sf_last_accessed_by g = sf_last_accessed_by f \<Longrightarrow> file_ok (update_metadata_from_content g)"
  by (rule file_ok_update) (auto simp: file_ok_def locks_free_def names_fit_def)

lemma file_ok_touch:
  "file_ok f \<Longrightarrow> file_ok (f\<lparr>sf_last_accessed := t\<rparr>)"
  "file_ok f \<Longrightarrow> length u < 128 \<Longrightarrow> file_ok (f\<lparr>sf_last_accessed := t, sf_last_accessed_by := u\<rparr>)"
  "file_ok f \<Longrightarrow> length n < 256 \<Longrightarrow> file_ok (f\<lparr>sf_filename := n\<rparr>)"
  by (auto simp: file_ok_def meta_ok_def locks_free_def names_fit_def)

section \<open>Selecting a sentence\<close>

lemma skip_blank_bound: "s \<le> length t \<Longrightarrow> skip_blank t s \<le> length t"
  by (induction t s rule: skip_blank.induct) (subst skip_blank.simps, auto)

lemma select_span_bounds:
  assumes "select_span c (compute_spans c) idx = Some (span, desired)"
  shows "idx < desired" and "sp_start span + sp_length span \<le> length c"
    and "desired \<le> length (compute_spans c) + 1"
proof -
  let ?n = "length (compute_spans c)"
  have "sp_start (compute_spans c ! (?n - 1)) + sp_length (compute_spans c ! (?n - 1)) \<le> length c"
    if "0 < ?n" using that by (intro compute_spans_nth) simp
  note b = skip_blank_bound [OF this]
  show "idx < desired" "sp_start span + sp_length span \<le> length c" "desired \<le> ?n + 1"
    using assms b compute_spans_nth [of idx c]
    by (auto simp: select_span_def Let_def split: if_splits)
qed

lemma spans_if_nonempty: "(if 0 < length c then compute_spans c else []) = compute_spans c"
  by (cases c) auto

section \<open>Every operation keeps the invariant\<close>

lemma create_file_ok:
  assumes "storage_engine_create_file w now d e n u = (rc, d', e')" and "engine_ok e"
  shows "engine_ok e'"
proof (cases rule: get_or_load_cases [OF assms(2), of now d n "Some u"])
  case 1
  with assms show ?thesis by (simp add: storage_engine_create_file_def)
next
  case Some: (2 e1 i)
  have "engine_ok (upd_file i (update_metadata_from_content ((se_files e1 ! i)\<lparr>sf_created_at := now,
      sf_modified_at := now, sf_last_accessed := now, sf_owner := fit 128 u\<rparr>)) e1)"
    using Some by (intro engine_ok_upd file_ok_recount [OF Some(4)])
      (auto simp: length_fit file_ok_def names_fit_def)
  with assms Some(1,2) show ?thesis
    by (auto simp: storage_engine_create_file_def Let_def split: if_splits prod.splits)
qed

lemma engine_ok_remove:
  "engine_ok e \<Longrightarrow> engine_ok (e\<lparr>se_files := take i (se_files e) @ drop (i + 1) (se_files e)\<rparr>)"
  by (auto simp: engine_ok_def list_all_iff) (blast dest: in_set_takeD in_set_dropD)+

lemma delete_file_ok:
  "storage_engine_delete_file d e n = (rc, d', e') \<Longrightarrow> engine_ok e \<Longrightarrow> engine_ok e'"
  using engine_ok_remove
  by (auto simp: storage_engine_delete_file_def Let_def split: option.splits prod.splits)

lemma read_ok:
  assumes "storage_engine_read w now d e n = (rc, out, d', e')" and "engine_ok e"
  shows "engine_ok e'"
  by (cases rule: get_or_load_cases [OF assms(2), of now d n None])
    (use assms in \<open>auto simp: storage_engine_read_def Let_def split: option.splits prod.splits
      intro!: engine_ok_upd file_ok_touch\<close>)

lemma undo_ok:
  assumes "storage_engine_undo w now d e n = (rc, d', e')" and "engine_ok e"
  shows "engine_ok e'"
  by (cases rule: get_or_load_cases [OF assms(2), of now d n None])
    (use assms in \<open>auto simp: storage_engine_undo_def Let_def file_ok_def names_fit_def locks_free_def
      split: option.splits prod.splits intro!: engine_ok_upd file_ok_update\<close>)

lemma revert_ok:
  assumes "storage_engine_revert_checkpoint w now d e n t = (rc, d', e')" and "engine_ok e"
  shows "engine_ok e'"
  by (cases rule: get_or_load_cases [OF assms(2), of now d n None])
    (use assms in \<open>auto simp: storage_engine_revert_checkpoint_def Let_def file_ok_def names_fit_def locks_free_def
      split: option.splits prod.splits intro!: engine_ok_upd file_ok_update\<close>)

lemma import_ok:
  assumes "storage_engine_import w now d e n c = (rc, d', e')" and "engine_ok e"
  shows "engine_ok e'"
proof (cases rule: get_or_load_cases [OF assms(2), of now d n "Some ''system''"])
  case 1
  with assms show ?thesis by (simp add: storage_engine_import_def)
next
  case Some: (2 e1 i)
  let ?f = "update_metadata_from_content ((se_files e1 ! i)\<lparr>sf_content := c,
      sf_modified_at := now, sf_last_accessed := (if sf_last_accessed (se_files e1 ! i) = 0 then now
        else sf_last_accessed (se_files e1 ! i))\<rparr>)"
  have "e' = upd_file i ?f e1"
    using assms(1) Some(1)
    by (simp add: storage_engine_import_def Let_def case_prod_unfold split: if_splits)
  moreover have "engine_ok (upd_file i ?f e1)"
    using Some by (intro engine_ok_upd file_ok_recount [OF Some(4)]) (auto simp: file_ok_def names_fit_def)
  ultimately show ?thesis by simp
qed

lemma mark_access_ok:
  assumes "storage_engine_mark_access w now d e n u = (rc, d', e')" and "engine_ok e"
  shows "engine_ok e'"
  by (cases rule: get_or_load_cases [OF assms(2), of now d n None])
    (use assms in \<open>auto simp: storage_engine_mark_access_def Let_def length_fit
      split: option.splits prod.splits list.splits intro!: engine_ok_upd file_ok_touch\<close>)

lemma info_ok:
  assumes "storage_engine_info now d e n = (rc, out, e')" and "engine_ok e"
  shows "engine_ok e'"
  by (cases rule: get_or_load_cases [OF assms(2), of now d n None])
    (use assms in \<open>auto simp: storage_engine_info_def Let_def split: option.splits\<close>)

lemma unlock_ok:
  assumes "storage_engine_unlock_sentence now d e n k = (rc, e')" and "engine_ok e"
  shows "engine_ok e'"
  by (cases rule: get_or_load_cases [OF assms(2), of now d n None])
    (use assms in \<open>auto simp: storage_engine_unlock_sentence_def Let_def split: option.splits if_splits
      intro!: engine_ok_upd set_lock_ok\<close>)

lemma checkpoint_ok:
  assumes "storage_engine_checkpoint w now d e n t = (rc, d', e')" and "engine_ok e"
  shows "engine_ok e'"
  by (cases rule: get_or_load_cases [OF assms(2), of now d n None])
    (use assms in \<open>auto simp: storage_engine_checkpoint_def Let_def
      split: if_splits option.splits prod.splits sum.splits\<close>)

lemma move_engine:
  assumes "storage_engine_move_file w d e n v = (rc, d', e')"
  shows "\<exists>m. e' = e \<or> e' = rename_in_memory e n m"
  using assms unfolding storage_engine_move_file_def Let_def
  by (auto split: option.splits if_splits prod.splits sum.splits)

lemma move_ok: "storage_engine_move_file w d e n v = (rc, d', e') \<Longrightarrow> engine_ok e \<Longrightarrow> engine_ok e'"
  by (drule move_engine)
    (auto simp: rename_in_memory_def fit_id split: option.splits
      intro!: engine_ok_upd file_ok_touch engine_ok_nth dest: find_file_locked_Some)

section \<open>Writing a sentence\<close>

text \<open>The file after a successful write, and what a refused write leaves of it.\<close>

definition written_file :: "time_t \<Rightarrow> storage_engine \<Rightarrow> storage_file \<Rightarrow> nat \<Rightarrow> nat \<Rightarrow> sentence_span
    \<Rightarrow> string list \<Rightarrow> storage_file" where
  "written_file now e f idx desired span words =
     update_metadata_from_content ((snd (write_new_content e
       (set_lock idx True True (ensure_sentence_capacity f desired)) span (join_words words)))
       \<lparr>sf_modified_at := now, sf_last_accessed := now\<rparr>)"

lemma written_file_simps [engine_simps]:
  "sf_filename (written_file now e f idx n span ws) = sf_filename f"
  "sf_owner (written_file now e f idx n span ws) = sf_owner f"
  "sf_last_accessed_by (written_file now e f idx n span ws) = sf_last_accessed_by f"
  "sf_undo_snapshot (written_file now e f idx n span ws) = Some (sf_content f)"
  "sf_content (written_file now e f idx n span ws) = take (sp_start span) (sf_content f) @ join_words ws
     @ drop (sp_start span + sp_length span) (sf_content f)"
  "sf_modified_at (written_file now e f idx n span ws) = now"
  "sf_last_accessed (written_file now e f idx n span ws) = now"
  "sf_undo_token (written_file now e f idx n span ws) = fit 64 (''undo-'' @ show_nat_pad6 (unat (se_undo_seq e + 1)))"
  by (simp_all add: written_file_def write_new_content_def generate_undo_token_def Let_def engine_simps)

lemma sf_locks_update:
  "\<exists>r. sf_locks (update_metadata_from_content g) = sf_locks g @ replicate r \<lparr>sl_held = False, sl_locked = False\<rparr>"
proof (cases "length (compute_spans (sf_content g)) \<le> length (sf_locks g)")
  case True
  then show ?thesis
    by (intro exI [of _ 0]) (simp add: update_metadata_from_content_def ensure_sentence_capacity_def Let_def)
next
  case False
  then show ?thesis
    by (simp add: update_metadata_from_content_def ensure_sentence_capacity_def Let_def)
qed

lemma locks_free_release:
  assumes "locks_free f" and "idx < length (sf_locks (ensure_sentence_capacity f n))"
  shows "locks_free (set_lock idx False False (written_file now e f idx n span ws))"
proof -
  let ?g = "(snd (write_new_content e (set_lock idx True True (ensure_sentence_capacity f n)) span
      (join_words ws)))\<lparr>sf_modified_at := now, sf_last_accessed := now\<rparr>"
  have g: "sf_locks ?g = (sf_locks (ensure_sentence_capacity f n))[idx := \<lparr>sl_held = True, sl_locked = True\<rparr>]"
    by (simp add: write_new_content_def generate_undo_token_def Let_def engine_simps)
  have "list_all (\<lambda>l. \<not> sl_held l) (sf_locks (ensure_sentence_capacity f n))"
    using locks_free_capacity [OF assms(1), of n] by (simp add: locks_free_def)
  moreover obtain r where "sf_locks (written_file now e f idx n span ws) =
      sf_locks ?g @ replicate r \<lparr>sl_held = False, sl_locked = False\<rparr>"
    unfolding written_file_def using sf_locks_update [of ?g] by blast
  ultimately have "list_all (\<lambda>l. \<not> sl_held l) ((sf_locks (written_file now e f idx n span ws))
      [idx := \<lparr>sl_held = False, sl_locked = False\<rparr>])"
    using assms(2) unfolding g
    by (auto simp: list_update_append list_all_iff dest!: set_update_subset_insert [THEN subsetD])
  then show ?thesis by (simp add: locks_free_def engine_simps)
qed

lemma file_ok_written:
  assumes "file_ok f" and "idx < n"
  shows "file_ok (set_lock idx False False (written_file now e f idx n span ws))"
proof -
  have "idx < length (sf_locks (ensure_sentence_capacity f n))"
    using ensure_capacity_length [of n f] assms(2) by linarith
  note l = locks_free_release [OF file_ok_parts(1) [OF assms(1)] this]
  have "meta_ok (written_file now e f idx n span ws)"
    unfolding written_file_def by (rule update_metadata_ok)
  then have "meta_ok (set_lock idx False False (written_file now e f idx n span ws))"
    by (simp add: meta_ok_def set_lock_def)
  moreover have "names_fit (set_lock idx False False (written_file now e f idx n span ws))"
    using assms(1) by (simp add: names_fit_def engine_simps file_ok_def length_fit)
  ultimately show ?thesis using l by (simp add: file_ok_def)
qed

lemma write_cases:
  assumes "storage_engine_write w now d e n idx us tlen = (rc, tok, d', e')" and "engine_ok e"
  obtains (refused) "rc = STORAGE_ERR_INVALID \<or> rc = STORAGE_ERR_NOT_FOUND" and "d' = d" and "tok = []"
      and "e' = e \<or> (\<exists>i. get_or_load_file now d e n None = Some (e', i))"
  | (rejected) e1 i m where "rc = STORAGE_ERR_INVALID" and "d' = d" and "tok = []"
      and "get_or_load_file now d e n None = Some (e1, i)" and "idx < m"
      and "e' = upd_file i (set_lock idx False True (ensure_sentence_capacity (se_files e1 ! i) m)) e1"
  | (written) e1 i span m ws where "rc = STORAGE_OK" and "us \<noteq> []"
      and "get_or_load_file now d e n None = Some (e1, i)"
      and "select_span (sf_content (se_files e1 ! i)) (compute_spans (sf_content (se_files e1 ! i))) idx
             = Some (span, m)"
      and "apply_updates (tokenize_words (span_text (sf_content (se_files e1 ! i)) span)) us = Inr ws"
      and "e' = upd_file i (set_lock idx False False (written_file now e1 (se_files e1 ! i) idx m span ws))
             (e1\<lparr>se_undo_seq := se_undo_seq e1 + 1\<rparr>)"
      and "d' = snd (persist_all w d (e1\<lparr>se_undo_seq := se_undo_seq e1 + 1\<rparr>)
             (written_file now e1 (se_files e1 ! i) idx m span ws))"
      and "tok = fit tlen (sf_undo_token (written_file now e1 (se_files e1 ! i) idx m span ws))"
proof (cases "us = []")
  case True
  with assms(1) show ?thesis by (intro refused) (auto simp: storage_engine_write_def)
next
  case us: False
  show ?thesis
  proof (cases rule: get_or_load_cases [OF assms(2), of now d n None])
    case 1
    with assms(1) us show ?thesis by (intro refused) (auto simp: storage_engine_write_def)
  next
    case g: (2 e1 i)
    let ?f = "se_files e1 ! i"
    show ?thesis
    proof (cases "select_span (sf_content ?f) (compute_spans (sf_content ?f)) idx")
      case None
      with assms(1) us g(1) show ?thesis
        by (intro refused) (auto simp: storage_engine_write_def Let_def spans_if_nonempty
            simp del: length_greater_0_conv)
    next
      case (Some p)
      then obtain span m where sp: "select_span (sf_content ?f) (compute_spans (sf_content ?f)) idx = Some (span, m)"
        by (cases p) auto
      note b = select_span_bounds [OF sp]
      from b(1) ensure_capacity_length [of m ?f]
      have il: "idx < length (sf_locks (ensure_sentence_capacity ?f m))" by linarith
      with locks_free_capacity [of ?f m] g(4)
      have nh: "\<not> sl_held (sf_locks (ensure_sentence_capacity ?f m) ! idx)"
        by (auto simp: file_ok_def locks_free_def list_all_length)
      show ?thesis
      proof (cases "apply_updates (tokenize_words (span_text (sf_content ?f) span)) us")
        case (Inl r)
        with assms(1) us g(1) sp nh b(1) apply_updates_error [OF Inl] show ?thesis
          by (intro rejected [of e1 i m]) (auto simp: storage_engine_write_def Let_def spans_if_nonempty
              engine_simps simp del: length_greater_0_conv)
      next
        case (Inr ws)
        let ?g = "set_lock idx True True (ensure_sentence_capacity ?f m)"
        have "fst (write_new_content e1 ?g span (join_words ws)) = e1\<lparr>se_undo_seq := se_undo_seq e1 + 1\<rparr>"
          by (simp add: write_new_content_def generate_undo_token_def Let_def)
        with assms(1) us g(1) sp nh Inr show ?thesis
          by (intro written [of e1 i span m ws]) (auto simp: storage_engine_write_def Let_def
              spans_if_nonempty engine_simps written_file_def case_prod_unfold
              simp del: length_greater_0_conv)
      qed
    qed
  qed
qed

lemma write_ok:
  assumes "storage_engine_write w now d e n idx us tlen = (rc, tok, d', e')" and "engine_ok e"
  shows "engine_ok e'"
  using assms
proof (cases rule: write_cases)
  case refused
  then show ?thesis using get_or_load_ok(1) [OF _ assms(2)] assms(2) by blast
next
  case (rejected e1 i m)
  note G = get_or_load_ok [OF rejected(4) assms(2)]
  show ?thesis unfolding rejected
    by (intro engine_ok_upd set_lock_ok file_ok_capacity G)
next
  case (written e1 i span m ws)
  note G = get_or_load_ok [OF written(3) assms(2)]
  show ?thesis unfolding written
    by (intro engine_ok_upd file_ok_written G select_span_bounds(1) [OF written(4)])
      (simp add: engine_ok_seq G)
qed

end
