(* ===== verification/Engine_Correct.thy ===== *)
theory Engine_Correct
  imports Engine_Invariant
begin

text \<open>
  What the engine's operations do to documents and to the disk: the effect of a write on one
  sentence, undo as an exchange, checkpoints that no later operation alters, and documents
  that survive a restart. The operations are collected as calls of a state machine, so that
  the statements cover every sequence of them.
\<close>

section \<open>The engine as a state machine\<close>

datatype engine_call =
    Create string string
  | Delete string
  | Read string
  | Write string nat "storage_word_update list" nat
  | Unlock string nat
  | Undo string
  | Info string
  | Mark string "string option"
  | Folder string "string option"
  | Move string string
  | Checkpoint string string
  | Revert string string
  | Import string string

fun engine_run :: "io \<Rightarrow> time_t \<Rightarrow> engine_call \<Rightarrow> fs \<Rightarrow> storage_engine \<Rightarrow> storage_rc \<times> fs \<times> storage_engine" where
  "engine_run w now (Create n u) d e = storage_engine_create_file w now d e n u"
| "engine_run w now (Delete n) d e = storage_engine_delete_file d e n"
| "engine_run w now (Read n) d e = (case storage_engine_read w now d e n of (rc, _, s) \<Rightarrow> (rc, s))"
| "engine_run w now (Write n k us l) d e = (case storage_engine_write w now d e n k us l of (rc, _, s) \<Rightarrow> (rc, s))"
| "engine_run w now (Unlock n k) d e = (case storage_engine_unlock_sentence now d e n k of (rc, e') \<Rightarrow> (rc, d, e'))"
| "engine_run w now (Undo n) d e = storage_engine_undo w now d e n"
| "engine_run w now (Info n) d e = (case storage_engine_info now d e n of (rc, _, e') \<Rightarrow> (rc, d, e'))"
| "engine_run w now (Mark n u) d e = storage_engine_mark_access w now d e n u"
| "engine_run w now (Folder n u) d e = (case storage_engine_create_folder w d e n u of (rc, d') \<Rightarrow> (rc, d', e))"
| "engine_run w now (Move n v) d e = storage_engine_move_file w d e n v"
| "engine_run w now (Checkpoint n t) d e = storage_engine_checkpoint w now d e n t"
| "engine_run w now (Revert n t) d e = storage_engine_revert_checkpoint w now d e n t"
| "engine_run w now (Import n c) d e = storage_engine_import w now d e n c"

fun engine_runs :: "(io \<times> time_t \<times> engine_call) list \<Rightarrow> fs \<Rightarrow> storage_engine \<Rightarrow> fs \<times> storage_engine" where
  "engine_runs [] d e = (d, e)"
| "engine_runs ((w, now, c) # cs) d e = (case engine_run w now c d e of (rc, d', e') \<Rightarrow> engine_runs cs d' e')"

lemma engine_run_ok: "engine_run w now c d e = (rc, d', e') \<Longrightarrow> engine_ok e \<Longrightarrow> engine_ok e'"
  by (cases c) (auto split: prod.splits
      intro: create_file_ok delete_file_ok read_ok write_ok unlock_ok undo_ok info_ok mark_access_ok
        move_ok checkpoint_ok revert_ok import_ok)

lemma engine_runs_ok: "engine_ok e \<Longrightarrow> engine_ok (snd (engine_runs cs d e))"
proof (induction cs arbitrary: d e)
  case (Cons c cs)
  obtain w now k where c: "c = (w, now, k)" by (cases c)
  obtain rc d' e' where r: "engine_run w now k d e = (rc, d', e')" by (metis prod_cases3)
  from Cons.IH [OF engine_run_ok [OF r Cons.prems]] show ?case by (simp add: c r)
qed simp

lemma storage_engine_init_ok: "storage_engine_init w d b i = (Some e, d') \<Longrightarrow> engine_ok e"
  by (auto simp: storage_engine_init_def Let_def engine_ok_def split: prod.splits if_splits)

section \<open>Finding a file again\<close>

lemma get_or_load_find:
  assumes "get_or_load_file now d e n h = Some (e1, i)" and "length n < 256" and "engine_ok e"
  shows "find_file_locked e1 n = Some i"
proof (cases "find_file_locked e n")
  case (Some j)
  with assms(1) show ?thesis by (auto simp: get_or_load_file_def)
next
  case None
  with assms(1) have i: "i = length (se_files e)"
    by (auto simp: get_or_load_file_def Let_def split: option.splits)
  note G = get_or_load_ok [OF assms(1,3)]
  from None have none: "\<forall>f\<in>set (se_files e). sf_filename f \<noteq> n"
    by (simp add: find_file_locked_def find_file_from_None)
  obtain fs where fs: "se_files e1 = se_files e @ fs" using G(7) by blast
  show ?thesis
    using G(2,4) assms(2) none i fs
    by (intro find_file_locked_first) (auto simp: fit_id nth_append)
qed

lemma find_file_same_names:
  assumes "find_file_locked e n = Some i" and "map sf_filename (se_files e') = map sf_filename (se_files e)"
  shows "find_file_locked e' n = Some i"
proof -
  have len: "length (se_files e') = length (se_files e)" using assms(2) by (metis length_map)
  have nm: "sf_filename (se_files e' ! j) = sf_filename (se_files e ! j)" if "j < length (se_files e)" for j
    using assms(2) len that by (metis nth_map)
  show ?thesis using find_file_locked_Some [OF assms(1)] len nm
    by (intro find_file_locked_first) auto
qed

lemma get_or_load_found: "find_file_locked e n = Some i \<Longrightarrow> get_or_load_file now d e n h = Some (e, i)"
  by (simp add: get_or_load_file_def)

lemma find_after_upd:
  assumes "find_file_locked e n = Some i" and "sf_filename f = sf_filename (se_files e ! i)"
  shows "find_file_locked (upd_file i f e) n = Some i"
proof -
  have "map sf_filename (se_files (upd_file i f e)) = map sf_filename (se_files e)"
    using assms(2) by (metis list_update_id map_update upd_file_simps(3))
  with assms(1) show ?thesis by (rule find_file_same_names)
qed

section \<open>Undo\<close>

lemma undo_found:
  assumes "find_file_locked e n = Some i" and "sf_undo_snapshot (se_files e ! i) = Some c"
    and "storage_engine_undo w now d e n = (rc, d', e')"
  shows "rc = STORAGE_OK" and "sf_content (se_files e' ! i) = c"
    and "sf_undo_snapshot (se_files e' ! i) = Some (sf_content (se_files e ! i))"
    and "find_file_locked e' n = Some i"
proof -
  from find_file_locked_Some [OF assms(1)] have i: "i < length (se_files e)" by simp
  let ?f = "update_metadata_from_content ((se_files e ! i)\<lparr>sf_content := c,
      sf_undo_snapshot := Some (sf_content (se_files e ! i)), sf_modified_at := now, sf_last_accessed := now\<rparr>)"
  have "rc = STORAGE_OK \<and> e' = upd_file i ?f e"
    using assms by (auto simp: storage_engine_undo_def get_or_load_found Let_def split: prod.splits)
  then show "rc = STORAGE_OK" "sf_content (se_files e' ! i) = c"
    "sf_undo_snapshot (se_files e' ! i) = Some (sf_content (se_files e ! i))"
    "find_file_locked e' n = Some i"
    using i find_after_upd [OF assms(1), of ?f] by (simp_all add: engine_simps)
qed

section \<open>Documents on disk\<close>

lemma build_paths_Some:
  "build_paths e n len = Some (fp, mp, up) \<longleftrightarrow> ss_file_path len (se_root_path e) (se_ss_id e) n = Some fp
     \<and> ss_metadata_path len (se_root_path e) (se_ss_id e) n = Some mp
     \<and> ss_undo_path len (se_root_path e) (se_ss_id e) n = Some up"
  by (auto simp: build_paths_def split: option.splits)

lemma build_paths_seq: "build_paths (e\<lparr>se_undo_seq := s\<rparr>) n len = build_paths e n len"
  "build_paths (upd_file i f e) n len = build_paths e n len"
  by (simp_all add: build_paths_def engine_simps split: option.splits)

lemma persist_all_saved:
  assumes "persist_all w d e f = ((True, True, True), d')" and "clean_path (sf_filename f)"
    and "sf_undo_snapshot f = Some u"
  obtains fp mp up where "build_paths e (sf_filename f) PATH_MAX = Some (fp, mp, up)"
    and "read_file_if_exists d' fp = Some (sf_content f)"
    and "read_file_if_exists d' mp = Some (metadata_json f)"
    and "read_file_if_exists d' up = Some u"
proof -
  from assms(1) obtain d1 d2 where c: "persist_content w d e f = (True, d1)"
    and m: "persist_metadata w d1 e f = (True, d2)" and u: "persist_undo w d2 e f = (True, d')"
    by (auto simp: persist_all_def Let_def split: prod.splits)
  then obtain fp mp up where p: "build_paths e (sf_filename f) PATH_MAX = Some (fp, mp, up)"
    by (cases "build_paths e (sf_filename f) PATH_MAX") (auto simp: persist_content_def)
  have w: "atomic_write w d fp (sf_content f) = (True, d1)"
      "atomic_write w d1 mp (metadata_json f) = (True, d2)" "atomic_write w d2 up u = (True, d')"
    using c m u p assms(3)
    by (auto simp: persist_content_def persist_metadata_def persist_undo_def split: if_splits)
  from p have a: "paths_apart fp mp" "paths_apart fp up" "paths_apart mp up"
    unfolding build_paths_Some by (auto intro: store_paths_apart [OF assms(2)])
  show ?thesis
  proof (rule that [OF p])
    show "read_file_if_exists d' fp = Some (sf_content f)"
      using disk.stored_then_two [OF w a(1,2)] .
    show "read_file_if_exists d' mp = Some (metadata_json f)"
      using disk.stored_then_other [OF w(2,3) a(3)] .
    show "read_file_if_exists d' up = Some u" using disk.fetch_stored [OF w(3)] .
  qed
qed

lemma load_saved:
  assumes "build_paths e (fit 256 n) PATH_MAX = Some (fp, mp, up)"
    and "read_file_if_exists d fp = Some c" and "read_file_if_exists d up = u"
    and "se_files e = []"
  shows "\<exists>e1. get_or_load_file now d e n h = Some (e1, 0) \<and> length (se_files e1) = 1
    \<and> sf_content (se_files e1 ! 0) = c \<and> sf_undo_snapshot (se_files e1 ! 0) = u"
  using assms
  by (simp add: get_or_load_file_def find_file_locked_def load_file_from_disk_def Let_def engine_simps)

section \<open>Checkpoint files are apart from everything else\<close>

lemma valid_tag_no_slash: "is_valid_checkpoint_tag t \<Longrightarrow> SLASH \<notin> set t"
  by (auto simp: is_valid_checkpoint_tag_def list_all_iff Let_def)

lemma clean_checkpoint:
  assumes "clean_path n" and "is_valid_checkpoint_tag t"
  shows "clean_path (''checkpoints'' @ SLASH # n @ SLASH # t @ ''.chk'')"
    and "components (''checkpoints'' @ SLASH # n @ SLASH # t @ ''.chk'') = ''checkpoints'' # components n @ [t @ ''.chk'']"
proof -
  have s: "SLASH \<notin> set (t @ ''.chk'')" using valid_tag_no_slash [OF assms(2)] by auto
  have "clean_path ([] @ t @ ''.chk'')"
    using clean_path_ext [of t "''.chk''"] valid_tag_no_slash [OF assms(2)] assms(2)
    by (auto simp: is_valid_checkpoint_tag_def clean_path_def components_single list_all_iff)
  then have c: "clean_path (n @ SLASH # t @ ''.chk'')" using assms(1) by (simp add: clean_path_sep)
  from clean_under [OF c, of "''checkpoints''"]
  show "clean_path (''checkpoints'' @ SLASH # n @ SLASH # t @ ''.chk'')"
    "components (''checkpoints'' @ SLASH # n @ SLASH # t @ ''.chk'') = ''checkpoints'' # components n @ [t @ ''.chk'']"
    using components_single [OF _ s] by (auto simp: tokens_append_sep)
qed

lemma checkpoint_paths_apart:
  assumes "ss_checkpoint_path len b i n t = Some cp" and "clean_path n" and "is_valid_checkpoint_tag t"
    and "clean_path m" and "ss_file_path len' b i m = Some fp" and "ss_metadata_path len' b i m = Some mp"
    and "ss_undo_path len' b i m = Some up"
  shows "paths_apart cp fp" and "paths_apart cp mp" and "paths_apart cp up"
proof -
  have me: "clean_path (m @ ''.meta.json'')" and ue: "clean_path (m @ ''.undo.json'')"
    using assms(4) by (auto intro!: clean_path_ext)
  note F = clean_under [OF assms(4), of "''files''"] and M = clean_under [OF me, of "''metadata''"]
    and U = clean_under [OF ue, of "''undo''"]
  note C = clean_checkpoint [OF assms(2,3)]
  have r: "ss_root b i \<noteq> []" by (simp add: ss_root_def)
  note A = apart_below [OF r C(1)]
  show "paths_apart cp fp" using A [of "''files'' @ SLASH # m"] F C(2)
      ss_checkpoint_path_Some [OF assms(1)] ss_file_path_Some [OF assms(5)] by simp
  show "paths_apart cp mp" using A [of "''metadata'' @ SLASH # m @ ''.meta.json''"] M C(2)
      ss_checkpoint_path_Some [OF assms(1)] ss_metadata_path_Some [OF assms(6)] by simp
  show "paths_apart cp up" using A [of "''undo'' @ SLASH # m @ ''.undo.json''"] U C(2)
      ss_checkpoint_path_Some [OF assms(1)] ss_undo_path_Some [OF assms(7)] by simp
qed

section \<open>No operation alters a checkpoint\<close>

definition cp_safe :: "storage_engine \<Rightarrow> string \<Rightarrow> bool" where
  "cp_safe e cp \<longleftrightarrow> (\<forall>m fp mp up. clean_path m \<longrightarrow> build_paths e m PATH_MAX = Some (fp, mp, up)
     \<longrightarrow> paths_apart cp fp \<and> paths_apart cp mp \<and> paths_apart cp up)"

lemma cp_safe_checkpoint:
  "ss_checkpoint_path PATH_MAX (se_root_path e) (se_ss_id e) n t = Some cp \<Longrightarrow> clean_path n
     \<Longrightarrow> is_valid_checkpoint_tag t \<Longrightarrow> cp_safe e cp"
  unfolding cp_safe_def build_paths_Some by (metis checkpoint_paths_apart)

lemma cp_safe_paths: "se_root_path e' = se_root_path e \<Longrightarrow> se_ss_id e' = se_ss_id e \<Longrightarrow> cp_safe e' cp = cp_safe e cp"
  by (simp add: cp_safe_def build_paths_Some)

lemma unlink_keeps:
  assumes "paths_apart j k" and "read_file_if_exists d j = Some x"
  shows "read_file_if_exists (sys_unlink d k) j = Some x"
proof -
  from assms(2) obtain q where q: "resolve d j = Inr q" "node_at d q = Some (Reg x)"
    by (auto simp: read_file_Some)
  show ?thesis
  proof (cases "\<exists>p b. resolve d k = Inr p \<and> node_at d p = Some (Reg b)")
    case False
    then have "sys_unlink d k = d"
      by (auto simp: sys_unlink_def split: sum.splits option.splits node.splits)
    with assms(2) show ?thesis by simp
  next
    case True
    then obtain p b where p: "resolve d k = Inr p" "node_at d p = Some (Reg b)" by blast
    then have u: "sys_unlink d k = fs_del p d" by (simp add: sys_unlink_def)
    from assms(1) p(1) q(1) have "q \<noteq> p" by (auto simp: paths_apart_def)
    moreover have "resolve (fs_del p d) j = Inr q"
      using q(1) p(2) by (intro resolve_mono [of d "fs_del p d"]) (auto simp: node_at_del)
    ultimately show ?thesis using q(2) by (auto simp: u read_file_Some node_at_del)
  qed
qed

lemma persist_keeps:
  assumes "clean_path (sf_filename f)" and "cp_safe e cp" and "read_file_if_exists d cp = Some x"
  shows "read_file_if_exists (snd (persist_content w d e f)) cp = Some x"
    and "read_file_if_exists (snd (persist_metadata w d e f)) cp = Some x"
    and "read_file_if_exists (snd (persist_undo w d e f)) cp = Some x"
proof -
  have A: "read_file_if_exists (snd (atomic_write w d k b)) cp = Some x" if "paths_apart cp k" for k b
    using disk.fetch_apart [OF _ that assms(3), of w b] by (metis prod.collapse)
  have P: "paths_apart cp fp \<and> paths_apart cp mp \<and> paths_apart cp up"
    if "build_paths e (sf_filename f) PATH_MAX = Some (fp, mp, up)" for fp mp up
    using that assms(1,2) unfolding cp_safe_def by blast
  show "read_file_if_exists (snd (persist_content w d e f)) cp = Some x"
    and "read_file_if_exists (snd (persist_metadata w d e f)) cp = Some x"
    and "read_file_if_exists (snd (persist_undo w d e f)) cp = Some x"
    using assms(3) A unlink_keeps [OF _ assms(3)]
    by (auto simp: persist_content_def persist_metadata_def persist_undo_def split: option.splits dest!: P)
qed

lemma persist_all_keeps:
  assumes "clean_path (sf_filename f)" and "cp_safe e cp" and "read_file_if_exists d cp = Some x"
  shows "read_file_if_exists (snd (persist_all w d e f)) cp = Some x"
  using persist_keeps [OF assms(1,2)] assms(3)
  by (simp add: persist_all_def Let_def case_prod_unfold)

definition good_name :: "string \<Rightarrow> bool" where
  "good_name n \<longleftrightarrow> clean_path n \<and> length n < 256"

fun plain_call :: "engine_call \<Rightarrow> bool" where
  "plain_call (Create n u) = good_name n"
| "plain_call (Delete n) = good_name n"
| "plain_call (Read n) = good_name n"
| "plain_call (Write n k us l) = good_name n"
| "plain_call (Unlock n k) = good_name n"
| "plain_call (Undo n) = good_name n"
| "plain_call (Info n) = good_name n"
| "plain_call (Mark n u) = good_name n"
| "plain_call (Folder n u) = True"
| "plain_call (Move n v) = False"
| "plain_call (Checkpoint n t) = good_name n"
| "plain_call (Revert n t) = good_name n"
| "plain_call (Import n c) = good_name n"

text \<open>Where an engine stores its files never changes.\<close>

definition same_store :: "storage_engine \<Rightarrow> storage_engine \<Rightarrow> bool" where
  "same_store e e' \<longleftrightarrow> se_root_path e' = se_root_path e \<and> se_ss_id e' = se_ss_id e"

lemma same_store_simps [simp]: "same_store e e" "same_store e (upd_file i f e1) = same_store e e1"
  "same_store e (e1\<lparr>se_undo_seq := s\<rparr>) = same_store e e1" "same_store e (e1\<lparr>se_files := fs\<rparr>) = same_store e e1"
  "same_store e (e1\<lparr>se_files := fs, se_file_capacity := k\<rparr>) = same_store e e1"
  by (simp_all add: same_store_def engine_simps)

lemma get_or_load_store: "get_or_load_file now d e n h = Some (e1, i) \<Longrightarrow> same_store e e1"
  by (auto simp: get_or_load_file_def Let_def split: option.splits)

lemma rename_in_memory_store: "same_store e (rename_in_memory e n m)"
  by (simp add: rename_in_memory_def split: option.splits)

lemma engine_run_store:
  assumes "engine_run w now c d e = (rc, d', e')" and "engine_ok e"
  shows "same_store e e'"
proof (cases c)
  case (Write n k us l)
  then obtain tok where "storage_engine_write w now d e n k us l = (rc, tok, d', e')"
    using assms(1) by (auto split: prod.splits)
  from this assms(2) show ?thesis by (cases rule: write_cases) (auto dest: get_or_load_store)
next
  case (Move n v)
  then show ?thesis using assms(1) move_engine rename_in_memory_store by fastforce
next
  case (Create n u)
  then show ?thesis using assms(1)
    by (auto simp: storage_engine_create_file_def Let_def dest!: get_or_load_store
        split: option.splits prod.splits if_splits)
next
  case (Checkpoint n t)
  then show ?thesis using assms(1)
    by (auto simp: storage_engine_checkpoint_def Let_def dest!: get_or_load_store
        split: option.splits prod.splits if_splits sum.splits)
next
  case (Revert n t)
  then show ?thesis using assms(1)
    by (auto simp: storage_engine_revert_checkpoint_def Let_def dest!: get_or_load_store
        split: option.splits prod.splits)
next
  case (Import n t)
  then show ?thesis using assms(1)
    by (auto simp: storage_engine_import_def Let_def dest!: get_or_load_store
        split: option.splits prod.splits if_splits)
next
  case (Delete n)
  then show ?thesis using assms(1)
    by (auto simp: storage_engine_delete_file_def Let_def split: option.splits)
qed (use assms(1) in \<open>auto simp: storage_engine_read_def storage_engine_unlock_sentence_def
    storage_engine_undo_def storage_engine_info_def storage_engine_mark_access_def Let_def
    split: option.splits prod.splits if_splits dest!: get_or_load_store\<close>)

text \<open>The part of the disk an operation on a well-named file may touch.\<close>

lemma loaded_name:
  assumes "get_or_load_file now d e n h = Some (e1, i)" and "engine_ok e" and "good_name n"
  shows "sf_filename (se_files e1 ! i) = n" and "clean_path n" and "cp_safe e1 cp = cp_safe e cp"
    and "cp_safe (upd_file j f e1) cp = cp_safe e cp"
proof -
  note G = get_or_load_ok [OF assms(1,2)]
  show "sf_filename (se_files e1 ! i) = n" "clean_path n"
    using G(4) assms(3) by (simp_all add: good_name_def fit_id)
  show "cp_safe e1 cp = cp_safe e cp" "cp_safe (upd_file j f e1) cp = cp_safe e cp"
    by (rule cp_safe_paths; simp add: engine_simps G(5,6))+
qed

lemma read_fs_le_snd: "fs_le d (snd r) \<Longrightarrow> read_file_if_exists d cp = Some x \<Longrightarrow> read_file_if_exists (snd r) cp = Some x"
  by (rule read_file_fs_le)

lemma ensure_dir_keeps:
  "read_file_if_exists d cp = Some x \<Longrightarrow> read_file_if_exists (snd (ensure_dir w d s)) cp = Some x"
  using ensure_dir_extends read_file_fs_le by (metis prod.collapse)

lemma atomic_write_keeps:
  "paths_apart cp k \<Longrightarrow> read_file_if_exists d cp = Some x
     \<Longrightarrow> read_file_if_exists (snd (atomic_write w d k b)) cp = Some x"
  using disk.fetch_apart by (metis prod.collapse)

lemma file_call_keeps:
  assumes "engine_run w now c d e = (rc, d', e')" and "plain_call c" and "engine_ok e"
    and "cp_safe e cp" and "read_file_if_exists d cp = Some x"
    and "case c of Folder n u \<Rightarrow> False | Checkpoint n t \<Rightarrow> False | Write n k us l \<Rightarrow> False | Delete n \<Rightarrow> False | _ \<Rightarrow> True"
  shows "read_file_if_exists d' cp = Some x"
proof -
  have P: "read_file_if_exists (snd (persist_content w d2 e2 f)) cp = Some x"
      "read_file_if_exists (snd (persist_metadata w d2 e2 f)) cp = Some x"
      "read_file_if_exists (snd (persist_all w d2 e2 f)) cp = Some x"
    if "same_store e e2" "clean_path (sf_filename f)" "read_file_if_exists d2 cp = Some x" for e2 d2 f
    using that assms(4) persist_keeps persist_all_keeps cp_safe_paths unfolding same_store_def by metis+
  have L: "same_store e e1 \<and> clean_path (sf_filename (se_files e1 ! i))"
    if "get_or_load_file now d e n h = Some (e1, i)" "good_name n" for n h e1 i
    using loaded_name [OF that(1) assms(3) that(2)] get_or_load_store [OF that(1)] by metis
  show ?thesis
  proof (cases c)
    case (Create n u)
    then show ?thesis using assms(1,2,5)
      by (auto simp: storage_engine_create_file_def Let_def case_prod_unfold engine_simps
          intro!: P dest!: L split: option.splits if_splits)
  next
    case (Read n)
    then show ?thesis using assms(1,2,5)
      by (auto simp: storage_engine_read_def Let_def case_prod_unfold intro!: P dest!: L split: option.splits)
  next
    case (Unlock n k)
    then show ?thesis using assms(1,5) by (auto split: prod.splits)
  next
    case (Undo n)
    then show ?thesis using assms(1,2,5)
      by (auto simp: storage_engine_undo_def Let_def case_prod_unfold engine_simps
          intro!: P dest!: L split: option.splits)
  next
    case (Info n)
    then show ?thesis using assms(1,5) by (auto split: prod.splits)
  next
    case (Mark n u)
    then show ?thesis using assms(1,2,5)
      by (auto simp: storage_engine_mark_access_def Let_def case_prod_unfold
          intro!: P dest!: L split: option.splits list.splits)
  next
    case (Revert n t)
    then show ?thesis using assms(1,2,5)
      by (auto simp: storage_engine_revert_checkpoint_def Let_def case_prod_unfold engine_simps
          intro!: P dest!: L split: option.splits)
  next
    case (Import n b)
    then show ?thesis using assms(1,2,5)
      by (auto simp: storage_engine_import_def Let_def case_prod_unfold engine_simps
          intro!: P dest!: L split: option.splits if_splits)
  qed (use assms(2,6) in auto)
qed

lemma delete_keeps:
  assumes "storage_engine_delete_file d e n = (rc, d', e')" and "good_name n" and "cp_safe e cp"
    and "read_file_if_exists d cp = Some x"
  shows "read_file_if_exists d' cp = Some x"
  using assms unfolding storage_engine_delete_file_def good_name_def cp_safe_def Let_def
  by (auto split: option.splits intro!: unlink_keeps)

lemma write_keeps:
  assumes "storage_engine_write w now d e n k us l = (rc, tok, d', e')" and "good_name n"
    and "engine_ok e" and "cp_safe e cp" and "read_file_if_exists d cp = Some x"
  shows "read_file_if_exists d' cp = Some x"
  using assms(1,3)
proof (cases rule: write_cases)
  case (written e1 i span m ws)
  note L = loaded_name [OF written(3) assms(3,2)]
  have "cp_safe (e1\<lparr>se_undo_seq := se_undo_seq e1 + 1\<rparr>) cp"
    using L(3) assms(4) by (simp add: cp_safe_def build_paths_seq)
  then show ?thesis unfolding written using L(1,2) assms(5)
    by (intro persist_all_keeps) (auto simp: engine_simps)
qed (use assms(5) in auto)

lemma resolve_components:
  "r \<noteq> [] \<Longrightarrow> components s = components t \<Longrightarrow> resolve d (r @ SLASH # s) = resolve d (r @ SLASH # t)"
  by (simp add: resolve_def tokens_append_sep)

lemma checkpoint_same_or_apart:
  assumes "ss_checkpoint_path len b i n t = Some cp" and "clean_path n" and "is_valid_checkpoint_tag t"
    and "ss_checkpoint_path len b i m u = Some k" and "clean_path m" and "is_valid_checkpoint_tag u"
  shows "paths_apart cp k \<or> (\<forall>d. resolve d cp = resolve d k)"
proof -
  let ?s = "''checkpoints'' @ SLASH # n @ SLASH # t @ ''.chk''"
    and ?t = "''checkpoints'' @ SLASH # m @ SLASH # u @ ''.chk''"
  have r: "ss_root b i \<noteq> []" by (simp add: ss_root_def)
  have c: "cp = ss_root b i @ SLASH # ?s" "k = ss_root b i @ SLASH # ?t"
    using ss_checkpoint_path_Some [OF assms(1)] ss_checkpoint_path_Some [OF assms(4)] by simp_all
  show ?thesis
  proof (cases "components ?s = components ?t")
    case True
    then show ?thesis using resolve_components [OF r True] unfolding c by blast
  next
    case False
    with apart_below [OF r clean_checkpoint(1) [OF assms(2,3)] clean_checkpoint(1) [OF assms(5,6)]]
    show ?thesis unfolding c by blast
  qed
qed

lemma checkpoint_keeps:
  assumes "storage_engine_checkpoint w now d e m u = (rc, d', e')" and "good_name m"
    and "ss_checkpoint_path PATH_MAX (se_root_path e) (se_ss_id e) n t = Some cp" and "clean_path n"
    and "is_valid_checkpoint_tag t" and "read_file_if_exists d cp = Some x"
  shows "read_file_if_exists d' cp = Some x"
proof -
  have E: "read_file_if_exists (snd (ensure_dir w d s)) cp = Some x" for s
    using ensure_dir_keeps [OF assms(6)] .
  have A: "read_file_if_exists (snd (atomic_write w d1 k b)) cp = Some x"
    if "ss_checkpoint_path PATH_MAX (se_root_path e) (se_ss_id e) m u = Some k" "is_valid_checkpoint_tag u"
      "sys_stat d1 k = Inl err" "read_file_if_exists d1 cp = Some x" for k d1 b err
  proof -
    have "resolve d1 cp \<noteq> resolve d1 k"
      using that(3,4) by (auto simp: sys_stat_def read_file_Some split: sum.splits option.splits)
    with checkpoint_same_or_apart [OF assms(3-5) that(1) _ that(2)] assms(2)
    have "paths_apart cp k" unfolding good_name_def by blast
    then show ?thesis using that(4) by (rule atomic_write_keeps)
  qed
  show ?thesis
    using assms(1,6) E
    by (auto simp: storage_engine_checkpoint_def Let_def case_prod_unfold same_store_def
        split: if_splits option.splits sum.splits intro!: A dest!: get_or_load_store)
qed

lemma store_keeps:
  assumes "paths_apart cp k" and "read_file_if_exists d cp = Some x"
  shows "read_file_if_exists (sys_store d k b) cp = Some x"
proof -
  from assms(2) obtain q where q: "resolve d cp = Inr q" "node_at d q = Some (Reg x)"
    by (auto simp: read_file_Some)
  show ?thesis
  proof (cases "\<exists>p. resolve d k = Inr p \<and> node_at d p \<noteq> Some Dir")
    case False
    then have "sys_store d k b = d" by (auto simp: sys_store_def split: sum.splits)
    with assms(2) show ?thesis by simp
  next
    case True
    then obtain p where p: "resolve d k = Inr p" "node_at d p \<noteq> Some Dir" by blast
    then have u: "sys_store d k b = fs_put p (Reg b) d" by (simp add: sys_store_def)
    from assms(1) p(1) q(1) have "q \<noteq> p" by (auto simp: paths_apart_def)
    moreover have "resolve (fs_put p (Reg b) d) cp = Inr q"
      using q(1) p(2) by (intro resolve_mono [of d "fs_put p (Reg b) d"]) (auto simp: node_at_put)
    ultimately show ?thesis using q(2) by (auto simp: u read_file_Some node_at_put)
  qed
qed

lemma folder_keeps:
  assumes "storage_engine_create_folder w d e m u = (rc, d')"
    and "ss_checkpoint_path PATH_MAX (se_root_path e) (se_ss_id e) n t = Some cp" and "clean_path n"
    and "is_valid_checkpoint_tag t" and "read_file_if_exists d cp = Some x"
  shows "read_file_if_exists d' cp = Some x"
proof -
  have A: "read_file_if_exists (sys_store d1 (fp @ ''/.folder_meta'') b) cp = Some x"
    if "ss_file_path PATH_MAX (se_root_path e) (se_ss_id e) rel = Some fp"
      "normalize_relative_path m PATH_MAX = Some rel" "read_file_if_exists d1 cp = Some x" for rel fp d1 b
  proof -
    have "clean_path ''.folder_meta''" by (simp add: clean_path_def components_single)
    then have c: "clean_path (rel @ SLASH # ''.folder_meta'')"
      using normalize_tidy [OF that(2)] by (simp add: tidy_path_def clean_path_sep)
    have "paths_apart cp (fp @ ''/.folder_meta'')"
      using apart_below [OF _ clean_checkpoint(1) [OF assms(3,4)], of "ss_root (se_root_path e) (se_ss_id e)"
          "''files'' @ SLASH # rel @ SLASH # ''.folder_meta''"]
        clean_under [OF c, of "''files''"] clean_checkpoint(2) [OF assms(3,4)]
        ss_checkpoint_path_Some [OF assms(2)] ss_file_path_Some [OF that(1)] by (simp add: ss_root_def)
    then show ?thesis using that(3) by (rule store_keeps)
  qed
  show ?thesis using assms(1,5) ensure_dir_keeps [OF assms(5)]
    by (auto simp: storage_engine_create_folder_def Let_def case_prod_unfold
        split: if_splits option.splits sum.splits node.splits intro!: A)
qed

lemma engine_run_keeps:
  assumes "engine_run w now c d e = (rc, d', e')" and "plain_call c" and "engine_ok e"
    and "ss_checkpoint_path PATH_MAX (se_root_path e) (se_ss_id e) n t = Some cp" and "clean_path n"
    and "is_valid_checkpoint_tag t" and "read_file_if_exists d cp = Some x"
  shows "read_file_if_exists d' cp = Some x"
proof -
  note safe = cp_safe_checkpoint [OF assms(4-6)]
  show ?thesis
  proof (cases c)
    case (Folder m u)
    then show ?thesis using folder_keeps [OF _ assms(4-7)] assms(1) by (auto split: prod.splits)
  next
    case (Checkpoint m u)
    then show ?thesis using checkpoint_keeps [OF _ _ assms(4-7)] assms(1,2) by auto
  next
    case (Write m k us l)
    then show ?thesis using write_keeps [OF _ _ assms(3) safe assms(7)] assms(1,2)
      by (auto split: prod.splits)
  next
    case (Delete m)
    then show ?thesis using delete_keeps [OF _ _ safe assms(7)] assms(1,2) by auto
  qed (use file_call_keeps [OF assms(1-3) safe assms(7)] in auto)
qed

lemma engine_runs_keeps:
  assumes "engine_runs cs d e = (d', e')" and "\<forall>(w, now, c)\<in>set cs. plain_call c" and "engine_ok e"
    and "ss_checkpoint_path PATH_MAX (se_root_path e) (se_ss_id e) n t = Some cp" and "clean_path n"
    and "is_valid_checkpoint_tag t" and "read_file_if_exists d cp = Some x"
  shows "read_file_if_exists d' cp = Some x \<and> same_store e e' \<and> engine_ok e'"
  using assms
proof (induction cs arbitrary: d e)
  case (Cons a cs)
  obtain w now k where a: "a = (w, now, k)" by (cases a)
  obtain rc d1 e1 where r: "engine_run w now k d e = (rc, d1, e1)" by (metis prod_cases3)
  note st = engine_run_store [OF r Cons.prems(3)]
  have "read_file_if_exists d1 cp = Some x"
    using engine_run_keeps [OF r _ Cons.prems(3-7)] Cons.prems(2) a by auto
  moreover have "engine_ok e1" using engine_run_ok [OF r Cons.prems(3)] .
  moreover have "engine_runs cs d1 e1 = (d', e')" using Cons.prems(1) a r by simp
  ultimately show ?case using Cons.IH [of d1 e1] Cons.prems st by (auto simp: same_store_def)
qed auto

end
