(* ===== verification/Engine_Properties.thy ===== *)
theory Engine_Properties
  imports Engine_Correct
begin

text \<open>
  The properties of the storage engine: statements on the public operations with concrete
  instances. The instances use a store under \<open>b/ss_data_s\<close> whose directories exist and
  a file system without faults.
\<close>

section \<open>A concrete store\<close>

definition io_fine :: io where
  "io_fine = \<lparr>io_mkdir = (\<lambda>_. True), io_mkstemp = (\<lambda>_. Some ''AAAAAA''), io_write = (\<lambda>_ n. int n),
     io_fsync = (\<lambda>_. True), io_rename = (\<lambda>_. True)\<rparr>"

definition disk0 :: fs where
  "disk0 = \<lparr>fs_cwd = [], fs_nodes = [([''b''], Dir), ([''b'', ''ss_data_s''], Dir),
     ([''b'', ''ss_data_s'', ''files''], Dir), ([''b'', ''ss_data_s'', ''metadata''], Dir),
     ([''b'', ''ss_data_s'', ''undo''], Dir), ([''b'', ''ss_data_s'', ''checkpoints''], Dir)]\<rparr>"

definition doc0 :: storage_file where
  "doc0 = update_metadata_from_content ((allocate_file ''a'' (Some ''u''))\<lparr>sf_content := ''Hi you. Bye''\<rparr>)"

definition engine0 :: storage_engine where
  "engine0 = \<lparr>se_root_path = ''b'', se_ss_id = ''s'', se_files = [doc0], se_file_capacity = 4, se_undo_seq = 0\<rparr>"

definition edit0 :: "storage_word_update list" where
  "edit0 = [\<lparr>wu_index = 1, wu_text = Some ''to all''\<rparr>]"

lemmas path_eval = ss_root_path_def ss_file_path_def ss_metadata_path_def ss_undo_path_def
  ss_checkpoint_dir_def ss_checkpoint_path_def write_path_def PATH_MAX_def build_paths_def

lemmas disk_eval = io_fine_def disk0_def atomic_write_def ensure_parent_dir_def ensure_dir.simps
  sys_mkdir_def resolve_def tokens_cons path_step_def node_at_def fs_put_def fs_del_def sys_stat_def
  sys_mkstemp_def sys_store_def sys_rename_def sys_unlink_def strrchr_def fit_def Let_def PATH_MAX_def

lemmas text_eval = compute_spans_def spans_loop.simps skip_ws.simps is_delim_def is_ws_def
  select_span_def span_text_def tokenize_words_tokens c_str_def tokens_cons count_words_def

lemma doc0_content: "sf_content doc0 = ''Hi you. Bye''" "sf_filename doc0 = ''a''"
  by (simp_all add: doc0_def engine_simps fit_def)

lemma doc0_ok: "file_ok doc0"
  unfolding doc0_def by (rule file_ok_update)
    (auto simp: locks_free_def names_fit_def allocate_file_def fit_def)

lemma engine0_ok: "engine_ok engine0"
  by (simp add: engine_ok_def engine0_def doc0_ok)

lemma engine0_find: "find_file_locked engine0 ''a'' = Some 0"
  by (simp add: find_file_locked_def engine0_def doc0_content)

lemma engine0_fields: "se_root_path engine0 = ''b''" "se_ss_id engine0 = ''s''"
  by (simp_all add: engine0_def)

lemma doc0_spans: "compute_spans ''Hi you. Bye'' = [\<lparr>sp_start = 0, sp_length = 7\<rparr>]"
  by (simp add: text_eval)

lemma good_name_a: "good_name ''a''"
  by (simp add: good_name_def clean_path_def components_single)

lemma engine0_load: "get_or_load_file now d engine0 ''a'' h = Some (engine0, 0)"
  by (rule get_or_load_found) (rule engine0_find)

lemma engine0_file: "se_files engine0 ! 0 = doc0"
  by (simp add: engine0_def)

lemma select0: "select_span (sf_content doc0) (compute_spans (sf_content doc0)) 0
    = Some (\<lparr>sp_start = 0, sp_length = 7\<rparr>, 1)"
  by (simp add: doc0_content doc0_spans select_span_def)

lemma apply0: "apply_updates (tokenize_words (span_text (sf_content doc0) \<lparr>sp_start = 0, sp_length = 7\<rparr>)) edit0
    = Inr [''Hi'', ''to'', ''all'', ''you.'']"
  by (simp add: edit0_def text_eval doc0_content)

lemma write0_OK: "fst (storage_engine_write w now d engine0 ''a'' 0 edit0 64) = STORAGE_OK"
proof -
  have "sl_held (sf_locks (ensure_sentence_capacity doc0 1) ! 0) = False"
  proof -
    have "0 < length (sf_locks (ensure_sentence_capacity doc0 1))"
      using ensure_capacity_length [of 1 doc0] by linarith
    with locks_free_capacity [OF file_ok_parts(1) [OF doc0_ok], of 1] show ?thesis
      by (metis list_all_length locks_free_def)
  qed
  then show ?thesis
    unfolding storage_engine_write_def engine0_load option.case prod.case Let_def engine0_file
      spans_if_nonempty select0
    using apply0 by (simp add: edit0_def engine_simps case_prod_unfold)
qed

lemma write0:
  obtains tok d' e' where
    "storage_engine_write w now d engine0 ''a'' 0 edit0 64 = (STORAGE_OK, tok, d', e')"
  using write0_OK by (metis prod.collapse)

section \<open>Writing\<close>

text \<open>
  C1: a write that succeeds replaces one sentence, and nothing else. The new content is the old
  text before the chosen sentence, the sentence's words with the updates applied and joined by
  single spaces, and the old text behind it; every word of the old sentence is still there in
  order; the old content becomes the undo snapshot; no other loaded file changes.
\<close>

theorem write_replaces_sentence:
  assumes "engine_ok e"
    and "storage_engine_write w now d e n idx us tlen = (STORAGE_OK, tok, d', e')"
  shows "\<exists>e1 i span m ws. get_or_load_file now d e n None = Some (e1, i) \<and> i < length (se_files e1)
    \<and> select_span (sf_content (se_files e1 ! i)) (compute_spans (sf_content (se_files e1 ! i))) idx = Some (span, m)
    \<and> apply_updates (tokenize_words (span_text (sf_content (se_files e1 ! i)) span)) us = Inr ws
    \<and> subseq (tokenize_words (span_text (sf_content (se_files e1 ! i)) span)) ws
    \<and> sp_start span + sp_length span \<le> length (sf_content (se_files e1 ! i))
    \<and> sf_content (se_files e' ! i) = take (sp_start span) (sf_content (se_files e1 ! i)) @ join_words ws
        @ drop (sp_start span + sp_length span) (sf_content (se_files e1 ! i))
    \<and> sf_undo_snapshot (se_files e' ! i) = Some (sf_content (se_files e1 ! i))
    \<and> length (se_files e') = length (se_files e1)
    \<and> (\<forall>j. j \<noteq> i \<longrightarrow> se_files e' ! j = se_files e1 ! j)"
  using assms(2,1)
proof (cases rule: write_cases)
  case (written e1 i span m ws)
  note G = get_or_load_ok [OF written(3) assms(1)]
  have "i < length (se_files e1)" by (rule G)
  with written select_span_bounds(2) [OF written(4)] apply_updates_subseq [OF written(5)]
  show ?thesis by (intro exI [of _ e1] exI [of _ i] exI [of _ span] exI [of _ m] exI [of _ ws])
      (simp add: engine_simps)
qed auto

theorem write_replaces_sentence_witness:
  "sf_content (se_files (snd (snd (snd (storage_engine_write io_fine 6 disk0 engine0 ''a'' 0 edit0 64)))) ! 0)
     = ''Hi to all you. Bye''"
proof -
  obtain tok d' e' where
    w: "storage_engine_write io_fine 6 disk0 engine0 ''a'' 0 edit0 64 = (STORAGE_OK, tok, d', e')"
    by (rule write0)
  from write_replaces_sentence [OF engine0_ok w]
  have "sf_content (se_files e' ! 0) = take 0 (sf_content doc0) @ join_words [''Hi'', ''to'', ''all'', ''you.'']
      @ drop 7 (sf_content doc0)"
    by (auto simp: engine0_load engine0_file select0 apply0)
  then show ?thesis by (simp add: w doc0_content)
qed





section \<open>The invariant\<close>

text \<open>
  C22: from a fresh engine, after any sequence of operations with any outcome of the file system,
  the character, word and sentence counts of every file are those of its content, every sentence
  has a lock and no sentence mutex is left held, names fit their buffers, and the table of files
  fits its capacity.
\<close>

theorem engine_invariant:
  assumes "storage_engine_init w d base_dir ss_id = (Some e, d0)"
  shows "engine_ok (snd (engine_runs cs d0 e))"
  using engine_runs_ok storage_engine_init_ok [OF assms] by blast

theorem engine_invariant_witness:
  "case storage_engine_init io_fine disk0 ''b'' ''s'' of
     (None, d) \<Rightarrow> False
   | (Some e, d) \<Rightarrow> engine_ok (snd (engine_runs [(io_fine, 5, Create ''n'' ''u'')] d e))"
proof -
  have "fst (storage_engine_init io_fine disk0 ''b'' ''s'') \<noteq> None"
    by (simp add: storage_engine_init_def ensure_engine_dirs_def ss_root_path_def write_path_def disk_eval)
  then obtain e d0 where "storage_engine_init io_fine disk0 ''b'' ''s'' = (Some e, d0)"
    by (metis option.exhaust prod.collapse)
  from engine_invariant [OF this, of "[(io_fine, 5, Create ''n'' ''u'')]"] this show ?thesis
    by (simp del: engine_runs.simps)
qed

text \<open>
  The engine's own sentence mutexes never refuse a write: in every reachable state
  \<open>storage_engine_write\<close> does not return \<open>STORAGE_ERR_LOCKED\<close>. Exclusion between
  clients rests on the lock table of the server alone.
\<close>

theorem write_never_locked:
  assumes "storage_engine_init w d base_dir ss_id = (Some e, d0)" and "engine_runs cs d0 e = (d1, e1)"
  shows "fst (storage_engine_write w' now d1 e1 n idx us tlen) \<noteq> STORAGE_ERR_LOCKED"
proof -
  have ok: "engine_ok e1" using engine_runs_ok [OF storage_engine_init_ok [OF assms(1)], of cs d0] assms(2) by simp
  obtain rc tok d' e' where r: "storage_engine_write w' now d1 e1 n idx us tlen = (rc, tok, d', e')"
    by (metis prod_cases4)
  from r ok have "rc \<noteq> STORAGE_ERR_LOCKED" by (cases rule: write_cases) auto
  with r show ?thesis by simp
qed

theorem write_never_locked_witness:
  "case storage_engine_init io_fine disk0 ''b'' ''s'' of
     (None, d) \<Rightarrow> False
   | (Some e, d) \<Rightarrow> fst (storage_engine_write io_fine 6 d e ''a'' 0 edit0 64) \<noteq> STORAGE_ERR_LOCKED"
proof -
  have "fst (storage_engine_init io_fine disk0 ''b'' ''s'') \<noteq> None"
    by (simp add: storage_engine_init_def ensure_engine_dirs_def ss_root_path_def write_path_def disk_eval)
  then obtain e d0 where i: "storage_engine_init io_fine disk0 ''b'' ''s'' = (Some e, d0)"
    by (metis option.exhaust prod.collapse)
  from write_never_locked [OF i, of "[]"] i show ?thesis by simp
qed

section \<open>Surviving a restart\<close>

lemma persist_set_lock:
  "metadata_json (set_lock i h l f) = metadata_json f"
  "persist_content w d e (set_lock i h l f) = persist_content w d e f"
  "persist_undo w d e (set_lock i h l f) = persist_undo w d e f"
  by (simp_all add: metadata_json_def persist_content_def persist_undo_def set_lock_def split: option.splits)

lemma persist_upd_file:
  "persist_content w d (upd_file j g e) f = persist_content w d e f"
  "persist_metadata w d (upd_file j g e) f = persist_metadata w d e f"
  "persist_undo w d (upd_file j g e) f = persist_undo w d e f"
  by (simp_all add: persist_content_def persist_metadata_def persist_undo_def build_paths_seq)

lemma persist_all_lock_free: "persist_all w d e (set_lock i h l f) = persist_all w d e f"
  "persist_all w d (upd_file j g e) f = persist_all w d e f"
proof -
  have "persist_metadata w d e (set_lock i h l f) = persist_metadata w d e f" for d
    by (simp only: persist_metadata_def persist_set_lock set_lock_simps)
  then show "persist_all w d e (set_lock i h l f) = persist_all w d e f"
    by (simp only: persist_all_def persist_set_lock)
  show "persist_all w d (upd_file j g e) f = persist_all w d e f"
    by (simp only: persist_all_def persist_upd_file)
qed

text \<open>
  C25: a write survives a restart. When the three saves of a successful write succeed, an engine
  that starts with an empty table on the same directory loads the document with the written
  content and with the previous content as its undo snapshot.
\<close>

theorem write_survives_restart:
  assumes "engine_ok e" and "good_name n"
    and "storage_engine_write w now d e n idx us tlen = (STORAGE_OK, tok, d', e')"
    and "find_file_locked e' n = Some i"
    and "fst (persist_all w d e' (se_files e' ! i)) = (True, True, True)"
  shows "\<exists>e2. get_or_load_file now' d' (e'\<lparr>se_files := [], se_file_capacity := 0\<rparr>) n h = Some (e2, 0)
    \<and> sf_content (se_files e2 ! 0) = sf_content (se_files e' ! i)
    \<and> sf_undo_snapshot (se_files e2 ! 0) = sf_undo_snapshot (se_files e' ! i)"
  using assms(3,1)
proof (cases rule: write_cases)
  case (written e1 j span m ws)
  note G = get_or_load_ok [OF written(3) assms(1)]
  note L = loaded_name [OF written(3) assms(1,2)]
  let ?e = "e1\<lparr>se_undo_seq := se_undo_seq e1 + 1\<rparr>"
  let ?f = "written_file now e1 (se_files e1 ! j) idx m span ws"
  have "find_file_locked ?e n = Some j"
    using get_or_load_find [OF written(3) _ assms(1)] assms(2) by (simp add: find_file_locked_def good_name_def)
  from find_after_upd [OF this, of "set_lock idx False False ?f"] assms(4)
  have ij: "i = j" by (simp add: written engine_simps)
  then have f: "se_files e' ! i = set_lock idx False False ?f" using G(2) by (simp add: written engine_simps)
  have p: "persist_all w d ?e ?f = ((True, True, True), d')"
    using assms(5) written(7) unfolding f unfolding written(6) persist_all_lock_free
    by (metis prod.collapse)
  have c: "clean_path (sf_filename ?f)" using L(1,2) by (simp add: engine_simps)
  have u: "sf_undo_snapshot ?f = Some (sf_content (se_files e1 ! j))" by (simp add: engine_simps)
  from persist_all_saved [OF p c u] obtain fp mp up where
    b: "build_paths ?e (sf_filename ?f) PATH_MAX = Some (fp, mp, up)"
    and r: "read_file_if_exists d' fp = Some (sf_content ?f)"
      "read_file_if_exists d' up = Some (sf_content (se_files e1 ! j))" by blast
  have "build_paths (e'\<lparr>se_files := [], se_file_capacity := 0\<rparr>) (fit 256 n) PATH_MAX = Some (fp, mp, up)"
    using b L(1) assms(2) unfolding written(6)
    by (simp add: engine_simps good_name_def fit_id build_paths_Some)
  from load_saved [OF this r(1) refl, of now' h] r(2) show ?thesis unfolding f by (auto simp: engine_simps)
qed auto

abbreviation store0 :: "(string \<times> bytes) list \<Rightarrow> fs" where
  "store0 fs \<equiv> disk0\<lparr>fs_nodes := fs_nodes disk0 @
     map (\<lambda>(n, b). ([''b'', ''ss_data_s''] @ components n, Reg b)) fs\<rparr>"

lemma save0_content: "atomic_write io_fine disk0 ''b/ss_data_s/files/a'' c = (True, store0 [(''files/a'', c)])"
  by (simp add: disk_eval)

lemma save0_meta:
  "atomic_write io_fine (store0 [(''files/a'', c)]) ''b/ss_data_s/metadata/a.meta.json'' m
     = (True, store0 [(''files/a'', c), (''metadata/a.meta.json'', m)])"
  by (simp add: disk_eval)

lemma save0_undo:
  "atomic_write io_fine (store0 [(''files/a'', c), (''metadata/a.meta.json'', m)]) ''b/ss_data_s/undo/a.undo.json'' u
     = (True, store0 [(''files/a'', c), (''metadata/a.meta.json'', m), (''undo/a.undo.json'', u)])"
  by (simp add: disk_eval)

lemma persist0:
  assumes "se_root_path e = ''b''" and "se_ss_id e = ''s''" and "sf_filename f = ''a''"
    and "sf_undo_snapshot f = Some u" and "length (metadata_json f) < 512"
  shows "persist_all io_fine disk0 e f = ((True, True, True),
    store0 [(''files/a'', sf_content f), (''metadata/a.meta.json'', metadata_json f), (''undo/a.undo.json'', u)])"
proof -
  have "build_paths e (sf_filename f) PATH_MAX
      = Some (''b/ss_data_s/files/a'', ''b/ss_data_s/metadata/a.meta.json'', ''b/ss_data_s/undo/a.undo.json'')"
    using assms by (simp add: path_eval)
  moreover have "(512 \<le> length (metadata_json f)) = False" using assms(5) by simp
  ultimately show ?thesis
    by (simp only: assms(4) persist_all_def persist_content_def persist_metadata_def persist_undo_def option.case
        prod.case Let_def save0_content save0_meta save0_undo if_False)
qed

lemma edited0_counts:
  "count_words ''Hi to all you. Bye'' = 5" "length (compute_spans ''Hi to all you. Bye'') = 1"
  by (simp_all add: text_eval)

theorem write_survives_restart_witness:
  "let (_, _, d', e') = storage_engine_write io_fine 6 disk0 engine0 ''a'' 0 edit0 64
   in map_option (\<lambda>(e2, i). sf_content (se_files e2 ! i))
        (get_or_load_file 9 d' (e'\<lparr>se_files := [], se_file_capacity := 0\<rparr>) ''a'' None) = Some ''Hi to all you. Bye''"
proof -
  obtain tok d' e' where
    w: "storage_engine_write io_fine 6 disk0 engine0 ''a'' 0 edit0 64 = (STORAGE_OK, tok, d', e')"
    by (rule write0)
  let ?f = "written_file 6 engine0 doc0 0 1 \<lparr>sp_start = 0, sp_length = 7\<rparr> [''Hi'', ''to'', ''all'', ''you.'']"
  from w engine0_ok have e': "e' = upd_file 0 (set_lock 0 False False ?f) (engine0\<lparr>se_undo_seq := se_undo_seq engine0 + 1\<rparr>)"
    by (cases rule: write_cases) (auto simp: engine0_load engine0_file select0 apply0)
  have f: "se_files e' ! 0 = set_lock 0 False False ?f" by (simp add: e' engine_simps engine0_def)
  have c: "sf_content ?f = ''Hi to all you. Bye''" by (simp add: engine_simps doc0_content)
  have m: "meta_ok ?f" unfolding written_file_def by (rule update_metadata_ok)
  have "sf_created_at ?f = 0"
    by (simp add: written_file_def write_new_content_def generate_undo_token_def Let_def engine_simps set_lock_def
        doc0_def allocate_file_def)
  moreover have "sf_word_count ?f = 5" "sf_char_count ?f = 18" "sf_sentence_count ?f = 1"
    using m unfolding meta_ok_def c edited0_counts by simp_all
  ultimately have l: "length (metadata_json ?f) < 512"
    by (simp add: metadata_json_def engine_simps doc0_content show_nat.simps show_int_def fit_def
        engine0_def show_nat_pad6_def) (simp add: doc0_def engine_simps allocate_file_def fit_def)
  have i: "find_file_locked e' ''a'' = Some 0"
    by (simp add: e' find_file_locked_def engine_simps engine0_def doc0_content)
  have "fst (persist_all io_fine disk0 e' (se_files e' ! 0)) = (True, True, True)"
    unfolding f persist_all_lock_free
    by (subst persist0 [OF _ _ _ written_file_simps(4) l])
      (simp_all add: e' engine_simps engine0_fields doc0_content)
  from write_survives_restart [OF engine0_ok good_name_a w i this, of 9 None] show ?thesis
    by (auto simp: w f engine_simps doc0_content)
qed

section \<open>Checkpoints\<close>


lemma checkpoint0:
  obtains d1 where "storage_engine_checkpoint io_fine 6 disk0 engine0 ''a'' ''t1'' = (STORAGE_OK, d1, engine0)"
proof -
  let ?dir = "''b/ss_data_s/checkpoints/a''"
  let ?d1 = "disk0\<lparr>fs_nodes := fs_nodes disk0 @ [([''b'', ''ss_data_s'', ''checkpoints'', ''a''], Dir)]\<rparr>"
  have p: "ss_checkpoint_dir PATH_MAX ''b'' ''s'' ''a'' = Some ?dir"
    "ss_checkpoint_path PATH_MAX ''b'' ''s'' ''a'' ''t1'' = Some (?dir @ ''/t1.chk'')"
    by (simp_all add: path_eval)
  have v: "is_valid_checkpoint_tag ''t1''" by (simp add: is_valid_checkpoint_tag_def)
  have e: "ensure_dir io_fine disk0 ?dir = (True, ?d1)" by (simp add: disk_eval)
  have s: "sys_stat ?d1 (?dir @ ''/t1.chk'') = Inl ENOENT" by (simp add: disk_eval)
  have a: "fst (atomic_write io_fine ?d1 (?dir @ ''/t1.chk'') c)" for c by (simp add: disk_eval)
  have "fst (storage_engine_checkpoint io_fine 6 disk0 engine0 ''a'' ''t1'') = STORAGE_OK
      \<and> snd (snd (storage_engine_checkpoint io_fine 6 disk0 engine0 ''a'' ''t1'')) = engine0"
    unfolding storage_engine_checkpoint_def engine0_load option.case prod.case Let_def engine0_fields p e s
      engine0_file using v a by (simp add: case_prod_unfold)
  then show ?thesis using that by (metis prod.collapse)
qed


section \<open>Creating and deleting\<close>

text \<open>
  Creating never overwrites a document. When the name already has content the call answers
  \<open>INVALID\<close> and neither the disk nor the loaded files change; otherwise the file ends up empty,
  owned by the caller and stamped with the time of the call.
\<close>

theorem create_never_overwrites:
  assumes "engine_ok e" and "get_or_load_file now d e n (Some u) = Some (e1, i)"
    and "storage_engine_create_file w now d e n u = (rc, d', e')"
  shows "if sf_content (se_files e1 ! i) \<noteq> [] then rc = STORAGE_ERR_INVALID \<and> d' = d \<and> e' = e1
    else (rc = STORAGE_OK \<or> rc = STORAGE_ERR_IO) \<and> sf_content (se_files e' ! i) = []
      \<and> sf_owner (se_files e' ! i) = fit 128 u \<and> sf_created_at (se_files e' ! i) = now"
  using assms(2,3) get_or_load_ok(2) [OF assms(2,1)]
  by (auto simp: storage_engine_create_file_def Let_def engine_simps split: if_splits prod.splits)

theorem create_never_overwrites_witness:
  "fst (storage_engine_create_file io_fine 6 disk0 engine0 ''a'' ''v'') = STORAGE_ERR_INVALID"
proof -
  obtain rc d' e' where r: "storage_engine_create_file io_fine 6 disk0 engine0 ''a'' ''v'' = (rc, d', e')"
    by (metis prod_cases3)
  from create_never_overwrites [OF engine0_ok engine0_load r] r show ?thesis
    by (simp add: engine0_file doc0_content)
qed

lemma unlink_gone: "read_file_if_exists (sys_unlink d k) k = None"
proof (rule ccontr)
  assume "read_file_if_exists (sys_unlink d k) k \<noteq> None"
  then obtain x where x: "read_file_if_exists (sys_unlink d k) k = Some x" by auto
  then obtain q where q: "resolve (sys_unlink d k) k = Inr q" "node_at (sys_unlink d k) q = Some (Reg x)"
    by (auto simp: read_file_Some)
  show False
  proof (cases "\<exists>p b. resolve d k = Inr p \<and> node_at d p = Some (Reg b)")
    case False
    then have "sys_unlink d k = d" by (auto simp: sys_unlink_def split: sum.splits option.splits node.splits)
    with q False show False by auto
  next
    case True
    then obtain p b where p: "resolve d k = Inr p" "node_at d p = Some (Reg b)" by blast
    then have u: "sys_unlink d k = fs_del p d" and "p \<noteq> []" by (auto simp: sys_unlink_def)
    have "resolve (fs_del p d) k = Inr p"
      using p by (intro resolve_mono [of d "fs_del p d"]) (auto simp: node_at_del)
    with q u \<open>p \<noteq> []\<close> show False by (simp add: node_at_del)
  qed
qed

lemma unlink_shrinks: "read_file_if_exists d j = None \<Longrightarrow> read_file_if_exists (sys_unlink d k) j = None"
proof -
  assume n: "read_file_if_exists d j = None"
  show ?thesis
  proof (cases "\<exists>p b. resolve d k = Inr p \<and> node_at d p = Some (Reg b)")
    case False
    then have "sys_unlink d k = d" by (auto simp: sys_unlink_def split: sum.splits option.splits node.splits)
    with n show ?thesis by simp
  next
    case True
    then obtain p b where p: "resolve d k = Inr p" "node_at d p = Some (Reg b)" by blast
    then have u: "sys_unlink d k = fs_del p d" and "p \<noteq> []" by (auto simp: sys_unlink_def)
    have "resolve d s = Inr q \<longleftrightarrow> resolve (fs_del p d) s = Inr q" for s q
      using p by (intro resolve_same_dirs) (auto simp: node_at_del)
    then have "read_file_if_exists (fs_del p d) j = Some x \<Longrightarrow> read_file_if_exists d j = Some x" for x
      unfolding read_file_Some by (auto simp: node_at_del split: if_splits)
    with n u show ?thesis by (cases "read_file_if_exists (fs_del p d) j") auto
  qed
qed

text \<open>
  Deleting removes a loaded document from the table and its content, metadata and undo files
  from the disk; a name that is not loaded is answered \<open>NOT_FOUND\<close> and nothing changes, even
  when the file is on disk.
\<close>

theorem delete_removes_files:
  assumes "build_paths e n PATH_MAX = Some (fp, mp, up)"
    and "storage_engine_delete_file d e n = (rc, d', e')"
  shows "if find_file_locked e n = None then rc = STORAGE_ERR_NOT_FOUND \<and> d' = d \<and> e' = e
    else rc = STORAGE_OK \<and> length (se_files e') + 1 = length (se_files e)
      \<and> read_file_if_exists d' fp = None \<and> read_file_if_exists d' mp = None \<and> read_file_if_exists d' up = None"
proof (cases "find_file_locked e n")
  case None
  with assms show ?thesis by (simp add: storage_engine_delete_file_def)
next
  case (Some i)
  with assms have "d' = sys_unlink (sys_unlink (sys_unlink d fp) mp) up" "rc = STORAGE_OK"
      "se_files e' = take i (se_files e) @ drop (i + 1) (se_files e)"
    by (auto simp: storage_engine_delete_file_def Let_def)
  with Some find_file_locked_Some [OF Some] show ?thesis
    by (auto simp: unlink_gone unlink_shrinks)
qed

theorem delete_removes_files_witness:
  "fst (storage_engine_delete_file disk0 engine0 ''a'') = STORAGE_OK
    \<and> read_file_if_exists (fst (snd (storage_engine_delete_file disk0 engine0 ''a''))) ''b/ss_data_s/files/a'' = None"
proof -
  have p: "build_paths engine0 ''a'' PATH_MAX = Some (''b/ss_data_s/files/a'',
      ''b/ss_data_s/metadata/a.meta.json'', ''b/ss_data_s/undo/a.undo.json'')"
    by (simp add: path_eval engine0_fields)
  obtain rc d' e' where r: "storage_engine_delete_file disk0 engine0 ''a'' = (rc, d', e')" by (metis prod_cases3)
  from delete_removes_files [OF p r] r show ?thesis by (simp add: engine0_find)
qed

section \<open>Behaviours callers should know\<close>

text \<open>
  Reading a name that has no file is not an error: the answer is \<open>STORAGE_OK\<close> with the
  empty text, because the file is created in memory on the way.
\<close>

theorem read_missing_is_empty:
  assumes "find_file_locked e n = None" and "build_paths e (fit 256 n) PATH_MAX = Some (fp, mp, up)"
    and "read_file_if_exists d fp = None"
  shows "fst (storage_engine_read w now d e n) = STORAGE_OK
    \<and> fst (snd (storage_engine_read w now d e n)) = Some []"
  using assms
  by (simp add: storage_engine_read_def get_or_load_file_def load_file_from_disk_def Let_def
      engine_simps case_prod_unfold c_str_def)

theorem read_missing_is_empty_witness:
  "fst (storage_engine_read io_fine 6 disk0 engine0 ''nope'') = STORAGE_OK
    \<and> fst (snd (storage_engine_read io_fine 6 disk0 engine0 ''nope'')) = Some []"
proof (rule read_missing_is_empty)
  show "find_file_locked engine0 ''nope'' = None"
    by (simp add: find_file_locked_def engine0_def doc0_content)
  show "build_paths engine0 (fit 256 ''nope'') PATH_MAX = Some (''b/ss_data_s/files/nope'',
      ''b/ss_data_s/metadata/nope.meta.json'', ''b/ss_data_s/undo/nope.undo.json'')"
    by (simp add: path_eval engine0_fields fit_def)
  show "read_file_if_exists disk0 ''b/ss_data_s/files/nope'' = None"
    by (simp add: read_file_if_exists_def disk_eval)
qed

lemma atomic_write_no_fsync:
  assumes "\<forall>p. \<not> io_fsync w p"
  shows "fst (atomic_write w d s b) = False"
  using assms by (auto simp: atomic_write_def Let_def split: prod.splits option.splits)

lemma failed_save_keeps:
  assumes "\<forall>p. \<not> io_fsync w p" and "read_file_if_exists d s = Some x"
  shows "read_file_if_exists (snd (atomic_write w d k b)) s = Some x"
  using disk.fetch_failed [OF _ assms(2), of w k b] atomic_write_no_fsync [OF assms(1)]
  by (metis prod.collapse)

text \<open>
  A write does not report that saving failed. On a file system where every \<open>fsync\<close> fails,
  a write still answers \<open>STORAGE_OK\<close> (the caller holds the new text in memory only) and every
  file on disk keeps its old content.
\<close>

theorem write_hides_failed_save:
  assumes "engine_ok e" and "\<forall>p. \<not> io_fsync w p"
    and "storage_engine_write w now d e n idx us tlen = (STORAGE_OK, tok, d', e')"
    and "read_file_if_exists d s = Some x"
  shows "read_file_if_exists d' s = Some x"
  using assms(3,1)
proof (cases rule: write_cases)
  case (written e1 i span m ws)
  have P: "read_file_if_exists (snd (persist_content w d2 e2 f)) s = Some x"
      "read_file_if_exists (snd (persist_metadata w d2 e2 f)) s = Some x"
      "sf_undo_snapshot f \<noteq> None \<Longrightarrow> read_file_if_exists (snd (persist_undo w d2 e2 f)) s = Some x"
    if "read_file_if_exists d2 s = Some x" for d2 e2 f
    using that failed_save_keeps [OF assms(2) that]
    by (auto simp: persist_content_def persist_metadata_def persist_undo_def split: option.splits)
  show ?thesis unfolding written(7) persist_all_def Let_def case_prod_unfold snd_conv
    by (intro P assms(4)) (simp add: engine_simps)
qed auto

theorem write_hides_failed_save_witness:
  "let (rc, _, d', e') = storage_engine_write (io_fine\<lparr>io_fsync := \<lambda>_. False\<rparr>) 6
       (store0 [(''files/a'', ''Hi you. Bye'')]) engine0 ''a'' 0 edit0 64
   in rc = STORAGE_OK \<and> read_file_if_exists d' ''b/ss_data_s/files/a'' = Some ''Hi you. Bye''"
proof -
  let ?w = "io_fine\<lparr>io_fsync := \<lambda>_. False\<rparr>"
  let ?d = "store0 [(''files/a'', ''Hi you. Bye'')]"
  obtain tok d' e' where w: "storage_engine_write ?w 6 ?d engine0 ''a'' 0 edit0 64 = (STORAGE_OK, tok, d', e')"
    by (rule write0)
  have "read_file_if_exists ?d ''b/ss_data_s/files/a'' = Some ''Hi you. Bye''"
    by (simp add: read_file_if_exists_def disk_eval)
  from write_hides_failed_save [OF engine0_ok _ w this]
  have "read_file_if_exists d' ''b/ss_data_s/files/a'' = Some ''Hi you. Bye''" by simp
  then show ?thesis unfolding w by simp
qed

end
