(* ===== verification/Protocol.thy ===== *)
theory Protocol
  imports C_Strings
begin

unbundle bit_operations_syntax

text \<open>
  The wire protocol of \<open>common/include/protocol.h\<close> and \<open>common/src/protocol.c\<close>: opcodes,
  error codes, and the 12-byte message header with its encoder and decoder. Integers keep their
  width. The encoder is modelled on the memory of a host of either byte order, and the main
  result is that the byte order does not matter: what is written is the big-endian layout, and
  decoding it on any host gives the header back.
\<close>

section \<open>Opcodes and error codes\<close>

datatype protocol_opcode_t =
    OP_REGISTER_SS | OP_REGISTER_CLIENT | OP_REGISTER_ACK | OP_HEARTBEAT | OP_LOOKUP_FILE
    | OP_LOOKUP_RESP | OP_COMMAND_FORWARD | OP_COMMAND_STATUS | OP_DATA_REQUEST
    | OP_DATA_RESPONSE | OP_DATA_CHUNK | OP_DATA_ACK | OP_WRITE_REQUEST | OP_WRITE_UPDATE
    | OP_WRITE_COMMIT | OP_WRITE_ACK | OP_STREAM_REQUEST | OP_INFO_REQUEST | OP_UNDO_REQUEST
    | OP_DELETE_REQUEST | OP_CREATEFOLDER_REQUEST | OP_MOVE_REQUEST | OP_VIEWFOLDER_REQUEST
    | OP_VIEWFOLDER_RESPONSE | OP_CHECKPOINT_REQUEST | OP_VIEWCHECKPOINT_REQUEST
    | OP_REVERT_CHECKPOINT_REQUEST | OP_LISTCHECKPOINTS_REQUEST | OP_LISTCHECKPOINTS_RESPONSE
    | OP_REPLICATE_FILE | OP_LIST_FOLDERS_REQUEST | OP_LIST_FOLDERS_RESPONSE | OP_STOP
    | OP_ERROR

primrec opcode_code :: "protocol_opcode_t \<Rightarrow> u16" where
  "opcode_code OP_REGISTER_SS = 0x0001"
| "opcode_code OP_REGISTER_CLIENT = 0x0002"
| "opcode_code OP_REGISTER_ACK = 0x8001"
| "opcode_code OP_HEARTBEAT = 0x0003"
| "opcode_code OP_LOOKUP_FILE = 0x0004"
| "opcode_code OP_LOOKUP_RESP = 0x8004"
| "opcode_code OP_COMMAND_FORWARD = 0x0005"
| "opcode_code OP_COMMAND_STATUS = 0x8005"
| "opcode_code OP_DATA_REQUEST = 0x0006"
| "opcode_code OP_DATA_RESPONSE = 0x8007"
| "opcode_code OP_DATA_CHUNK = 0x8006"
| "opcode_code OP_DATA_ACK = 0x0007"
| "opcode_code OP_WRITE_REQUEST = 0x0008"
| "opcode_code OP_WRITE_UPDATE = 0x0009"
| "opcode_code OP_WRITE_COMMIT = 0x000a"
| "opcode_code OP_WRITE_ACK = 0x800a"
| "opcode_code OP_STREAM_REQUEST = 0x000b"
| "opcode_code OP_INFO_REQUEST = 0x000c"
| "opcode_code OP_UNDO_REQUEST = 0x000d"
| "opcode_code OP_DELETE_REQUEST = 0x000e"
| "opcode_code OP_CREATEFOLDER_REQUEST = 0x000f"
| "opcode_code OP_MOVE_REQUEST = 0x0010"
| "opcode_code OP_VIEWFOLDER_REQUEST = 0x0011"
| "opcode_code OP_VIEWFOLDER_RESPONSE = 0x8011"
| "opcode_code OP_CHECKPOINT_REQUEST = 0x0012"
| "opcode_code OP_VIEWCHECKPOINT_REQUEST = 0x0013"
| "opcode_code OP_REVERT_CHECKPOINT_REQUEST = 0x0014"
| "opcode_code OP_LISTCHECKPOINTS_REQUEST = 0x0015"
| "opcode_code OP_LISTCHECKPOINTS_RESPONSE = 0x8015"
| "opcode_code OP_REPLICATE_FILE = 0x0016"
| "opcode_code OP_LIST_FOLDERS_REQUEST = 0x0017"
| "opcode_code OP_LIST_FOLDERS_RESPONSE = 0x8017"
| "opcode_code OP_STOP = 0x7fff"
| "opcode_code OP_ERROR = 0xffff"

definition all_opcodes :: "protocol_opcode_t list" where
  "all_opcodes = [OP_REGISTER_SS, OP_REGISTER_CLIENT, OP_REGISTER_ACK, OP_HEARTBEAT, OP_LOOKUP_FILE
     , OP_LOOKUP_RESP, OP_COMMAND_FORWARD, OP_COMMAND_STATUS, OP_DATA_REQUEST
     , OP_DATA_RESPONSE, OP_DATA_CHUNK, OP_DATA_ACK, OP_WRITE_REQUEST, OP_WRITE_UPDATE
     , OP_WRITE_COMMIT, OP_WRITE_ACK, OP_STREAM_REQUEST, OP_INFO_REQUEST, OP_UNDO_REQUEST
     , OP_DELETE_REQUEST, OP_CREATEFOLDER_REQUEST, OP_MOVE_REQUEST, OP_VIEWFOLDER_REQUEST
     , OP_VIEWFOLDER_RESPONSE, OP_CHECKPOINT_REQUEST, OP_VIEWCHECKPOINT_REQUEST
     , OP_REVERT_CHECKPOINT_REQUEST, OP_LISTCHECKPOINTS_REQUEST, OP_LISTCHECKPOINTS_RESPONSE
     , OP_REPLICATE_FILE, OP_LIST_FOLDERS_REQUEST, OP_LIST_FOLDERS_RESPONSE, OP_STOP, OP_ERROR]"

text \<open>The enumerator a 16-bit value stands for, when it stands for one.\<close>

definition opcode_of :: "u16 \<Rightarrow> protocol_opcode_t option" where
  "opcode_of c = find (\<lambda>op. opcode_code op = c) all_opcodes"

datatype protocol_error_t =
    ERR_OK | ERR_NO_ACCESS | ERR_FILE_NOT_FOUND | ERR_SENTENCE_LOCKED | ERR_INVALID_SENTENCE
    | ERR_INVALID_WORD | ERR_DUPLICATE | ERR_NOT_OWNER | ERR_UNREGISTERED_USER
    | ERR_STORAGE_DOWN | ERR_UNDO_EMPTY | ERR_EXECUTION_FAIL | ERR_PROTOCOL
    | ERR_FOLDER_EXISTS | ERR_NOT_A_FOLDER | ERR_FOLDER_NOT_EMPTY | ERR_CHECKPOINT_EXISTS
    | ERR_CHECKPOINT_NOT_FOUND | ERR_REQUEST_EXISTS | ERR_NO_REQUEST

primrec error_code :: "protocol_error_t \<Rightarrow> nat" where
  "error_code ERR_OK = 0"
| "error_code ERR_NO_ACCESS = 1"
| "error_code ERR_FILE_NOT_FOUND = 2"
| "error_code ERR_SENTENCE_LOCKED = 3"
| "error_code ERR_INVALID_SENTENCE = 4"
| "error_code ERR_INVALID_WORD = 5"
| "error_code ERR_DUPLICATE = 6"
| "error_code ERR_NOT_OWNER = 7"
| "error_code ERR_UNREGISTERED_USER = 8"
| "error_code ERR_STORAGE_DOWN = 9"
| "error_code ERR_UNDO_EMPTY = 10"
| "error_code ERR_EXECUTION_FAIL = 11"
| "error_code ERR_PROTOCOL = 12"
| "error_code ERR_FOLDER_EXISTS = 13"
| "error_code ERR_NOT_A_FOLDER = 14"
| "error_code ERR_FOLDER_NOT_EMPTY = 15"
| "error_code ERR_CHECKPOINT_EXISTS = 16"
| "error_code ERR_CHECKPOINT_NOT_FOUND = 17"
| "error_code ERR_REQUEST_EXISTS = 18"
| "error_code ERR_NO_REQUEST = 19"

primrec opcode_name :: "protocol_opcode_t \<Rightarrow> string" where
  "opcode_name OP_REGISTER_SS = ''OP_REGISTER_SS''"
| "opcode_name OP_REGISTER_CLIENT = ''OP_REGISTER_CLIENT''"
| "opcode_name OP_REGISTER_ACK = ''OP_REGISTER_ACK''"
| "opcode_name OP_HEARTBEAT = ''OP_HEARTBEAT''"
| "opcode_name OP_LOOKUP_FILE = ''OP_LOOKUP_FILE''"
| "opcode_name OP_LOOKUP_RESP = ''OP_LOOKUP_RESP''"
| "opcode_name OP_COMMAND_FORWARD = ''OP_COMMAND_FORWARD''"
| "opcode_name OP_COMMAND_STATUS = ''OP_COMMAND_STATUS''"
| "opcode_name OP_DATA_REQUEST = ''OP_DATA_REQUEST''"
| "opcode_name OP_DATA_RESPONSE = ''OP_DATA_RESPONSE''"
| "opcode_name OP_DATA_CHUNK = ''OP_DATA_CHUNK''"
| "opcode_name OP_DATA_ACK = ''OP_DATA_ACK''"
| "opcode_name OP_WRITE_REQUEST = ''OP_WRITE_REQUEST''"
| "opcode_name OP_WRITE_UPDATE = ''OP_WRITE_UPDATE''"
| "opcode_name OP_WRITE_COMMIT = ''OP_WRITE_COMMIT''"
| "opcode_name OP_WRITE_ACK = ''OP_WRITE_ACK''"
| "opcode_name OP_STREAM_REQUEST = ''OP_STREAM_REQUEST''"
| "opcode_name OP_INFO_REQUEST = ''OP_INFO_REQUEST''"
| "opcode_name OP_UNDO_REQUEST = ''OP_UNDO_REQUEST''"
| "opcode_name OP_DELETE_REQUEST = ''OP_DELETE_REQUEST''"
| "opcode_name OP_CREATEFOLDER_REQUEST = ''OP_CREATEFOLDER_REQUEST''"
| "opcode_name OP_MOVE_REQUEST = ''OP_MOVE_REQUEST''"
| "opcode_name OP_VIEWFOLDER_REQUEST = ''OP_VIEWFOLDER_REQUEST''"
| "opcode_name OP_VIEWFOLDER_RESPONSE = ''OP_VIEWFOLDER_RESPONSE''"
| "opcode_name OP_CHECKPOINT_REQUEST = ''OP_CHECKPOINT_REQUEST''"
| "opcode_name OP_VIEWCHECKPOINT_REQUEST = ''OP_VIEWCHECKPOINT_REQUEST''"
| "opcode_name OP_REVERT_CHECKPOINT_REQUEST = ''OP_REVERT_CHECKPOINT_REQUEST''"
| "opcode_name OP_LISTCHECKPOINTS_REQUEST = ''OP_LISTCHECKPOINTS_REQUEST''"
| "opcode_name OP_LISTCHECKPOINTS_RESPONSE = ''OP_LISTCHECKPOINTS_RESPONSE''"
| "opcode_name OP_REPLICATE_FILE = ''OP_REPLICATE_FILE''"
| "opcode_name OP_LIST_FOLDERS_REQUEST = ''OP_LIST_FOLDERS_REQUEST''"
| "opcode_name OP_LIST_FOLDERS_RESPONSE = ''OP_LIST_FOLDERS_RESPONSE''"
| "opcode_name OP_STOP = ''OP_STOP''"
| "opcode_name OP_ERROR = ''OP_ERROR''"

text \<open>The C function takes any value of the enumeration type and falls through to the default.\<close>

definition protocol_opcode_name :: "u16 \<Rightarrow> string" where
  "protocol_opcode_name c = (case opcode_of c of Some op \<Rightarrow> opcode_name op | None \<Rightarrow> ''OP_UNKNOWN'')"

primrec protocol_error_name :: "protocol_error_t \<Rightarrow> string" where
  "protocol_error_name ERR_OK = ''ERR_OK''"
| "protocol_error_name ERR_NO_ACCESS = ''ERR_NO_ACCESS''"
| "protocol_error_name ERR_FILE_NOT_FOUND = ''ERR_FILE_NOT_FOUND''"
| "protocol_error_name ERR_SENTENCE_LOCKED = ''ERR_SENTENCE_LOCKED''"
| "protocol_error_name ERR_INVALID_SENTENCE = ''ERR_INVALID_SENTENCE''"
| "protocol_error_name ERR_INVALID_WORD = ''ERR_INVALID_WORD''"
| "protocol_error_name ERR_DUPLICATE = ''ERR_DUPLICATE''"
| "protocol_error_name ERR_NOT_OWNER = ''ERR_NOT_OWNER''"
| "protocol_error_name ERR_UNREGISTERED_USER = ''ERR_UNREGISTERED_USER''"
| "protocol_error_name ERR_STORAGE_DOWN = ''ERR_STORAGE_DOWN''"
| "protocol_error_name ERR_UNDO_EMPTY = ''ERR_UNDO_EMPTY''"
| "protocol_error_name ERR_EXECUTION_FAIL = ''ERR_EXECUTION_FAIL''"
| "protocol_error_name ERR_PROTOCOL = ''ERR_PROTOCOL''"
| "protocol_error_name ERR_FOLDER_EXISTS = ''ERR_FOLDER_EXISTS''"
| "protocol_error_name ERR_NOT_A_FOLDER = ''ERR_NOT_A_FOLDER''"
| "protocol_error_name ERR_FOLDER_NOT_EMPTY = ''ERR_FOLDER_NOT_EMPTY''"
| "protocol_error_name ERR_CHECKPOINT_EXISTS = ''ERR_CHECKPOINT_EXISTS''"
| "protocol_error_name ERR_CHECKPOINT_NOT_FOUND = ''ERR_CHECKPOINT_NOT_FOUND''"
| "protocol_error_name ERR_REQUEST_EXISTS = ''ERR_REQUEST_EXISTS''"
| "protocol_error_name ERR_NO_REQUEST = ''ERR_NO_REQUEST''"

text \<open>Opcodes and error codes are ordered by their numeric value, as C compares them.\<close>

instantiation protocol_error_t :: linorder
begin

definition less_eq_protocol_error_t :: "protocol_error_t \<Rightarrow> protocol_error_t \<Rightarrow> bool" where
  "a \<le> b \<longleftrightarrow> error_code a \<le> error_code b"

definition less_protocol_error_t :: "protocol_error_t \<Rightarrow> protocol_error_t \<Rightarrow> bool" where
  "a < b \<longleftrightarrow> error_code a < error_code b"

instance
proof
  fix a b :: protocol_error_t
  assume "a \<le> b" and "b \<le> a"
  then have "error_code a = error_code b"
    by (simp add: less_eq_protocol_error_t_def)
  then show "a = b"
    by (cases a; simp; cases b; simp)
qed (auto simp: less_eq_protocol_error_t_def less_protocol_error_t_def)

end

lemma all_opcodes_complete: "op \<in> set all_opcodes"
  by (cases op) (simp_all add: all_opcodes_def)

lemma opcode_codes_distinct: "distinct (map opcode_code all_opcodes)"
  by (simp add: all_opcodes_def)

lemma opcode_names_distinct: "distinct (map opcode_name all_opcodes)"
  by (simp add: all_opcodes_def)

lemma opcode_code_inj: "opcode_code a = opcode_code b \<longleftrightarrow> a = b"
  using opcode_codes_distinct all_opcodes_complete
  by (auto simp: distinct_map dest: inj_onD)

lemma opcode_name_inj: "opcode_name a = opcode_name b \<longleftrightarrow> a = b"
  using opcode_names_distinct all_opcodes_complete
  by (auto simp: distinct_map dest: inj_onD)

lemma find_by_code:
  "op \<in> set ops \<Longrightarrow> find (\<lambda>x. opcode_code x = opcode_code op) ops = Some op"
  by (induction ops) (auto simp: opcode_code_inj)

lemma opcode_of_code [simp]: "opcode_of (opcode_code op) = Some op"
  unfolding opcode_of_def by (rule find_by_code) (rule all_opcodes_complete)

lemma opcode_of_Some: "opcode_of c = Some op \<longleftrightarrow> c = opcode_code op"
proof
  assume "opcode_of c = Some op"
  then show "c = opcode_code op" unfolding opcode_of_def by (auto dest: find_Some_mem)
qed simp

section \<open>The message header\<close>

record message_header =
  mh_version :: u16
  mh_opcode :: u16
  mh_request_id :: u32
  mh_payload_len :: u32

definition PROTOCOL_VERSION :: u16 where "PROTOCOL_VERSION = 1"
definition PROTOCOL_HEADER_SIZE :: nat where "PROTOCOL_HEADER_SIZE = 12"

subsection \<open>Host memory\<close>

text \<open>
  How a host keeps a 16- or 32-bit integer in memory (\<open>memcpy\<close> reads and writes these bytes);
  \<open>big\<close> says whether the host is big-endian. \<open>htons\<close> and \<open>htonl\<close> (and their inverses,
  which are the same functions) swap the bytes on a little-endian host.
\<close>

definition store16 :: "bool \<Rightarrow> u16 \<Rightarrow> u8 list" where
  "store16 big w = (let hi = ucast (drop_bit 8 w); lo = ucast w in if big then [hi, lo] else [lo, hi])"

definition load16 :: "bool \<Rightarrow> u8 \<Rightarrow> u8 \<Rightarrow> u16" where
  "load16 big a b = (if big then push_bit 8 (ucast a) OR ucast b else push_bit 8 (ucast b) OR ucast a)"

definition store32 :: "bool \<Rightarrow> u32 \<Rightarrow> u8 list" where
  "store32 big w = (let b3 = ucast (drop_bit 24 w); b2 = ucast (drop_bit 16 w);
      b1 = ucast (drop_bit 8 w); b0 = ucast w
    in if big then [b3, b2, b1, b0] else [b0, b1, b2, b3])"

definition load32 :: "bool \<Rightarrow> u8 \<Rightarrow> u8 \<Rightarrow> u8 \<Rightarrow> u8 \<Rightarrow> u32" where
  "load32 big a b c d =
     (if big then push_bit 24 (ucast a) OR push_bit 16 (ucast b) OR push_bit 8 (ucast c) OR ucast d
      else push_bit 24 (ucast d) OR push_bit 16 (ucast c) OR push_bit 8 (ucast b) OR ucast a)"

definition htons :: "bool \<Rightarrow> u16 \<Rightarrow> u16" where
  "htons big w = (if big then w else push_bit 8 w OR drop_bit 8 w)"

definition htonl :: "bool \<Rightarrow> u32 \<Rightarrow> u32" where
  "htonl big w = (if big then w
     else push_bit 24 w OR push_bit 16 (ucast (ucast (drop_bit 8 w) :: u8)) OR
          push_bit 8 (ucast (ucast (drop_bit 16 w) :: u8)) OR drop_bit 24 w)"

subsection \<open>Encoding and decoding\<close>

text \<open>A null pointer is \<open>None\<close>; the encoder returns the filled buffer or fails with -1.\<close>

definition protocol_encode_header :: "bool \<Rightarrow> message_header option \<Rightarrow> u8 list option" where
  "protocol_encode_header big header = (case header of
     None \<Rightarrow> None
   | Some h \<Rightarrow> Some (store16 big (htons big (mh_version h)) @
                     store16 big (htons big (mh_opcode h)) @
                     store32 big (htonl big (mh_request_id h)) @
                     store32 big (htonl big (mh_payload_len h))))"

definition protocol_decode_header :: "bool \<Rightarrow> u8 list option \<Rightarrow> message_header option" where
  "protocol_decode_header big inp = (case inp of
     Some [a0, a1, a2, a3, a4, a5, a6, a7, a8, a9, a10, a11] \<Rightarrow>
       Some \<lparr>mh_version = htons big (load16 big a0 a1),
             mh_opcode = htons big (load16 big a2 a3),
             mh_request_id = htonl big (load32 big a4 a5 a6 a7),
             mh_payload_len = htonl big (load32 big a8 a9 a10 a11)\<rparr>
   | _ \<Rightarrow> None)"

lemma store16_htons: "store16 big (htons big w) = store16 True w"
  by (auto simp: store16_def htons_def Let_def intro!: bit_word_eqI)
    (auto simp: bit_simps dest: bit_imp_le_length)

lemma htons_load16: "htons big (load16 big a b) = load16 True a b"
  by (auto simp: load16_def htons_def intro!: bit_word_eqI)
    (auto simp: bit_simps dest: bit_imp_le_length)

lemma store32_htonl: "store32 big (htonl big w) = store32 True w"
  by (auto simp: store32_def htonl_def Let_def intro!: bit_word_eqI)
    (auto simp: bit_simps dest: bit_imp_le_length)

lemma load16_store16: "store16 True w = [a, b] \<Longrightarrow> load16 True a b = w"
  by (auto simp: load16_def store16_def Let_def intro!: bit_word_eqI)
    (auto simp: bit_simps dest: bit_imp_le_length)

lemma load32_store32: "store32 True w = [a, b, c, d] \<Longrightarrow> load32 True a b c d = w"
proof (rule bit_word_eqI)
  fix n :: nat
  assume w: "store32 True w = [a, b, c, d]" and n: "n < LENGTH(32)"
  then consider "n < 8" | "8 \<le> n" "n < 16" | "16 \<le> n" "n < 24" | "24 \<le> n" "n < 32"
    by fastforce
  then show "bit (load32 True a b c d) n = bit w n"
    using w by cases (auto simp: load32_def store32_def Let_def bit_simps)
qed

lemma store16_load16: "store16 True (load16 True a b) = [a, b]"
  by (auto simp: load16_def store16_def Let_def intro!: bit_word_eqI)
    (auto simp: bit_simps dest: bit_imp_le_length)

lemma store32_load32: "store32 True (load32 True a b c d) = [a, b, c, d]"
  by (auto simp: load32_def store32_def Let_def intro!: bit_word_eqI)
    (auto simp: bit_simps dest: bit_imp_le_length)

lemma top_byte: "(ucast (ucast (drop_bit 24 w) :: u8) :: u32) = drop_bit 24 w"
proof (rule bit_word_eqI)
  fix n :: nat
  show "bit (ucast (ucast (drop_bit 24 w) :: u8) :: u32) n = bit (drop_bit 24 w) n"
    using bit_imp_le_length [of w "24 + n"] by (auto simp: bit_simps)
qed

lemma low_byte_shift: "push_bit 24 (ucast (ucast w :: u8)) = (push_bit 24 w :: u32)"
  by (auto intro!: bit_word_eqI simp: bit_simps)

lemma htonl_load32: "htonl big (load32 big a b c d) = load32 True a b c d"
proof (cases big)
  case False
  define w where "w = load32 True d c b a"
  have w: "load32 False a b c d = w" by (simp add: w_def load32_def)
  have d: "ucast (drop_bit 24 w) = d" and c: "ucast (drop_bit 16 w) = c"
    and b: "ucast (drop_bit 8 w) = b" and a: "(ucast w :: u8) = a"
    using store32_load32 [of d c b a] by (simp_all add: store32_def Let_def w_def)
  have "drop_bit 24 w = ucast d" using top_byte [of w] by (simp add: d)
  moreover have "push_bit 24 w = push_bit 24 (ucast a)" using low_byte_shift [of w] by (simp add: a)
  ultimately have "htonl False (load32 False a b c d) =
      push_bit 24 (ucast a) OR push_bit 16 (ucast b) OR push_bit 8 (ucast c) OR ucast d"
    by (simp add: htonl_def w b c)
  with False show ?thesis by (simp add: load32_def)
qed (simp add: htonl_def)

lemma encode_header_eq:
  "protocol_encode_header big (Some h) = Some (store16 True (mh_version h) @
     store16 True (mh_opcode h) @ store32 True (mh_request_id h) @ store32 True (mh_payload_len h))"
  by (simp add: protocol_encode_header_def store16_htons store32_htonl)

lemma store16_list: obtains a b where "store16 True w = [a, b]"
  by (simp add: store16_def Let_def)

lemma store32_list: obtains a b c d where "store32 True w = [a, b, c, d]"
  by (simp add: store32_def Let_def)

lemma length_encode_header:
  "protocol_encode_header big (Some h) = Some bs \<Longrightarrow> length bs = PROTOCOL_HEADER_SIZE"
  by (auto simp: encode_header_eq store16_def store32_def Let_def PROTOCOL_HEADER_SIZE_def)

lemma decode_encode_header:
  "protocol_decode_header big' (protocol_encode_header big (Some h)) = Some h"
proof -
  obtain a b where v: "store16 True (mh_version h) = [a, b]" by (rule store16_list)
  obtain c d where w: "store16 True (mh_opcode h) = [c, d]" by (rule store16_list)
  obtain e f g i where r: "store32 True (mh_request_id h) = [e, f, g, i]" by (rule store32_list)
  obtain j k l m where p: "store32 True (mh_payload_len h) = [j, k, l, m]" by (rule store32_list)
  show ?thesis
    by (simp add: encode_header_eq v w r p protocol_decode_header_def htons_load16 htonl_load32
        load16_store16 [OF v] load16_store16 [OF w] load32_store32 [OF r] load32_store32 [OF p])
qed

lemma encode_decode_header:
  assumes "length bs = PROTOCOL_HEADER_SIZE"
  obtains h where "protocol_decode_header big (Some bs) = Some h"
    and "protocol_encode_header big' (Some h) = Some bs"
proof -
  from assms obtain a0 a1 a2 a3 a4 a5 a6 a7 a8 a9 a10 a11
    where bs: "bs = [a0, a1, a2, a3, a4, a5, a6, a7, a8, a9, a10, a11]"
    by (auto simp: PROTOCOL_HEADER_SIZE_def length_Suc_conv numeral_eq_Suc)
  let ?h = "\<lparr>mh_version = load16 True a0 a1, mh_opcode = load16 True a2 a3,
    mh_request_id = load32 True a4 a5 a6 a7, mh_payload_len = load32 True a8 a9 a10 a11\<rparr>"
  have "protocol_decode_header big (Some bs) = Some ?h"
    by (simp add: bs protocol_decode_header_def htons_load16 htonl_load32)
  moreover have "protocol_encode_header big' (Some ?h) = Some bs"
    by (simp add: bs encode_header_eq store16_load16 store32_load32)
  ultimately show thesis by (rule that)
qed

end
