(* ===== verification/Net.thy ===== *)
theory Net
  imports Protocol
begin

text \<open>
  \<open>common/src/net.c\<close> and the message layer on top of it (\<open>send_message\<close> and
  \<open>recv_message\<close> of \<open>storage_server/src/main.c\<close>). A socket is the script of what the
  kernel answers to successive \<open>recv\<close> or \<open>send\<close> calls: data in pieces of any size,
  interruptions (\<open>EINTR\<close>), a closed peer, other errors. The theorems hold for every script,
  so a message survives any fragmentation of the stream.
\<close>

section \<open>Reading exactly len bytes\<close>

datatype recv_event = RData "u8 list" | REintr | RErr

text \<open>
  The \<open>int\<close> a \<open>size_t\<close> is cast to: reduced to 32 bits and read as two's complement.
\<close>

definition to_int32 :: "nat \<Rightarrow> int" where
  "to_int32 n = (let m = n mod 2 ^ 32 in if m < 2 ^ 31 then int m else int m - 2 ^ 32)"

text \<open>
  One call \<open>recv(fd, out + total, len - total, 0)\<close> takes at most the bytes asked for from the
  front piece and leaves the rest; an exhausted script or an empty piece is a closed peer, for
  which \<open>recv\<close> returns 0. The result is the return value, the bytes stored in the buffer and
  what is left of the script.
\<close>

function recv_loop :: "nat \<Rightarrow> u8 list \<Rightarrow> recv_event list \<Rightarrow> int \<times> u8 list \<times> recv_event list" where
  "recv_loop len out evs =
     (if length out < len then
        (case evs of
           [] \<Rightarrow> (to_int32 (length out), out, [])
         | REintr # es \<Rightarrow> recv_loop len out es
         | RErr # es \<Rightarrow> (-1, out, es)
         | RData bs # es \<Rightarrow>
             (if bs = [] then (to_int32 (length out), out, es)
              else let n = len - length out
                   in recv_loop len (out @ take n bs)
                        (if length bs \<le> n then es else RData (drop n bs) # es)))
      else (to_int32 (length out), out, evs))"
  by pat_completeness auto
termination
  by (relation "measure (\<lambda>(len, out, evs). (len - length out) + length evs)")
    (auto simp: min_def)

declare recv_loop.simps [simp del]

definition recv_all :: "int \<Rightarrow> nat \<Rightarrow> recv_event list \<Rightarrow> int \<times> u8 list \<times> recv_event list" where
  "recv_all fd len evs = (if fd < 0 then (-1, [], evs) else recv_loop len [] evs)"

text \<open>The bytes a script delivers before it ends or fails.\<close>

fun stream :: "recv_event list \<Rightarrow> u8 list" where
  "stream [] = []"
| "stream (REintr # es) = stream es"
| "stream (RErr # es) = []"
| "stream (RData bs # es) = (if bs = [] then [] else bs @ stream es)"

lemma recv_loop_enough:
  assumes "len \<le> length out + length (stream evs)" and "length out \<le> len"
  shows "\<exists>evs'. recv_loop len out evs =
      (to_int32 len, out @ take (len - length out) (stream evs), evs')
    \<and> stream evs' = drop (len - length out) (stream evs)"
  using assms
proof (induction len out evs rule: recv_loop.induct)
  case (1 len out evs)
  show ?case
  proof (cases "length out < len")
    case False
    with "1.prems" show ?thesis by (subst recv_loop.simps) simp
  next
    case True
    with "1.prems" obtain e es where e: "evs = e # es" by (cases evs) auto
    show ?thesis
    proof (cases e)
      case (RData bs)
      with e True "1.prems" have ne: "bs \<noteq> []" by (auto split: if_splits)
      let ?n = "len - length out"
      let ?evs = "if length bs \<le> ?n then es else RData (drop ?n bs) # es"
      have st: "stream evs = bs @ stream es" using e RData ne by simp
      have "stream ?evs = drop ?n bs @ stream es" by simp
      moreover from True ne "1.prems" st
      have "\<exists>evs'. recv_loop len (out @ take ?n bs) ?evs =
          (to_int32 len, (out @ take ?n bs) @ take (len - length (out @ take ?n bs)) (stream ?evs), evs')
        \<and> stream evs' = drop (len - length (out @ take ?n bs)) (stream ?evs)"
        by (intro "1.IH"(1) [OF True e RData ne refl]) auto
      ultimately show ?thesis using True e RData ne st
        by (subst recv_loop.simps) (auto simp: Let_def)
    next
      case REintr
      with e True "1.prems" "1.IH"(2) [OF True e REintr] show ?thesis
        by (subst recv_loop.simps) simp
    next
      case RErr
      with e True "1.prems" show ?thesis by simp
    qed
  qed
qed

section \<open>Writing\<close>

datatype send_event = SOk nat | SEintr | SEpipe | SErr

text \<open>
  The \<open>send\<close> loop: the return value, the number of bytes handed to the kernel and the rest of
  the script; an exhausted script takes everything that is left.
\<close>

fun send_loop :: "u8 list \<Rightarrow> nat \<Rightarrow> send_event list \<Rightarrow> int \<times> nat \<times> send_event list" where
  "send_loop data tot [] = (to_int32 (length data), length data, [])"
| "send_loop data tot (e # es) =
     (if tot < length data then
        (case e of
           SEintr \<Rightarrow> send_loop data tot es
         | SEpipe \<Rightarrow> (to_int32 tot, tot, es)
         | SErr \<Rightarrow> (-1, tot, es)
         | SOk n \<Rightarrow> send_loop data (tot + min n (length data - tot)) es)
      else (to_int32 tot, tot, e # es))"

text \<open>The return value, the bytes that reached the peer and the rest of the script.\<close>

definition send_all :: "int \<Rightarrow> u8 list \<Rightarrow> send_event list \<Rightarrow> int \<times> u8 list \<times> send_event list" where
  "send_all fd data evs = (if fd < 0 then (-1, [], evs)
     else case send_loop data 0 evs of (rc, n, es) \<Rightarrow> (rc, take n data, es))"

lemma send_loop_bounds:
  "tot \<le> length data \<Longrightarrow> send_loop data tot evs = (rc, n, es) \<Longrightarrow>
   tot \<le> n \<and> n \<le> length data \<and> (rc = to_int32 n \<or> rc = -1)"
proof (induction data tot evs rule: send_loop.induct)
  case (2 data tot e es')
  show ?case
  proof (cases "tot < length data")
    case True
    show ?thesis
    proof (cases e)
      case (SOk k)
      with 2 True show ?thesis by fastforce
    qed (use 2 True in auto)
  qed (use 2 in auto)
qed auto

section \<open>Messages\<close>

definition byte_of_char :: "char \<Rightarrow> u8" where
  "byte_of_char c = word_of_nat (of_char c)"

definition char_of_byte :: "u8 \<Rightarrow> char" where
  "char_of_byte b = char_of (unat b)"

lemma char_of_byte_of_char [simp]: "char_of_byte (byte_of_char c) = c"
proof -
  have "(of_char c :: nat) \<in> range of_char" by simp
  then have "(of_char c :: nat) < 256" unfolding range_nat_of_char by simp
  then have "unat (byte_of_char c) = of_char c"
    by (simp add: byte_of_char_def unat_of_nat take_bit_nat_eq_self)
  then show ?thesis by (simp add: char_of_byte_def)
qed

text \<open>
  \<open>send_message\<close>: the return code, everything that reached the peer, the rest of the script.
  The payload length is \<open>strlen\<close> cast to \<open>uint32_t\<close>.
\<close>

definition message_for :: "u16 \<Rightarrow> u32 \<Rightarrow> string option \<Rightarrow> message_header" where
  "message_for opcode request_id payload =
     \<lparr>mh_version = PROTOCOL_VERSION, mh_opcode = opcode, mh_request_id = request_id,
      mh_payload_len = (case payload of Some p \<Rightarrow> word_of_nat (length p) | None \<Rightarrow> 0)\<rparr>"

definition send_message ::
  "bool \<Rightarrow> int \<Rightarrow> u16 \<Rightarrow> u32 \<Rightarrow> string option \<Rightarrow> send_event list \<Rightarrow> int \<times> u8 list \<times> send_event list" where
  "send_message big fd opcode request_id payload evs =
     (let header = message_for opcode request_id payload in
      case protocol_encode_header big (Some header) of
        None \<Rightarrow> (-1, [], evs)
      | Some header_buf \<Rightarrow>
         (case send_all fd header_buf evs of (rc1, w1, evs1) \<Rightarrow>
            if rc1 < 0 then (-1, w1, evs1)
            else (case payload of
                    Some p \<Rightarrow>
                      if mh_payload_len header \<noteq> 0 then
                        (case send_all fd (map byte_of_char (take (unat (mh_payload_len header)) p)) evs1 of
                           (rc2, w2, evs2) \<Rightarrow> (if rc2 < 0 then -1 else 0, w1 @ w2, evs2))
                      else (0, w1, evs1)
                  | None \<Rightarrow> (0, w1, evs1))))"

text \<open>
  \<open>recv_message\<close>. The header buffer starts with whatever the stack held (\<open>junk\<close>),
  since a return of fewer than 12 bytes is accepted; the payload buffer is zeroed by
  \<open>calloc\<close> and read as a C string. \<open>Some (header, payload)\<close> is the return code 0.
\<close>

definition recv_message ::
  "bool \<Rightarrow> int \<Rightarrow> (nat \<Rightarrow> u8) \<Rightarrow> recv_event list \<Rightarrow> (message_header \<times> string option) option \<times> recv_event list" where
  "recv_message big fd junk evs =
     (case recv_all fd PROTOCOL_HEADER_SIZE evs of (rc, got, evs1) \<Rightarrow>
        if rc \<le> 0 then (None, evs1)
        else (case protocol_decode_header big (Some (got @ map junk [length got..<PROTOCOL_HEADER_SIZE])) of
                None \<Rightarrow> (None, evs1)
              | Some header \<Rightarrow>
                  if 0 < mh_payload_len header then
                    (case recv_all fd (unat (mh_payload_len header)) evs1 of (rc2, got2, evs2) \<Rightarrow>
                       if rc2 \<le> 0 then (None, evs2)
                       else (Some (header, Some (c_str (map char_of_byte got2))), evs2))
                  else (Some (header, None), evs1)))"

text \<open>The allocation for the payload, \<open>header->payload_len + 1\<close>, is computed in 32 bits.\<close>

definition payload_alloc :: "message_header \<Rightarrow> u32" where
  "payload_alloc h = mh_payload_len h + 1"

section \<open>The framing contract\<close>

text \<open>
  What the message layer needs of a header codec: encoding gives a fixed number of bytes and
  decoding inverts it. The client's lemma is that a framed message is found again at the front
  of any byte stream.
\<close>

locale framing =
  fixes enc :: "'h \<Rightarrow> u8 list option"
    and dec :: "u8 list \<Rightarrow> 'h option"
    and hsize :: nat
  assumes enc_length: "enc h = Some bs \<Longrightarrow> length bs = hsize"
    and enc_total: "\<exists>bs. enc h = Some bs"
    and dec_enc: "enc h = Some bs \<Longrightarrow> dec bs = Some h"
begin

lemma dec_prefix:
  assumes "enc h = Some bs"
  shows "dec (take hsize (bs @ rest)) = Some h" and "drop hsize (bs @ rest) = rest"
  using enc_length [OF assms] dec_enc [OF assms] by simp_all

lemma enc_inj: "enc h = Some bs \<Longrightarrow> enc h' = Some bs \<Longrightarrow> h = h'"
  by (metis dec_enc option.inject)

lemma frames_unique:
  assumes "enc h = Some bs" and "enc h' = Some bs'"
    and "bs @ p @ r = bs' @ p' @ r'" and "length p = n h" and "length p' = n h'"
  shows "h = h' \<and> p = p' \<and> r = r'"
proof -
  have "length bs = length bs'" using assms(1,2) by (simp add: enc_length)
  with assms(3) have bs: "bs = bs'" and rest: "p @ r = p' @ r'" by auto
  from bs assms(1,2) have "h = h'" by (simp add: enc_inj)
  with assms(4,5) rest show ?thesis by simp
qed

end

interpretation wire: framing "\<lambda>h. protocol_encode_header big (Some h)"
  "\<lambda>bs. protocol_decode_header big' (Some bs)" PROTOCOL_HEADER_SIZE
proof
  show "\<And>h bs. protocol_encode_header big (Some h) = Some bs \<Longrightarrow> length bs = PROTOCOL_HEADER_SIZE"
    by (rule length_encode_header)
  show "\<And>h. \<exists>bs. protocol_encode_header big (Some h) = Some bs"
    by (simp add: encode_header_eq)
  show "\<And>h bs. protocol_encode_header big (Some h) = Some bs \<Longrightarrow>
      protocol_decode_header big' (Some bs) = Some h"
    by (metis decode_encode_header)
qed

section \<open>Messages across any fragmentation\<close>

lemma recv_all_enough:
  assumes "0 \<le> fd" and "len \<le> length (stream evs)"
  obtains evs' where "recv_all fd len evs = (to_int32 len, take len (stream evs), evs')"
    and "stream evs' = drop len (stream evs)"
  using recv_loop_enough [of len "[]" evs] assms by (auto simp: recv_all_def)

lemma send_message_ok:
  assumes "0 \<le> fd" and "length p < 2 ^ 31"
  shows "send_message big fd opc rid (Some p) [] =
    (0, the (protocol_encode_header big (Some (message_for opc rid (Some p)))) @ map byte_of_char p, [])"
proof -
  have u: "unat (word_of_nat (length p) :: u32) = length p"
    using assms(2) by (simp add: unat_of_nat take_bit_nat_eq_self)
  have z: "(word_of_nat (length p) :: u32) = 0 \<longleftrightarrow> p = []"
    using u by (metis length_0_conv unat_eq_zero)
  obtain bs where bs: "protocol_encode_header big (Some (message_for opc rid (Some p))) = Some bs"
    using wire.enc_total by blast
  then have "length bs = 12" using wire.enc_length [OF bs] by (simp add: PROTOCOL_HEADER_SIZE_def)
  then have "\<not> to_int32 (length bs) < 0" and "\<not> to_int32 (length p) < 0"
    using assms(2) by (simp_all add: to_int32_def)
  then show ?thesis using assms(1) bs
    by (auto simp: send_message_def send_all_def message_for_def u z Let_def)
qed

lemma recv_message_framed:
  assumes fd: "0 \<le> fd" and p: "NUL \<notin> set p" "length p < 2 ^ 31"
    and hb: "protocol_encode_header big (Some (message_for opc rid (Some p))) = Some hb"
    and st: "stream evs = hb @ map byte_of_char p @ rest"
  shows "\<exists>evs'. recv_message big' fd junk evs =
      (Some (message_for opc rid (Some p), if p = [] then None else Some p), evs')
    \<and> stream evs' = rest"
proof -
  let ?h = "message_for opc rid (Some p)"
  have lb: "length hb = PROTOCOL_HEADER_SIZE" using hb by (rule wire.enc_length)
  have u: "unat (mh_payload_len ?h) = length p"
    using p(2) by (simp add: message_for_def unat_of_nat take_bit_nat_eq_self)
  obtain evs1 where r1: "recv_all fd PROTOCOL_HEADER_SIZE evs = (to_int32 PROTOCOL_HEADER_SIZE, hb, evs1)"
    and s1: "stream evs1 = map byte_of_char p @ rest"
    using recv_all_enough [OF fd, of PROTOCOL_HEADER_SIZE evs] st lb by auto
  obtain evs2 where r2: "recv_all fd (length p) evs1 = (to_int32 (length p), map byte_of_char p, evs2)"
    and s2: "stream evs2 = rest"
    using recv_all_enough [OF fd, of "length p" evs1] s1 by auto
  have dec: "protocol_decode_header big' (Some hb) = Some ?h" using hb by (rule wire.dec_enc)
  have pos: "0 < to_int32 PROTOCOL_HEADER_SIZE" "p \<noteq> [] \<Longrightarrow> 0 < to_int32 (length p)"
    using p(2) by (simp_all add: to_int32_def PROTOCOL_HEADER_SIZE_def)
  have z: "0 < mh_payload_len ?h \<longleftrightarrow> p \<noteq> []"
    using u by (metis length_0_conv unat_eq_zero word_neq_0_conv)
  have "map char_of_byte (map byte_of_char p) = p" by (simp add: map_idI)
  then have c: "c_str (map char_of_byte (map byte_of_char p)) = p"
    using p(1) by (simp add: c_str_id del: map_map)
  show ?thesis
  proof (cases "p = []")
    case True
    with r1 dec pos z s1 lb show ?thesis by (simp add: recv_message_def)
  next
    case False
    with r1 r2 dec pos z s2 c u lb show ?thesis
      by (simp add: recv_message_def del: map_map)
  qed
qed

end
