(* ===== verification/Base_Properties.thy ===== *)
theory Base_Properties
  imports Engine_Properties Net
begin

text \<open>
  The properties of the layers under the storage engine: the wire format, whole messages over a
  fragmenting stream, path building, the file store and the text of a document.
\<close>

section \<open>Wire format and messages\<close>

text \<open>
  Decoding an encoded header gives back every field, whatever the byte order of the
  sending and of the receiving machine; and the encoding has the 12 bytes both sides read.
\<close>
theorem header_roundtrip:
  "protocol_decode_header receiver_big (protocol_encode_header sender_big (Some h)) = Some h
   \<and> map_option length (protocol_encode_header sender_big (Some h)) = Some PROTOCOL_HEADER_SIZE"
proof -
  obtain bs where "protocol_encode_header sender_big (Some h) = Some bs" using wire.enc_total by blast
  then show ?thesis using decode_encode_header [of receiver_big sender_big h] by (auto dest: wire.enc_length)
qed

text \<open>
  C26: A message sent whole is received whole: whatever pieces the network cuts the bytes into and
  however often the reads are interrupted, the receiver gets the header and the payload that were
  sent, and the bytes after the message are still unread. An empty payload arrives as a null
  pointer.
\<close>
theorem message_delivery:
  assumes "0 \<le> out_fd" and "0 \<le> in_fd" and "NUL \<notin> set p" and "length p < 2 ^ 31"
    and sent: "send_message sender_big out_fd opc rid (Some p) [] = (rc, bs, [])"
    and arrives: "stream evs = bs @ rest"
  shows "rc = 0 \<and> (\<exists>evs'. recv_message receiver_big in_fd junk evs =
        (Some (message_for opc rid (Some p), if p = [] then None else Some p), evs') \<and> stream evs' = rest)"
proof -
  obtain hb where hb: "protocol_encode_header sender_big (Some (message_for opc rid (Some p))) = Some hb"
    using wire.enc_total by blast
  then have "rc = 0 \<and> bs = hb @ map byte_of_char p" using send_message_ok [OF assms(1,4)] sent by simp
  with recv_message_framed [OF assms(2-4) hb, of evs rest] arrives show ?thesis by simp
qed

theorem message_delivery_witness:
  "let hb = the (protocol_encode_header False (Some (message_for 5 9 (Some ''hi'')))) in
   \<exists>evs'. recv_message True 4 (\<lambda>_. 0) [RData (take 5 hb), REintr, RData (drop 5 hb @ [104]), RData [105, 7]] =
     (Some (message_for 5 9 (Some ''hi''), Some ''hi''), evs') \<and> stream evs' = [7]"
proof -
  define hb where "hb = the (protocol_encode_header False (Some (message_for 5 9 (Some ''hi''))))"
  have b: "map byte_of_char ''hi'' = [104, 105]" by (simp add: byte_of_char_def)
  have s: "send_message False 3 5 9 (Some ''hi'') [] = (0, hb @ [104, 105], [])"
    unfolding hb_def b [symmetric] by (rule send_message_ok) simp_all
  have "hb \<noteq> []" by (simp add: hb_def encode_header_eq store16_def Let_def)
  then have e: "stream [RData (take 5 hb), REintr, RData (drop 5 hb @ [104]), RData [105, 7]] = (hb @ [104, 105]) @ [7]"
    by simp
  have "\<exists>evs'. recv_message True 4 (\<lambda>_. 0) [RData (take 5 hb), REintr, RData (drop 5 hb @ [104]), RData [105, 7]] =
     (Some (message_for 5 9 (Some ''hi''), Some ''hi''), evs') \<and> stream evs' = [7]"
    using message_delivery [OF _ _ _ _ s e, of 4 True "\<lambda>_. 0"] by simp
  then show ?thesis unfolding Let_def hb_def [symmetric] .
qed

section \<open>Paths and the file store\<close>

text \<open>
  Two checkpoints of one storage server share a path only when both the document and the tag
  are the same, for the tags that pass the engine's check (which rules out slashes).
\<close>
theorem checkpoint_paths_distinct:
  assumes "ss_checkpoint_path len b i f t = Some p" and "ss_checkpoint_path len b i g u = Some p"
    and "is_valid_checkpoint_tag t" and "is_valid_checkpoint_tag u"
  shows "f = g \<and> t = u"
proof -
  have "SLASH \<notin> set v" if "is_valid_checkpoint_tag v" for v
    using that by (auto simp: is_valid_checkpoint_tag_def list_all_iff)
  then show ?thesis using ss_checkpoint_path_inj [OF assms(1,2)] assms(3,4) by blast
qed

theorem checkpoint_paths_distinct_witness:
  "ss_checkpoint_path PATH_MAX ''b'' ''s'' ''a/b'' ''v1'' = Some ''b/ss_data_s/checkpoints/a/b/v1.chk''
   \<and> ss_checkpoint_path PATH_MAX ''b'' ''s'' ''a'' ''v1'' \<noteq> Some ''b/ss_data_s/checkpoints/a/b/v1.chk''"
proof -
  have p: "ss_checkpoint_path PATH_MAX ''b'' ''s'' ''a/b'' ''v1'' = Some ''b/ss_data_s/checkpoints/a/b/v1.chk''"
    by (simp add: path_eval)
  have v: "is_valid_checkpoint_tag ''v1''" by (simp add: is_valid_checkpoint_tag_def)
  show ?thesis using p checkpoint_paths_distinct [OF p _ v v, of "''a''"] by auto
qed

text \<open>
  C27: Replacing a file is all or nothing, whatever system call fails: after a successful
  \<open>atomic_write\<close> the path reads as the new bytes, after a failed one every file that could be
  read still reads as before, and a file at a path kept apart never changes.
\<close>
theorem atomic_write_all_or_nothing:
  assumes "atomic_write w d path data = (ok, d')"
  shows "(ok \<longrightarrow> read_file_if_exists d' path = Some data)
    \<and> (\<forall>t x. read_file_if_exists d t = Some x \<longrightarrow> \<not> ok \<or> paths_apart t path
          \<longrightarrow> read_file_if_exists d' t = Some x)"
  using assms disk.fetch_stored [of w d path data d'] disk.fetch_failed [of w d path data d']
    disk.fetch_apart [OF assms] by (cases ok) auto

theorem atomic_write_all_or_nothing_witness:
  "let full = io_fine\<lparr>io_write := (\<lambda>_ _. -1)\<rparr>;
       d = fs_put [''b'', ''x''] (Reg ''old'') disk0 in
   fst (atomic_write full d ''b/x'' ''new'') = False
   \<and> read_file_if_exists (snd (atomic_write full d ''b/x'' ''new'')) ''b/x'' = Some ''old''"
proof -
  define full where "full = io_fine\<lparr>io_write := (\<lambda>_ _. -1)\<rparr>"
  define d where "d = fs_put [''b'', ''x''] (Reg ''old'') disk0"
  obtain ok d' where a: "atomic_write full d ''b/x'' ''new'' = (ok, d')" by (cases "atomic_write full d ''b/x'' ''new''")
  have "fst (atomic_write full d ''b/x'' ''new'') = False"
    by (simp add: full_def d_def disk_eval)
  moreover have "read_file_if_exists d ''b/x'' = Some ''old''"
    by (simp add: d_def read_file_if_exists_def disk_eval)
  ultimately show ?thesis using atomic_write_all_or_nothing [OF a] a
    by (simp add: Let_def full_def [symmetric] d_def [symmetric])
qed

text \<open>
  C36: A document whose name was normalised lives under the server's \<open>files\<close> directory: no such
  name resolves to a place outside it.
\<close>
theorem documents_confined:
  assumes "normalize_relative_path s PATH_MAX = Some f"
    and "ss_file_path PATH_MAX b i f = Some path" and "resolve d path = Inr p"
  shows "\<exists>m. resolve d (ss_root b i) = Inr m \<and> p = m @ ''files'' # components f"
  using resolve_store_file [OF assms(2) _ assms(3)] normalize_tidy [OF assms(1)] by (simp add: tidy_path_def)

theorem documents_confined_witness:
  "\<exists>m. resolve disk0 (ss_root ''b'' ''s'') = Inr m \<and> [''b'', ''ss_data_s'', ''files'', ''a''] = m @ ''files'' # components ''a''"
proof (rule documents_confined)
  show "normalize_relative_path ''/a/'' PATH_MAX = Some ''a''"
    by (simp add: normalize_relative_path_def strip_slashes_def PATH_MAX_def fit_def tokens_cons)
  show "ss_file_path PATH_MAX ''b'' ''s'' ''a'' = Some ''b/ss_data_s/files/a''" by (simp add: path_eval)
  show "resolve disk0 ''b/ss_data_s/files/a'' = Inr [''b'', ''ss_data_s'', ''files'', ''a'']" by (simp add: disk_eval)
qed

section \<open>Text\<close>

text \<open>
  C28: The sentences of a document: \<open>compute_spans\<close> gives as many spans as there are delimiters;
  the spans, with only white space between them, tile the text up to a tail without delimiters;
  each is a sentence, ending in its only delimiter; and they are in order and in bounds.
\<close>
theorem spans_partition:
  "(\<exists>gaps rest. tiles t (map (span_text t) (compute_spans t)) gaps rest)
   \<and> length (compute_spans t) = length (filter is_delim t) \<and> spans_from 0 (length t) (compute_spans t)"
  using spans_loop_tiles [of 0 0 t] length_spans_loop [of t 0 0] compute_spans_bounds [of t]
  by (simp add: compute_spans_def)

text \<open>
  C37: The word count of a text is the number of words \<open>tokenize_words\<close> finds in it, which
  are never empty and hold no white space; and words joined with blanks are found again.
\<close>
theorem words_roundtrip:
  "count_words t = length (tokenize_words t) \<and> list_all is_word (tokenize_words t)
   \<and> tokenize_words (join_words (tokenize_words t)) = tokenize_words t"
  by (simp add: count_words_tokens tokenize_words_words tokenize_join)

end
