(* ===== verification/Storage_Server.thy ===== *)
theory Storage_Server
  imports Storage_Engine Net
begin

text \<open>
  The storage server of \<open>storage_server/src/main.c\<close>: its JSON readers, the table of sentence
  locks, one handler per request and the dispatcher. A handler takes the server state and the
  payload and returns the new state and the messages it sends on the client's connection; the
  request id of every reply is 0. The write request is a conversation: it is modelled by the step
  that opens it, the step for one further message and the step that closes it, so that sessions
  of several clients interleave (see \<open>Write_Sessions\<close>). A request without a payload makes the
  handlers search in a null pointer; where that can happen the result is \<open>None\<close>.
\<close>

section \<open>State\<close>

record lock_entry =
  le_filename :: string
  le_sentence_idx :: nat
  le_file_version :: time_t

record ss_state =
  ss_id :: string
  ss_nm_host :: string
  ss_nm_port :: u16
  ss_client_port :: u16
  ss_nm_fd :: int
  ss_engine :: storage_engine
  ss_disk :: fs
  ss_active_readers :: u32
  ss_active_writers :: u32
  ss_request_counter :: u32
  ss_locked_sentences :: "lock_entry list"

type_synonym reply = "protocol_opcode_t \<times> string"

section \<open>JSON helpers\<close>

definition ss_json_get_string :: "string \<Rightarrow> string \<Rightarrow> nat \<Rightarrow> string option" where
  \<open>ss_json_get_string json key bufsize =
     (let search = fit 128 (''"'' @ key @ ''":"'') in
      case strstr json search of None \<Rightarrow> None | Some p \<Rightarrow>
        (let v = drop (length search) p in
         case strchr v DQ of None \<Rightarrow> None
         | Some _ \<Rightarrow> Some (fit bufsize (takeWhile (\<lambda>c. c \<noteq> DQ) v))))\<close>

text \<open>A field read into a buffer that already holds a default.\<close>

definition ss_field :: "string \<Rightarrow> string \<Rightarrow> nat \<Rightarrow> string \<Rightarrow> string" where
  "ss_field json key bufsize dflt = (case ss_json_get_string json key bufsize of None \<Rightarrow> dflt | Some v \<Rightarrow> v)"

definition ss_json_get_ulong :: "string \<Rightarrow> string \<Rightarrow> nat" where
  \<open>ss_json_get_ulong json key =
     (let search = fit 128 (''"'' @ key @ ''":'') in
      case strstr json search of None \<Rightarrow> 0
      | Some p \<Rightarrow> fst (strtoul (dropWhile (\<lambda>c. c = SP \<or> c = TAB) (drop (length search) p))))\<close>

primrec storage_rc_code :: "storage_rc \<Rightarrow> int" where
  "storage_rc_code STORAGE_OK = 0"
| "storage_rc_code STORAGE_ERR_NOT_FOUND = -1"
| "storage_rc_code STORAGE_ERR_INVALID = -2"
| "storage_rc_code STORAGE_ERR_LOCKED = -3"
| "storage_rc_code STORAGE_ERR_IO = -4"
| "storage_rc_code STORAGE_ERR_EXISTS = -5"
| "storage_rc_code STORAGE_ERR_NOT_FOLDER = -6"
| "storage_rc_code STORAGE_ERR_NO_ACCESS = -7"

definition error_reply :: "string \<Rightarrow> int \<Rightarrow> reply" where
  \<open>error_reply message code =
     (OP_ERROR, fit 256 (''{"error":"'' @ message @ ''","code":'' @ show_int code @ ''}''))\<close>

definition send_error_with_code :: "string option \<Rightarrow> protocol_error_t \<Rightarrow> reply" where
  "send_error_with_code message code = error_reply
     (case message of Some m \<Rightarrow> m | None \<Rightarrow> ''Operation failed'') (int (error_code code))"

definition plain_error :: "string \<Rightarrow> reply" where
  \<open>plain_error message = (OP_ERROR, ''{"error":"'' @ message @ ''"}'')\<close>

section \<open>The table of sentence locks\<close>

definition lock_key :: "lock_entry \<Rightarrow> string \<times> nat" where
  "lock_key l = (le_filename l, le_sentence_idx l)"

definition is_sentence_locked :: "lock_entry list \<Rightarrow> string \<Rightarrow> nat \<Rightarrow> bool" where
  "is_sentence_locked ls filename sentence_idx =
     list_ex (\<lambda>l. le_filename l = filename \<and> le_sentence_idx l = sentence_idx) ls"

definition add_sentence_lock :: "string \<Rightarrow> nat \<Rightarrow> time_t \<Rightarrow> lock_entry list \<Rightarrow> lock_entry list" where
  "add_sentence_lock filename sentence_idx file_version ls =
     \<lparr>le_filename = fit 256 filename, le_sentence_idx = sentence_idx, le_file_version = file_version\<rparr> # ls"

definition remove_sentence_lock :: "string \<Rightarrow> nat \<Rightarrow> lock_entry list \<Rightarrow> lock_entry list" where
  "remove_sentence_lock filename sentence_idx ls =
     remove_first (\<lambda>l. le_filename l = filename \<and> le_sentence_idx l = sentence_idx) ls"

definition get_locked_sentence_version :: "string \<Rightarrow> nat \<Rightarrow> lock_entry list \<Rightarrow> time_t option" where
  "get_locked_sentence_version filename sentence_idx ls = map_option le_file_version
     (find (\<lambda>l. le_filename l = filename \<and> le_sentence_idx l = sentence_idx) ls)"

section \<open>Simple requests\<close>

definition mark_access :: "io \<Rightarrow> time_t \<Rightarrow> string \<Rightarrow> string \<Rightarrow> ss_state \<Rightarrow> ss_state" where
  "mark_access w now filename username s =
     (case storage_engine_mark_access w now (ss_disk s) (ss_engine s) filename (Some username) of
        (_, d, e) \<Rightarrow> s\<lparr>ss_disk := d, ss_engine := e\<rparr>)"

definition handle_read_request :: "io \<Rightarrow> time_t \<Rightarrow> ss_state \<Rightarrow> string \<Rightarrow> ss_state \<times> reply list" where
  \<open>handle_read_request w now s payload =
     (let filename = ss_field payload ''filename'' 256 [];
          username = ss_field payload ''username'' 128 ''unknown''
      in case storage_engine_read w now (ss_disk s) (ss_engine s) filename of
        (rc, content, d, e) \<Rightarrow>
          (let s1 = s\<lparr>ss_disk := d, ss_engine := e\<rparr> in
           case (rc, content) of
             (STORAGE_OK, Some c) \<Rightarrow> (mark_access w now filename username s1,
                [(OP_DATA_RESPONSE, fit (100 + length c * 2) (''{"content":"'' @ c @ ''"}''))])
           | _ \<Rightarrow> (s1, [error_reply ''File not found or read error'' (storage_rc_code rc)])))\<close>

definition is_blank :: "char \<Rightarrow> bool" where
  "is_blank c = (c = SP \<or> c = TAB \<or> c = LF)"

definition handle_stream_request :: "io \<Rightarrow> time_t \<Rightarrow> ss_state \<Rightarrow> string \<Rightarrow> ss_state \<times> reply list" where
  \<open>handle_stream_request w now s payload =
     (let filename = ss_field payload ''filename'' 256 [];
          username = ss_field payload ''username'' 128 ''unknown''
      in case storage_engine_read w now (ss_disk s) (ss_engine s) filename of
        (rc, content, d, e) \<Rightarrow>
          (let s1 = s\<lparr>ss_disk := d, ss_engine := e\<rparr> in
           case (rc, content) of
             (STORAGE_OK, Some c) \<Rightarrow> (mark_access w now filename username s1,
                map (\<lambda>token. (OP_DATA_CHUNK, fit 1024 (''{"word":"'' @ token @ ''"}''))) (tokens is_blank c)
                @ [(OP_DATA_RESPONSE, ''{"status":"complete"}'')])
           | _ \<Rightarrow> (s1, [error_reply ''File not found'' (storage_rc_code rc)])))\<close>

definition handle_delete_request :: "ss_state \<Rightarrow> string \<Rightarrow> ss_state \<times> reply list" where
  \<open>handle_delete_request s payload =
     (case storage_engine_delete_file (ss_disk s) (ss_engine s) (ss_field payload ''filename'' 256 []) of
        (rc, d, e) \<Rightarrow> (s\<lparr>ss_disk := d, ss_engine := e\<rparr>,
          [if rc = STORAGE_OK then (OP_DATA_RESPONSE, ''{"status":"deleted"}'')
           else error_reply ''Delete failed'' (storage_rc_code rc)]))\<close>

definition handle_checkpoint_request :: "io \<Rightarrow> time_t \<Rightarrow> ss_state \<Rightarrow> string \<Rightarrow> ss_state \<times> reply list" where
  \<open>handle_checkpoint_request w now s payload =
     (let filename = ss_field payload ''filename'' 256 [];
          tag = ss_field payload ''tag'' 128 [];
          username = ss_field payload ''username'' 128 []
      in case storage_engine_checkpoint w now (ss_disk s) (ss_engine s) filename tag of
        (rc, d, e) \<Rightarrow>
          (let s1 = s\<lparr>ss_disk := d, ss_engine := e\<rparr> in
           if rc = STORAGE_OK then
             (if username \<noteq> [] then mark_access w now filename username s1 else s1,
              [(OP_COMMAND_STATUS, fit 256 (''{"status":"checkpointed","tag":"'' @ tag @ ''"}''))])
           else if rc = STORAGE_ERR_EXISTS then
             (s1, [send_error_with_code (Some ''Checkpoint already exists'') ERR_CHECKPOINT_EXISTS])
           else if rc = STORAGE_ERR_NOT_FOUND then
             (s1, [send_error_with_code (Some ''File not found'') ERR_FILE_NOT_FOUND])
           else if rc = STORAGE_ERR_INVALID then
             (s1, [send_error_with_code (Some ''Invalid checkpoint tag'') ERR_INVALID_SENTENCE])
           else (s1, [send_error_with_code (Some ''Failed to create checkpoint'') ERR_EXECUTION_FAIL])))\<close>

fun json_items :: "nat \<Rightarrow> bool \<Rightarrow> string list \<Rightarrow> string \<times> nat \<Rightarrow> (string \<times> nat) option" where
  \<open>json_items sz first [] p = Some p\<close>
| \<open>json_items sz first (x # xs) p =
     (if sz - 100 \<le> snd p then Some p
      else case (if first then Some p else snprintf_at sz p '','') of None \<Rightarrow> None
        | Some p1 \<Rightarrow> (case snprintf_at sz p1 (''"'' @ x @ ''"'') of None \<Rightarrow> None
            | Some p2 \<Rightarrow> json_items sz False xs p2))\<close>

definition handle_listcheckpoints_request :: "ss_state \<Rightarrow> string \<Rightarrow> reply list option" where
  \<open>handle_listcheckpoints_request s payload =
     (case storage_engine_list_checkpoints (ss_disk s) (ss_engine s) (ss_field payload ''filename'' 256 []) of
        (rc, tags) \<Rightarrow>
          if rc = STORAGE_OK then
            (case json_items 8192 True tags (''{"checkpoints":['', 16) of None \<Rightarrow> None
             | Some p \<Rightarrow> (case snprintf_at 8192 p '']}'' of None \<Rightarrow> None
                 | Some (response, _) \<Rightarrow> Some [(OP_LISTCHECKPOINTS_RESPONSE, response)]))
          else if rc = STORAGE_ERR_NOT_FOUND then
            Some [send_error_with_code (Some ''File not found'') ERR_FILE_NOT_FOUND]
          else Some [send_error_with_code (Some ''Failed to list checkpoints'') ERR_EXECUTION_FAIL])\<close>

definition handle_viewcheckpoint_request :: "ss_state \<Rightarrow> string \<Rightarrow> reply list" where
  \<open>handle_viewcheckpoint_request s payload =
     (case storage_engine_view_checkpoint (ss_disk s) (ss_engine s) (ss_field payload ''filename'' 256 [])
             (ss_field payload ''tag'' 128 []) of
        (rc, content) \<Rightarrow>
          (case (rc, content) of
             (STORAGE_OK, Some b) \<Rightarrow> (let c = c_str b in
                [(OP_DATA_RESPONSE, fit (length c * 2 + 64) (''{"content":"'' @ c @ ''"}''))])
           | (STORAGE_ERR_NOT_FOUND, _) \<Rightarrow>
                [send_error_with_code (Some ''Checkpoint not found'') ERR_CHECKPOINT_NOT_FOUND]
           | _ \<Rightarrow> [send_error_with_code (Some ''Failed to read checkpoint'') ERR_EXECUTION_FAIL]))\<close>

definition handle_revertcheckpoint_request :: "io \<Rightarrow> time_t \<Rightarrow> ss_state \<Rightarrow> string \<Rightarrow> ss_state \<times> reply list" where
  \<open>handle_revertcheckpoint_request w now s payload =
     (let filename = ss_field payload ''filename'' 256 [];
          tag = ss_field payload ''tag'' 128 [];
          username = ss_field payload ''username'' 128 []
      in case storage_engine_revert_checkpoint w now (ss_disk s) (ss_engine s) filename tag of
        (rc, d, e) \<Rightarrow>
          (let s1 = s\<lparr>ss_disk := d, ss_engine := e\<rparr> in
           if rc = STORAGE_OK then
             (if username \<noteq> [] then mark_access w now filename username s1 else s1,
              [(OP_COMMAND_STATUS, fit 256 (''{"status":"reverted","tag":"'' @ tag @ ''"}''))])
           else if rc = STORAGE_ERR_NOT_FOUND then
             (s1, [send_error_with_code (Some ''File or checkpoint not found'') ERR_CHECKPOINT_NOT_FOUND])
           else (s1, [send_error_with_code (Some ''Failed to revert checkpoint'') ERR_EXECUTION_FAIL])))\<close>

definition handle_undo_request :: "io \<Rightarrow> time_t \<Rightarrow> ss_state \<Rightarrow> string \<Rightarrow> ss_state \<times> reply list" where
  \<open>handle_undo_request w now s payload =
     (let filename = ss_field payload ''filename'' 256 [];
          username = ss_field payload ''username'' 128 ''unknown''
      in case storage_engine_undo w now (ss_disk s) (ss_engine s) filename of
        (rc, d, e) \<Rightarrow>
          (let s1 = s\<lparr>ss_disk := d, ss_engine := e\<rparr> in
           if rc = STORAGE_OK then
             (mark_access w now filename username s1,
              [(OP_DATA_RESPONSE, ''{"status":"OK","message":"Undo successful"}'')])
           else if rc = STORAGE_ERR_INVALID then
             (s1, [error_reply ''No undo history available'' (int (error_code ERR_UNDO_EMPTY))])
           else (s1, [error_reply ''Undo failed'' (storage_rc_code rc)])))\<close>

definition handle_info_request :: "time_t \<Rightarrow> ss_state \<Rightarrow> string \<Rightarrow> ss_state \<times> reply list" where
  \<open>handle_info_request now s payload =
     (case storage_engine_info now (ss_disk s) (ss_engine s) (ss_field payload ''filename'' 256 []) of
        (rc, info, e) \<Rightarrow>
          (let s1 = s\<lparr>ss_engine := e\<rparr> in
           case (rc, info) of
             (STORAGE_OK, Some i) \<Rightarrow> (s1, [(OP_DATA_RESPONSE, fit 1024
                (''{"filename":"'' @ fi_filename i @ ''","owner":"'' @ fi_owner i @
                 ''","word_count":'' @ show_nat (fi_word_count i) @
                 '',"char_count":'' @ show_nat (fi_char_count i) @
                 '',"sentence_count":'' @ show_nat (fi_sentence_count i) @
                 '',"created_at":'' @ show_int (fi_created_at i) @
                 '',"modified_at":'' @ show_int (fi_modified_at i) @
                 '',"last_accessed":'' @ show_int (fi_last_accessed i) @
                 '',"last_accessed_by":"'' @ fi_last_accessed_by i @ ''"}''))])
           | _ \<Rightarrow> (s1, [error_reply ''File not found'' (storage_rc_code rc)])))\<close>

definition handle_create_request :: "io \<Rightarrow> time_t \<Rightarrow> ss_state \<Rightarrow> string \<Rightarrow> ss_state \<times> reply list" where
  \<open>handle_create_request w now s payload =
     (case storage_engine_create_file w now (ss_disk s) (ss_engine s) (ss_field payload ''filename'' 256 [])
             (ss_field payload ''owner'' 256 []) of
        (rc, d, e) \<Rightarrow> (s\<lparr>ss_disk := d, ss_engine := e\<rparr>,
          [if rc = STORAGE_OK then (OP_COMMAND_STATUS, ''{"status":"created"}'')
           else error_reply ''Failed to create file'' (storage_rc_code rc)]))\<close>

definition handle_createfolder_request :: "io \<Rightarrow> ss_state \<Rightarrow> string \<Rightarrow> ss_state \<times> reply list" where
  \<open>handle_createfolder_request w s payload =
     (case storage_engine_create_folder w (ss_disk s) (ss_engine s) (ss_field payload ''foldername'' 256 [])
             (Some (ss_field payload ''username'' 256 [])) of
        (rc, d) \<Rightarrow> (s\<lparr>ss_disk := d\<rparr>,
          [if rc = STORAGE_OK then (OP_COMMAND_STATUS, ''{"status":"created"}'')
           else if rc = STORAGE_ERR_EXISTS then plain_error ''Folder already exists''
           else error_reply ''Failed to create folder'' (storage_rc_code rc)]))\<close>

definition handle_move_request :: "io \<Rightarrow> ss_state \<Rightarrow> string \<Rightarrow> ss_state \<times> reply list" where
  \<open>handle_move_request w s payload =
     (case storage_engine_move_file w (ss_disk s) (ss_engine s) (ss_field payload ''filename'' 256 [])
             (ss_field payload ''foldername'' 256 []) of
        (rc, d, e) \<Rightarrow> (s\<lparr>ss_disk := d, ss_engine := e\<rparr>,
          [if rc = STORAGE_OK then (OP_COMMAND_STATUS, ''{"status":"moved"}'')
           else if rc = STORAGE_ERR_NOT_FOUND then plain_error ''File or folder not found''
           else error_reply ''Failed to move file'' (storage_rc_code rc)]))\<close>

definition handle_viewfolder_request :: "ss_state \<Rightarrow> string \<Rightarrow> reply list option" where
  \<open>handle_viewfolder_request s payload =
     (case storage_engine_list_folder (ss_disk s) (ss_engine s) (ss_field payload ''foldername'' 256 [])
             (Some (ss_field payload ''username'' 256 [])) of
        (rc, files, folders) \<Rightarrow>
          if rc = STORAGE_OK then
            (case json_items 8192 True files (''{"files":['', 10) of None \<Rightarrow> None | Some p \<Rightarrow>
             (case snprintf_at 8192 p ''],"folders":['' of None \<Rightarrow> None | Some p1 \<Rightarrow>
              (case json_items 8192 True folders p1 of None \<Rightarrow> None | Some p2 \<Rightarrow>
               (case snprintf_at 8192 p2 '']}'' of None \<Rightarrow> None
                | Some (response, _) \<Rightarrow> Some [(OP_VIEWFOLDER_RESPONSE, response)]))))
          else if rc = STORAGE_ERR_NOT_FOUND then Some [plain_error ''Folder not found'']
          else if rc = STORAGE_ERR_NOT_FOLDER then Some [plain_error ''Not a folder'']
          else if rc = STORAGE_ERR_NO_ACCESS then
            Some [plain_error ''Access denied - you do not own this folder'']
          else Some [error_reply ''Failed to list folder'' (storage_rc_code rc)])\<close>

section \<open>Replication\<close>

text \<open>What the connection to the source server yields; the source runs elsewhere.\<close>

datatype source_answer = Connect_Failed | Send_Failed | Recv_Failed | Answer u16 "string option"

definition replica_content :: "string \<Rightarrow> string option option" where
  \<open>replica_content resp_payload = (case strstr resp_payload ''"content":"'' of
     None \<Rightarrow> None
   | Some p \<Rightarrow> Some (map_option fst (strrchr (drop 11 p) DQ)))\<close>

definition handle_replicate_request :: "(string \<Rightarrow> nat \<Rightarrow> string \<Rightarrow> source_answer) \<Rightarrow> io \<Rightarrow> time_t
    \<Rightarrow> ss_state \<Rightarrow> string \<Rightarrow> (ss_state \<times> reply list) option" where
  \<open>handle_replicate_request source w now s payload =
     (let filename = ss_field payload ''filename'' 256 [];
          source_ip = ss_field payload ''source_ip'' 64 [];
          source_port = ss_json_get_ulong payload ''source_port'' mod 2 ^ 16
      in case source source_ip source_port (fit 512 (''{"filename":"'' @ filename @ ''"}'')) of
        Connect_Failed \<Rightarrow> Some (s, [plain_error ''Failed to connect to source SS''])
      | Send_Failed \<Rightarrow> Some (s, [plain_error ''Failed to send data request''])
      | Recv_Failed \<Rightarrow> Some (s, [plain_error ''Failed to receive data response''])
      | Answer opcode resp_payload \<Rightarrow>
          if opcode \<noteq> opcode_code OP_DATA_RESPONSE then Some (s, [plain_error ''Source returned error''])
          else (case resp_payload of
              None \<Rightarrow> None
            | Some r \<Rightarrow> (case replica_content r of
                None \<Rightarrow> Some (s, [plain_error ''No content in response''])
              | Some None \<Rightarrow> Some (s, [plain_error ''Invalid JSON format''])
              | Some (Some content) \<Rightarrow>
                  (case storage_engine_import w now (ss_disk s) (ss_engine s) filename content of
                     (rc, d, e) \<Rightarrow> Some (s\<lparr>ss_disk := d, ss_engine := e\<rparr>,
                       [if rc = STORAGE_OK then (OP_COMMAND_STATUS, ''{"status":"replicated"}'')
                        else plain_error ''Import failed''])))))\<close>

section \<open>Write sessions\<close>

record write_session =
  ws_filename :: string
  ws_sentence_idx :: nat
  ws_username :: string
  ws_updates :: "storage_word_update list"

text \<open>
  The sentence the request names, as the server finds it for the word count it reports: only
  blanks, tabs and newlines are skipped between sentences.
\<close>

fun find_sentence :: "string \<Rightarrow> nat \<Rightarrow> string" where
  "find_sentence start 0 = (case dropWhile (\<lambda>c. \<not> is_delim c) start of
     [] \<Rightarrow> start
   | c # _ \<Rightarrow> takeWhile (\<lambda>c. \<not> is_delim c) start @ [c])"
| "find_sentence start (Suc n) = (case dropWhile (\<lambda>c. \<not> is_delim c) start of
     [] \<Rightarrow> []
   | c # rest \<Rightarrow> find_sentence (dropWhile is_blank rest) n)"

definition session_word_count :: "storage_rc \<Rightarrow> string option \<Rightarrow> nat \<Rightarrow> nat" where
  "session_word_count rc content sentence_idx = (case (rc, content) of
     (STORAGE_OK, Some c) \<Rightarrow> length (tokens is_blank (fit 512 (find_sentence c sentence_idx)))
   | _ \<Rightarrow> 0)"

definition write_open :: "io \<Rightarrow> time_t \<Rightarrow> ss_state \<Rightarrow> string \<Rightarrow> ss_state \<times> reply list \<times> write_session option" where
  \<open>write_open w now s payload =
     (let filename = ss_field payload ''filename'' 256 [];
          sentence_idx = ss_json_get_ulong payload ''sentence'';
          username = ss_field payload ''username'' 128 ''unknown''
      in case storage_engine_info now (ss_disk s) (ss_engine s) filename of
        (rc, info, e) \<Rightarrow>
          (let s1 = s\<lparr>ss_engine := e\<rparr> in
           case (rc, info) of
             (STORAGE_OK, Some i) \<Rightarrow>
               if fi_sentence_count i < sentence_idx then
                 (s1, [error_reply ''Sentence index out of range'' (storage_rc_code STORAGE_ERR_INVALID)], None)
               else if is_sentence_locked (ss_locked_sentences s1) filename sentence_idx then
                 (s1, [error_reply ''Sentence is already locked by another client''
                         (storage_rc_code STORAGE_ERR_INVALID)], None)
               else
                 (let s2 = s1\<lparr>ss_locked_sentences := add_sentence_lock filename sentence_idx
                        (fi_modified_at i) (ss_locked_sentences s1), ss_active_writers := ss_active_writers s1 + 1\<rparr>
                  in case storage_engine_read w now (ss_disk s2) (ss_engine s2) filename of
                    (rc', content, d', e') \<Rightarrow>
                      (s2\<lparr>ss_disk := d', ss_engine := e'\<rparr>,
                       [(OP_WRITE_ACK, fit 512 (''{"status":"locked","sentence":'' @ show_nat sentence_idx @
                          '',"word_count":'' @ show_nat (session_word_count rc' content sentence_idx) @ ''}''))],
                       Some \<lparr>ws_filename = filename, ws_sentence_idx = sentence_idx, ws_username = username,
                             ws_updates = []\<rparr>))
           | _ \<Rightarrow> (s1, [error_reply ''File not found'' (storage_rc_code rc)], None)))\<close>

text \<open>One update message; the array of updates has 256 places and further ones are dropped.\<close>

definition write_update :: "write_session \<Rightarrow> string \<Rightarrow> write_session" where
  "write_update ws update_payload =
     (let word_idx = ss_json_get_ulong update_payload ''word_index'';
          content = ss_field update_payload ''content'' 512 []
      in if length (ws_updates ws) < 256
         then ws\<lparr>ws_updates := ws_updates ws @ [\<lparr>wu_index = word_idx, wu_text = Some content\<rparr>]\<rparr>
         else ws)"

definition write_commit :: "io \<Rightarrow> time_t \<Rightarrow> ss_state \<Rightarrow> write_session \<Rightarrow> ss_state \<times> reply list" where
  \<open>write_commit w now s ws =
     (let filename = ws_filename ws; sentence_idx = ws_sentence_idx ws;
          (stale, s1) =
            (case get_locked_sentence_version filename sentence_idx (ss_locked_sentences s) of
               None \<Rightarrow> (False, s)
             | Some locked_version \<Rightarrow>
                 (case storage_engine_info now (ss_disk s) (ss_engine s) filename of
                    (rc, cur_info, e) \<Rightarrow>
                      (case (rc, cur_info) of
                         (STORAGE_OK, Some i) \<Rightarrow> locked_version < fi_modified_at i
                       | _ \<Rightarrow> False,
                       s\<lparr>ss_engine := e\<rparr>)))
      in if stale then
           (s1, [error_reply ''File modified during edit'' (storage_rc_code STORAGE_ERR_INVALID)])
         else (case storage_engine_write w now (ss_disk s1) (ss_engine s1) filename sentence_idx
                      (ws_updates ws) 64 of
             (write_rc, undo_token, d, e) \<Rightarrow>
               (let s2 = s1\<lparr>ss_disk := d, ss_engine := e\<rparr> in
                if write_rc = STORAGE_OK then
                  (mark_access w now filename (ws_username ws) s2,
                   [(OP_WRITE_ACK, fit 256 (''{"status":"committed","undo_token":"'' @ undo_token @ ''"}''))])
                else (s2, [error_reply ''Write failed'' (storage_rc_code write_rc)]))))\<close>

definition write_close :: "time_t \<Rightarrow> ss_state \<Rightarrow> write_session \<Rightarrow> ss_state" where
  "write_close now s ws =
     (case storage_engine_unlock_sentence now (ss_disk s) (ss_engine s) (ws_filename ws) (ws_sentence_idx ws) of
        (_, e) \<Rightarrow> s\<lparr>ss_engine := e,
          ss_locked_sentences := remove_sentence_lock (ws_filename ws) (ws_sentence_idx ws) (ss_locked_sentences s),
          ss_active_writers := ss_active_writers s - 1\<rparr>)"

text \<open>
  One turn of the session's loop on a received message: the new state, the replies and the
  session if it goes on. \<open>None\<close> for the message stands for a failed receive; an update without
  payload dereferences a null pointer.
\<close>

definition write_turn :: "io \<Rightarrow> time_t \<Rightarrow> ss_state \<Rightarrow> write_session \<Rightarrow> (u16 \<times> string option) option
    \<Rightarrow> (ss_state \<times> reply list \<times> write_session option) option" where
  "write_turn w now s ws msg = (case msg of
     None \<Rightarrow> Some (write_close now s ws, [], None)
   | Some (opcode, update_payload) \<Rightarrow>
       if opcode = opcode_code OP_WRITE_COMMIT then
         (let (s1, out) = write_commit w now s ws in Some (write_close now s1 ws, out, None))
       else if opcode = opcode_code OP_WRITE_UPDATE then
         (case update_payload of
            None \<Rightarrow> None
          | Some p \<Rightarrow> Some (s, [], Some (write_update ws p)))
       else Some (write_close now s ws, [], None))"

section \<open>The dispatcher\<close>

definition client_handler_thread :: "(string \<Rightarrow> nat \<Rightarrow> string \<Rightarrow> source_answer) \<Rightarrow> io \<Rightarrow> time_t \<Rightarrow> ss_state
    \<Rightarrow> u16 \<Rightarrow> string option \<Rightarrow> (ss_state \<times> reply list \<times> write_session option) option" where
  "client_handler_thread source w now s opcode payload =
     (let run = (\<lambda>h. case payload of None \<Rightarrow> None | Some p \<Rightarrow> (case h p of (s', out) \<Rightarrow> Some (s', out, None)));
          view = (\<lambda>h. case payload of None \<Rightarrow> None | Some p \<Rightarrow> map_option (\<lambda>out. (s, out, None)) (h p))
      in case opcode_of opcode of
        Some OP_COMMAND_FORWARD \<Rightarrow> run (handle_create_request w now s)
      | Some OP_DATA_REQUEST \<Rightarrow> run (handle_read_request w now s)
      | Some OP_WRITE_REQUEST \<Rightarrow> map_option (write_open w now s) payload
      | Some OP_STREAM_REQUEST \<Rightarrow> run (handle_stream_request w now s)
      | Some OP_INFO_REQUEST \<Rightarrow> run (handle_info_request now s)
      | Some OP_UNDO_REQUEST \<Rightarrow> run (handle_undo_request w now s)
      | Some OP_DELETE_REQUEST \<Rightarrow> run (handle_delete_request s)
      | Some OP_CREATEFOLDER_REQUEST \<Rightarrow> run (handle_createfolder_request w s)
      | Some OP_MOVE_REQUEST \<Rightarrow> run (handle_move_request w s)
      | Some OP_VIEWFOLDER_REQUEST \<Rightarrow> view (handle_viewfolder_request s)
      | Some OP_CHECKPOINT_REQUEST \<Rightarrow> run (handle_checkpoint_request w now s)
      | Some OP_VIEWCHECKPOINT_REQUEST \<Rightarrow> view (\<lambda>p. Some (handle_viewcheckpoint_request s p))
      | Some OP_REVERT_CHECKPOINT_REQUEST \<Rightarrow> run (handle_revertcheckpoint_request w now s)
      | Some OP_LISTCHECKPOINTS_REQUEST \<Rightarrow> view (handle_listcheckpoints_request s)
      | Some OP_REPLICATE_FILE \<Rightarrow> (case payload of None \<Rightarrow> None
          | Some p \<Rightarrow> map_option (\<lambda>(s', out). (s', out, None)) (handle_replicate_request source w now s p))
      | Some OP_COMMAND_STATUS \<Rightarrow> Some (s, [], None)
      | _ \<Rightarrow> Some (s, [plain_error ''Unknown operation''], None))"

section \<open>Talking to the name server\<close>

text \<open>
  The connection outcomes are arguments: the descriptor \<open>tcp_connect\<close> gives, whether sending
  succeeds, and the opcode of the answer when one is received.
\<close>

definition register_payload :: "ss_state \<Rightarrow> string" where
  \<open>register_payload s = fit 1024 (''{"ss_id":"'' @ ss_id s @ ''","nm_ip":"'' @ ss_nm_host s @
     ''","client_port":'' @ show_nat (unat (ss_client_port s)) @
     '',"capacity_bytes":'' @ show_nat 268435456 @
     '',"active_load":{"readers":0,"writers":0},"file_manifest":[]}'')\<close>

definition register_with_nm :: "int \<Rightarrow> bool \<Rightarrow> u16 option \<Rightarrow> ss_state \<Rightarrow> bool \<times> ss_state" where
  "register_with_nm fd sent answer s =
     (if fd < 0 then (False, s\<lparr>ss_nm_fd := fd\<rparr>)
      else let s1 = s\<lparr>ss_nm_fd := fd, ss_request_counter := ss_request_counter s + 1\<rparr> in
        if \<not> sent \<or> answer \<noteq> Some (opcode_code OP_REGISTER_ACK) then (False, s1\<lparr>ss_nm_fd := -1\<rparr>)
        else (True, s1))"

definition heartbeat_payload :: "ss_state \<Rightarrow> string" where
  \<open>heartbeat_payload s = fit 256 (''{"ss_id":"'' @ ss_id s @ ''","readers":'' @
     show_nat (unat (ss_active_readers s)) @ '',"writers":'' @ show_nat (unat (ss_active_writers s)) @ ''}'')\<close>

definition send_heartbeat :: "bool \<Rightarrow> int \<Rightarrow> bool \<Rightarrow> u16 option \<Rightarrow> ss_state \<Rightarrow> ss_state" where
  "send_heartbeat sent fd resent answer s =
     (if ss_nm_fd s < 0 then s
      else let s1 = s\<lparr>ss_request_counter := ss_request_counter s + 1\<rparr> in
        if sent then s1 else snd (register_with_nm fd resent answer (s1\<lparr>ss_nm_fd := -1\<rparr>)))"

end
