(* ===== verification/Write_Sessions.thy ===== *)
theory Write_Sessions
  imports Storage_Server Engine_Correct
begin

text \<open>
  Concurrent write sessions of a storage server. Each client's WRITE conversation is a session;
  sessions and single requests of any number of clients interleave as steps of one state
  machine, in which the lock table of \<open>storage_server/src/main.c\<close> decides who may edit a
  sentence. The interface of the lock table is the locale \<open>lock_table\<close>.
\<close>

section \<open>The contract of a lock table\<close>

locale lock_table =
  fixes locked :: "'l \<Rightarrow> 'k \<Rightarrow> bool"
    and acquire :: "'k \<Rightarrow> 'v \<Rightarrow> 'l \<Rightarrow> 'l"
    and release :: "'k \<Rightarrow> 'l \<Rightarrow> 'l"
    and version :: "'k \<Rightarrow> 'l \<Rightarrow> 'v option"
    and ok_key :: "'k \<Rightarrow> bool"
    and inv :: "'l \<Rightarrow> bool"
  assumes locked_acquire: "ok_key k \<Longrightarrow> locked (acquire k v l) j \<longleftrightarrow> j = k \<or> locked l j"
    and locked_release: "inv l \<Longrightarrow> locked (release k l) j \<longleftrightarrow> j \<noteq> k \<and> locked l j"
    and inv_acquire: "ok_key k \<Longrightarrow> inv l \<Longrightarrow> \<not> locked l k \<Longrightarrow> inv (acquire k v l)"
    and inv_release: "inv l \<Longrightarrow> inv (release k l)"
    and version_acquire: "ok_key k \<Longrightarrow> version j (acquire k v l) = (if j = k then Some v else version j l)"
    and version_release: "inv l \<Longrightarrow> j \<noteq> k \<Longrightarrow> version j (release k l) = version j l"
    and version_locked: "version k l \<noteq> None \<longleftrightarrow> locked l k"
begin

definition held_by :: "'l \<Rightarrow> 'k list \<Rightarrow> bool" where
  "held_by l ks \<longleftrightarrow> inv l \<and> distinct ks \<and> (\<forall>k. locked l k \<longleftrightarrow> k \<in> set ks)"

lemma held_acquire:
  "held_by l ks \<Longrightarrow> ok_key k \<Longrightarrow> \<not> locked l k \<Longrightarrow> held_by (acquire k v l) (k # ks)"
  by (auto simp: held_by_def locked_acquire inv_acquire)

lemma held_release: "held_by l (ks @ k # js) \<Longrightarrow> held_by (release k l) (ks @ js)"
  by (auto simp: held_by_def locked_release inv_release)

lemma held_version:
  "held_by l ks \<Longrightarrow> k \<in> set ks \<Longrightarrow> \<exists>v. version k l = Some v"
  using version_locked by (auto simp: held_by_def)

lemma release_restores:
  "ok_key k \<Longrightarrow> inv l \<Longrightarrow> \<not> locked l k \<Longrightarrow> locked (release k (acquire k v l)) j \<longleftrightarrow> locked l j"
  by (auto simp: locked_release inv_acquire locked_acquire)

end

definition locks_inv :: "lock_entry list \<Rightarrow> bool" where
  "locks_inv ls \<longleftrightarrow> distinct (map lock_key ls)"

lemma lock_key_match: "(\<lambda>l. le_filename l = f \<and> le_sentence_idx l = i) = (\<lambda>l. lock_key l = (f, i))"
  by (auto simp: lock_key_def)

lemma remove_sentence_lock_filter:
  "locks_inv ls \<Longrightarrow> remove_sentence_lock f i ls = filter (\<lambda>l. lock_key l \<noteq> (f, i)) ls"
  unfolding remove_sentence_lock_def lock_key_match locks_inv_def by (rule remove_first_key)

lemma is_sentence_locked_set: "is_sentence_locked ls f i \<longleftrightarrow> (f, i) \<in> lock_key ` set ls"
  by (auto simp: is_sentence_locked_def list_ex_iff lock_key_def)

interpretation sentence_locks: lock_table
  "\<lambda>ls (f, i). is_sentence_locked ls f i" "\<lambda>(f, i). add_sentence_lock f i"
  "\<lambda>(f, i). remove_sentence_lock f i" "\<lambda>(f, i). get_locked_sentence_version f i"
  "\<lambda>(f, i). length f < 256" locks_inv
proof (unfold_locales, goal_cases)
  case (1 k v l j)
  then show ?case by (auto simp: is_sentence_locked_set add_sentence_lock_def lock_key_def fit_id)
next
  case (2 l k j)
  then show ?case by (cases k; cases j) (auto simp: is_sentence_locked_set remove_sentence_lock_filter)
next
  case (3 k l v)
  then show ?case
    by (auto simp: locks_inv_def add_sentence_lock_def is_sentence_locked_set) (auto simp: lock_key_def fit_id)
next
  case (4 l k)
  then show ?case
    by (cases k) (auto simp: remove_sentence_lock_filter, auto simp: locks_inv_def distinct_map_filter)
next
  case (5 k j v l)
  then show ?case
    by (auto simp: get_locked_sentence_version_def add_sentence_lock_def fit_id split: prod.splits)
next
  case (6 l j k)
  obtain f i where k: "k = (f, i)" by (cases k)
  obtain g h where j: "j = (g, h)" by (cases j)
  have "find (\<lambda>l. lock_key l = (g, h)) (filter (\<lambda>l. lock_key l \<noteq> (f, i)) l) = find (\<lambda>l. lock_key l = (g, h)) l"
    using 6 k j by (intro find_filter_other) auto
  with 6 k j show ?case
    by (simp add: get_locked_sentence_version_def remove_sentence_lock_filter lock_key_match)
next
  case (7 k l)
  obtain f i where k: "k = (f, i)" by (cases k)
  have "find (\<lambda>l. lock_key l = (f, i)) l \<noteq> None \<longleftrightarrow> (f, i) \<in> lock_key ` set l"
    by (induction l) auto
  with k show ?case by (simp add: get_locked_sentence_version_def lock_key_match is_sentence_locked_set)
qed

section \<open>What requests leave alone\<close>

definition same_locks :: "ss_state \<Rightarrow> ss_state \<Rightarrow> bool" where
  "same_locks s s' \<longleftrightarrow> ss_locked_sentences s' = ss_locked_sentences s \<and> ss_active_writers s' = ss_active_writers s
     \<and> (engine_ok (ss_engine s) \<longrightarrow> engine_ok (ss_engine s'))"

lemma same_locks_refl [simp]: "same_locks s s"
  by (simp add: same_locks_def)

lemma same_locks_engine:
  "(engine_ok (ss_engine s) \<Longrightarrow> engine_ok e) \<Longrightarrow> same_locks s (s\<lparr>ss_disk := d, ss_engine := e\<rparr>)"
  "(engine_ok (ss_engine s) \<Longrightarrow> engine_ok e) \<Longrightarrow> same_locks s (s\<lparr>ss_engine := e\<rparr>)"
  "same_locks s (s\<lparr>ss_disk := d\<rparr>)"
  by (simp_all add: same_locks_def)

lemma same_locks_trans: "same_locks s s' \<Longrightarrow> same_locks s' s'' \<Longrightarrow> same_locks s s''"
  by (simp add: same_locks_def)

lemma same_locks_mark: "same_locks s (mark_access w now f u s)"
  by (auto simp: mark_access_def split: prod.splits intro!: same_locks_engine dest: mark_access_ok)

lemma same_locks_mark_after: "same_locks s s' \<Longrightarrow> same_locks s (mark_access w now f u s')"
  using same_locks_mark same_locks_trans by blast

lemmas same_locks_intros = same_locks_engine same_locks_mark_after

lemma requests_same_locks:
  "same_locks s (fst (handle_read_request w now s p))"
  "same_locks s (fst (handle_stream_request w now s p))"
  "same_locks s (fst (handle_delete_request s p))"
  "same_locks s (fst (handle_checkpoint_request w now s p))"
  "same_locks s (fst (handle_revertcheckpoint_request w now s p))"
  "same_locks s (fst (handle_undo_request w now s p))"
  "same_locks s (fst (handle_info_request now s p))"
  "same_locks s (fst (handle_create_request w now s p))"
  "same_locks s (fst (handle_createfolder_request w s p))"
  "same_locks s (fst (handle_move_request w s p))"
  by (auto simp: handle_read_request_def handle_stream_request_def handle_delete_request_def
      handle_checkpoint_request_def handle_revertcheckpoint_request_def handle_undo_request_def
      handle_info_request_def handle_create_request_def handle_createfolder_request_def
      handle_move_request_def Let_def
      split: prod.splits storage_rc.splits option.splits
      intro!: same_locks_intros
      dest: read_ok delete_file_ok checkpoint_ok revert_ok undo_ok info_ok create_file_ok move_ok)

lemma replicate_same_locks:
  "handle_replicate_request source w now s p = Some (s', out) \<Longrightarrow> same_locks s s'"
  by (auto simp: handle_replicate_request_def Let_def intro!: same_locks_intros dest: import_ok
      split: source_answer.splits if_splits option.splits prod.splits)

section \<open>Sessions as a state machine\<close>

record ss_server =
  sv_state :: ss_state
  sv_sessions :: "(nat \<times> write_session) list"

definition session_key :: "write_session \<Rightarrow> string \<times> nat" where
  "session_key ws = (ws_filename ws, ws_sentence_idx ws)"

inductive server_step :: "ss_server \<Rightarrow> ss_server \<Rightarrow> bool" where
  request: "client_handler_thread source w now (sv_state v) opcode payload = Some (s', out, None)
     \<Longrightarrow> server_step v (v\<lparr>sv_state := s'\<rparr>)"
| opened: "client_handler_thread source w now (sv_state v) opcode payload = Some (s', out, Some ws)
     \<Longrightarrow> c \<notin> fst ` set (sv_sessions v)
     \<Longrightarrow> server_step v (v\<lparr>sv_state := s', sv_sessions := (c, ws) # sv_sessions v\<rparr>)"
| continued: "sv_sessions v = xs @ (c, ws) # ys
     \<Longrightarrow> write_turn w now (sv_state v) ws msg = Some (s', out, Some ws')
     \<Longrightarrow> server_step v (v\<lparr>sv_state := s', sv_sessions := xs @ (c, ws') # ys\<rparr>)"
| finished: "sv_sessions v = xs @ (c, ws) # ys
     \<Longrightarrow> write_turn w now (sv_state v) ws msg = Some (s', out, None)
     \<Longrightarrow> server_step v (v\<lparr>sv_state := s', sv_sessions := xs @ ys\<rparr>)"

inductive_cases server_stepE: "server_step v v'"

inductive server_reach :: "ss_server \<Rightarrow> bool" where
  start: "engine_ok (ss_engine s) \<Longrightarrow> ss_locked_sentences s = [] \<Longrightarrow> ss_active_writers s = 0
     \<Longrightarrow> server_reach \<lparr>sv_state = s, sv_sessions = []\<rparr>"
| step: "server_reach v \<Longrightarrow> server_step v v' \<Longrightarrow> server_reach v'"

definition server_inv :: "ss_server \<Rightarrow> bool" where
  "server_inv v \<longleftrightarrow> engine_ok (ss_engine (sv_state v))
     \<and> sentence_locks.held_by (ss_locked_sentences (sv_state v)) (map (session_key \<circ> snd) (sv_sessions v))
     \<and> ss_active_writers (sv_state v) = of_nat (length (sv_sessions v))
     \<and> list_all (\<lambda>(c, ws). length (ws_filename ws) < 256) (sv_sessions v)"

lemma ss_field_fit: "length d < n \<Longrightarrow> length (ss_field p k n d) < n"
  by (auto simp: ss_field_def ss_json_get_string_def Let_def length_fit split: option.splits)

lemma write_open_cases:
  assumes "write_open w now s p = (s', out, new)"
  obtains (refused) "new = None" and "same_locks s s'"
  | (granted) ws v where "new = Some ws" and "length (ws_filename ws) < 256" and "ws_updates ws = []"
      and "\<not> is_sentence_locked (ss_locked_sentences s) (ws_filename ws) (ws_sentence_idx ws)"
      and "ss_locked_sentences s' = add_sentence_lock (ws_filename ws) (ws_sentence_idx ws) v (ss_locked_sentences s)"
      and "ss_active_writers s' = ss_active_writers s + 1"
      and "engine_ok (ss_engine s) \<Longrightarrow> engine_ok (ss_engine s')"
proof -
  let ?f = "ss_field p ''filename'' 256 []" and ?i = "ss_json_get_ulong p ''sentence''"
  obtain rc info e where i: "storage_engine_info now (ss_disk s) (ss_engine s) ?f = (rc, info, e)"
    by (metis prod_cases3)
  have e: "engine_ok (ss_engine s) \<Longrightarrow> engine_ok e" using info_ok [OF i] .
  have sl: "same_locks s (s\<lparr>ss_engine := e\<rparr>)" using e by (rule same_locks_engine(2))
  show ?thesis
  proof (cases "\<exists>y. rc = STORAGE_OK \<and> info = Some y \<and> \<not> fi_sentence_count y < ?i
      \<and> \<not> is_sentence_locked (ss_locked_sentences s) ?f ?i")
    case False
    then have "new = None \<and> s' = s\<lparr>ss_engine := e\<rparr>"
      using assms i by (auto simp: write_open_def Let_def split: storage_rc.splits option.splits if_splits)
    with sl show ?thesis by (intro refused) auto
  next
    case True
    then obtain y where y: "rc = STORAGE_OK" "info = Some y" "\<not> fi_sentence_count y < ?i"
      "\<not> is_sentence_locked (ss_locked_sentences s) ?f ?i" by blast
    obtain rc' c d' e' where r: "storage_engine_read w now (ss_disk s) e ?f = (rc', c, d', e')"
      by (metis prod_cases4)
    show ?thesis
    proof (rule granted [of "\<lparr>ws_filename = ?f, ws_sentence_idx = ?i,
          ws_username = ss_field p ''username'' 128 ''unknown'', ws_updates = []\<rparr>" "fi_modified_at y"])
      show "engine_ok (ss_engine s')" if "engine_ok (ss_engine s)"
        using assms i y r read_ok [OF r e [OF that]] by (auto simp: write_open_def Let_def)
    qed (use assms i y r in \<open>auto simp: write_open_def Let_def ss_field_fit\<close>)
  qed
qed

lemma handler_same_locks:
  assumes "client_handler_thread source w now s opcode payload = Some (s', out, None)"
  shows "same_locks s s'"
proof -
  have W: "same_locks s s'" if "write_open w now s p = (s', out, None)" for p
    using that by (cases rule: write_open_cases) auto
  show ?thesis using assms W
    by (auto simp: client_handler_thread_def Let_def
        split: option.splits protocol_opcode_t.splits prod.splits
        dest: replicate_same_locks)
       (metis fst_conv requests_same_locks)+
qed

lemma handler_opened:
  assumes "client_handler_thread source w now s opcode payload = Some (s', out, Some ws)"
  obtains p where "write_open w now s p = (s', out, Some ws)"
  using assms by (auto simp: client_handler_thread_def Let_def
      split: option.splits protocol_opcode_t.splits prod.splits)

lemma commit_same_locks: "same_locks s (fst (write_commit w now s ws))"
proof -
  have I: "engine_ok (ss_engine s) \<Longrightarrow> engine_ok e"
    if "storage_engine_info now (ss_disk s) (ss_engine s) f = (rc, i, e)" for f rc i e
    using info_ok [OF that] .
  show ?thesis
    by (auto simp: write_commit_def Let_def split: prod.splits option.splits if_splits storage_rc.splits
        intro!: same_locks_intros dest: I write_ok) (auto simp: same_locks_def dest: I write_ok)
qed

lemma write_close_simps:
  "ss_locked_sentences (write_close now s ws) =
     remove_sentence_lock (ws_filename ws) (ws_sentence_idx ws) (ss_locked_sentences s)"
  "ss_active_writers (write_close now s ws) = ss_active_writers s - 1"
  "engine_ok (ss_engine s) \<Longrightarrow> engine_ok (ss_engine (write_close now s ws))"
  by (auto simp: write_close_def split: prod.splits dest: unlock_ok)

lemma write_turn_cases:
  assumes "write_turn w now s ws msg = Some (s', out, nxt)"
  obtains (goes_on) ws' where "nxt = Some ws'" and "s' = s" and "session_key ws' = session_key ws"
  | (ends) s1 where "nxt = None" and "same_locks s s1" and "s' = write_close now s1 ws"
proof (cases nxt)
  case (Some ws')
  with assms show ?thesis
    by (intro goes_on [of ws']) (auto simp: write_turn_def write_update_def session_key_def Let_def
        split: option.splits if_splits prod.splits)
next
  case None
  with assms have "\<exists>s1. (s1 = s \<or> s1 = fst (write_commit w now s ws)) \<and> s' = write_close now s1 ws"
    by (auto simp: write_turn_def Let_def split: option.splits if_splits prod.splits)
  then obtain s1 where "s1 = s \<or> s1 = fst (write_commit w now s ws)" and "s' = write_close now s1 ws"
    by blast
  moreover from this(1) have "same_locks s s1" using commit_same_locks same_locks_refl by blast
  ultimately show ?thesis using None by (intro ends [of s1])
qed

lemma server_inv_step:
  assumes "server_step v v'" and "server_inv v"
  shows "server_inv v'"
  using assms(1)
proof cases
  case (request source w now opcode payload s' out)
  with handler_same_locks assms(2) show ?thesis by (fastforce simp: server_inv_def same_locks_def)
next
  case (opened source w now opcode payload s' out ws c)
  obtain p where "write_open w now (sv_state v) p = (s', out, Some ws)"
    using handler_opened [OF opened(2)] .
  then show ?thesis
  proof (cases rule: write_open_cases)
    case (granted ws' t)
    have "sentence_locks.held_by (ss_locked_sentences s') (session_key ws # map (session_key \<circ> snd) (sv_sessions v))"
      using sentence_locks.held_acquire [of "ss_locked_sentences (sv_state v)" _ "session_key ws" t]
        granted assms(2) by (auto simp: server_inv_def session_key_def)
    with opened granted assms(2) show ?thesis by (simp add: server_inv_def add.commute)
  qed simp
next
  case (continued xs c ws ys w now msg s' out ws')
  from continued(3) show ?thesis
  proof (cases rule: write_turn_cases)
    case (goes_on ws'')
    with continued assms(2) show ?thesis by (auto simp: server_inv_def session_key_def)
  qed simp
next
  case (finished xs c ws ys w now msg s' out)
  from finished(3) show ?thesis
  proof (cases rule: write_turn_cases)
    case (ends s1)
    have "sentence_locks.held_by (ss_locked_sentences (sv_state v))
        (map (session_key \<circ> snd) xs @ (ws_filename ws, ws_sentence_idx ws) # map (session_key \<circ> snd) ys)"
      using assms(2) finished(2) by (simp add: server_inv_def session_key_def)
    from sentence_locks.held_release [OF this] finished ends assms(2) show ?thesis
      by (auto simp: server_inv_def same_locks_def write_close_simps)
  qed simp
qed

lemma server_reach_inv: "server_reach v \<Longrightarrow> server_inv v"
proof (induction rule: server_reach.induct)
  case (start s)
  have "sentence_locks.held_by [] []"
    unfolding sentence_locks.held_by_def by (auto simp: locks_inv_def is_sentence_locked_def)
  with start show ?case by (simp add: server_inv_def)
next
  case (step v v')
  then show ?case using server_inv_step by blast
qed

end
