(* ===== verification/Server_Properties.thy ===== *)
theory Server_Properties
  imports Write_Sessions Engine_Properties
begin

text \<open>
  The properties of the storage server: exclusive write sessions, the version check at commit,
  replication, and the limits of its replies.
\<close>

section \<open>A concrete server\<close>

definition server0 :: ss_state where
  "server0 = \<lparr>ss_id = ''s'', ss_nm_host = ''h'', ss_nm_port = 9, ss_client_port = 9000, ss_nm_fd = 3, ss_engine = engine0,
     ss_disk = disk0, ss_active_readers = 0, ss_active_writers = 0, ss_request_counter = 0,
     ss_locked_sentences = []\<rparr>"

definition request0 :: string where
  \<open>request0 = ''{"filename":"a","sentence":0,"username":"u"}''\<close>

lemma request0_fields: "ss_field request0 ''filename'' 256 [] = ''a''"
  "ss_json_get_ulong request0 ''sentence'' = 0"
  by (simp_all add: request0_def ss_field_def ss_json_get_string_def ss_json_get_ulong_def fit_def
      strtoul_def is_space_def is_digit_def ULONG_MAX_def digit_val_def)

lemma info0: "storage_engine_info now d engine0 ''a'' = (STORAGE_OK, Some \<lparr>fi_filename = ''a'', fi_owner = ''u'',
    fi_word_count = 3, fi_char_count = 11, fi_sentence_count = 1, fi_created_at = 0, fi_modified_at = 0,
    fi_last_accessed = 0, fi_last_accessed_by = []\<rparr>, engine0)"
proof -
  have "sf_owner doc0 = ''u''" "sf_created_at doc0 = 0" "sf_modified_at doc0 = 0" "sf_last_accessed doc0 = 0"
      "sf_last_accessed_by doc0 = []"
    by (simp_all add: doc0_def engine_simps allocate_file_def fit_def)
  moreover have "sf_word_count doc0 = 3" "sf_char_count doc0 = 11" "sf_sentence_count doc0 = 1"
    using file_ok_parts(3) [OF doc0_ok] unfolding meta_ok_def doc0_content doc0_spans
    by (simp_all add: text_eval)
  ultimately show ?thesis
    by (simp add: storage_engine_info_def engine0_load engine0_file doc0_content fit_def)
qed

lemma open0:
  obtains s' out ws where "client_handler_thread source io_fine 6 server0 (opcode_code OP_WRITE_REQUEST) (Some request0)
      = Some (s', out, Some ws)" and "session_key ws = (''a'', 0)"
proof -
  obtain s' out new where o: "write_open io_fine 6 server0 request0 = (s', out, new)" by (metis prod_cases3)
  have "\<exists>ws. new = Some ws \<and> session_key ws = (''a'', 0)"
    using o by (auto simp: write_open_def request0_fields server0_def info0 is_sentence_locked_def
        session_key_def Let_def split: prod.splits)
  with o that show ?thesis
    by (auto simp: client_handler_thread_def Let_def opcode_of_code simp del: opcode_code.simps)
qed

section \<open>Write sessions\<close>

text \<open>
  C2: write sessions exclude each other. In every reachable state of a storage server, with any
  number of clients whose requests and session messages interleave in any order, no two open
  sessions edit the same sentence of the same file, a sentence is in the lock table exactly when
  a session edits it (so a finished, aborted or disconnected session leaves no lock), and the
  number of writers the server reports is the number of open sessions.
\<close>

theorem sessions_exclusive:
  assumes "server_reach v"
  shows "distinct (map (session_key \<circ> snd) (sv_sessions v))
    \<and> (\<forall>f i. is_sentence_locked (ss_locked_sentences (sv_state v)) f i
          \<longleftrightarrow> (f, i) \<in> (session_key \<circ> snd) ` set (sv_sessions v))
    \<and> ss_active_writers (sv_state v) = of_nat (length (sv_sessions v))"
  using server_reach_inv [OF assms] unfolding server_inv_def sentence_locks.held_by_def by force

theorem sessions_exclusive_witness:
  "\<exists>v c ws. server_reach v \<and> sv_sessions v = [(c, ws)] \<and> session_key ws = (''a'', 0)
     \<and> is_sentence_locked (ss_locked_sentences (sv_state v)) ''a'' 0"
proof -
  obtain s' out ws where o: "client_handler_thread (\<lambda>_ _ _. Connect_Failed) io_fine 6 server0
      (opcode_code OP_WRITE_REQUEST) (Some request0) = Some (s', out, Some ws)" and k: "session_key ws = (''a'', 0)"
    by (rule open0)
  have "server_reach \<lparr>sv_state = server0, sv_sessions = []\<rparr>"
    by (rule server_reach.start) (simp_all add: server0_def engine0_ok)
  moreover have "server_step \<lparr>sv_state = server0, sv_sessions = []\<rparr> \<lparr>sv_state = s', sv_sessions = [(7, ws)]\<rparr>"
    using server_step.opened [of "\<lambda>_ _ _. Connect_Failed" io_fine 6 "\<lparr>sv_state = server0, sv_sessions = []\<rparr>", simplified, OF o, of 7]
    by simp
  ultimately have r: "server_reach \<lparr>sv_state = s', sv_sessions = [(7, ws)]\<rparr>" by (rule server_reach.step)
  from sessions_exclusive [OF r] k have "is_sentence_locked (ss_locked_sentences s') ''a'' 0" by simp
  with r k show ?thesis by (intro exI [of _ "\<lparr>sv_state = s', sv_sessions = [(7, ws)]\<rparr>"]) auto
qed



section \<open>Replication\<close>

lemma replica_content_reply:
  \<open>replica_content (''{"content":"'' @ c @ ''"}'') = Some (Some c)\<close>
proof -
  have "strrchr (c @ DQ # ''}'') DQ = Some (c, ''}'')" by (rule strrchr_append) simp
  then show ?thesis by (simp add: replica_content_def)
qed



section \<open>The limits of replies and requests\<close>

lemma json_items_bound:
  assumes "list_all (\<lambda>t. length t \<le> 97) xs" and "snd p \<le> 8191"
  shows "\<exists>q. json_items 8192 first xs p = Some q \<and> snd q \<le> 8191"
  using assms
proof (induction xs arbitrary: first p)
  case (Cons x xs)
  show ?case
  proof (cases "8092 \<le> snd p")
    case False
    let ?p1 = "if first then Some p else snprintf_at 8192 p '',''"
    obtain p1 where p1: "?p1 = Some p1" "snd p1 \<le> 8092"
      using False by (cases first; cases p) (auto simp: snprintf_at_def)
    obtain p2 where p2: \<open>snprintf_at 8192 p1 (''"'' @ x @ ''"'') = Some p2\<close> "snd p2 \<le> 8191"
      using p1(2) Cons.prems(1) by (cases p1) (auto simp: snprintf_at_def)
    from Cons.IH [of p2 False] Cons.prems(1) p2(2) obtain q where
      "json_items 8192 False xs p2 = Some q" "snd q \<le> 8191" by auto
    with False p1(1) p2(1) show ?thesis by simp
  qed (use Cons in simp)
qed simp

text \<open>
  A checkpoint list whose tags have at most 97 characters is always answered within the
  server's 8192-byte buffer: the handler never writes outside it.
\<close>

theorem listcheckpoints_in_bounds:
  assumes "list_all (\<lambda>t. length t \<le> 97)
      (snd (storage_engine_list_checkpoints (ss_disk s) (ss_engine s) (ss_field p ''filename'' 256 [])))"
  shows "handle_listcheckpoints_request s p \<noteq> None"
proof -
  obtain rc tags where t: "storage_engine_list_checkpoints (ss_disk s) (ss_engine s)
      (ss_field p ''filename'' 256 []) = (rc, tags)" by fastforce
  obtain q where q: \<open>json_items 8192 True tags (''{"checkpoints":['', 16) = Some q\<close> "snd q \<le> 8191"
    using json_items_bound [of tags \<open>(''{"checkpoints":['', 16)\<close> True] assms t by auto
  then show ?thesis using t
    by (cases q) (auto simp: handle_listcheckpoints_request_def snprintf_at_def)
qed

theorem listcheckpoints_in_bounds_witness:
  "handle_listcheckpoints_request server0 request0 \<noteq> None"
proof (rule listcheckpoints_in_bounds)
  show "list_all (\<lambda>t. length t \<le> 97) (snd (storage_engine_list_checkpoints (ss_disk server0) (ss_engine server0)
      (ss_field request0 ''filename'' 256 [])))"
    by (simp add: request0_fields server0_def storage_engine_list_checkpoints_def path_eval engine0_fields
        sys_readdir_def disk_eval)
qed

lemma json_items_replicate:
  "off + n * (length x + 3) < sz - 100 + (length x + 3) \<Longrightarrow>
   \<exists>b'. json_items sz False (replicate n x) (b, off) = Some (b', off + n * (length x + 3))"
proof (induction n arbitrary: b off)
  case (Suc n)
  have o: "off < sz - 100" using Suc.prems by simp
  have p1: "snprintf_at sz (b, off) '','' = Some (fit sz (b @ '',''), off + 1)"
    using o by (simp add: snprintf_at_def)
  have p2: \<open>snprintf_at sz (fit sz (b @ '',''), off + 1) (''"'' @ x @ ''"'')
      = Some (fit sz (fit sz (b @ '','') @ ''"'' @ x @ ''"''), off + (length x + 3))\<close>
    using o by (simp add: snprintf_at_def)
  have "off + (length x + 3) + n * (length x + 3) < sz - 100 + (length x + 3)"
    using Suc.prems by (simp add: algebra_simps)
  from Suc.IH [OF this, of \<open>fit sz (fit sz (b @ '','') @ ''"'' @ x @ ''"'')\<close>] o p1 p2 show ?case
    by (auto simp: algebra_simps simp del: append_Cons append.simps)
qed simp

text \<open>
  Longer tags overflow the buffer. Tags of 127 characters are accepted by the checkpoint
  request, and 63 of them make the listing continue at an offset behind the end of its 8192-byte
  buffer.
\<close>

theorem listcheckpoints_overflow:
  \<open>is_valid_checkpoint_tag (replicate 127 (CHR ''t'')) \<and>
   (case json_items 8192 True (replicate 63 (replicate 127 (CHR ''t''))) (''{"checkpoints":['', 16) of
      None \<Rightarrow> True | Some p \<Rightarrow> snprintf_at 8192 p '']}'' = None)\<close>
proof -
  let ?x = "replicate 127 (CHR ''t'')"
  let ?p = \<open>snprintf_at 8192 (''{"checkpoints":['', 16) (''"'' @ ?x @ ''"'')\<close>
  obtain b where p: "?p = Some (b, 145)" by (simp add: snprintf_at_def)
  obtain b' where r: "json_items 8192 False (replicate 62 ?x) (b, 145) = Some (b', 8205)"
    using json_items_replicate [of 145 62 ?x 8192 b] by auto
  have "replicate 63 ?x = ?x # replicate 62 ?x" by (simp add: numeral_eq_Suc)
  then have \<open>json_items 8192 True (replicate 63 ?x) (''{"checkpoints":['', 16) = Some (b', 8205)\<close>
    using p r by simp
  then show ?thesis by (simp add: is_valid_checkpoint_tag_def snprintf_at_def list_all_iff)
qed

text \<open>
  Every request that is answered by a handler needs a payload: with an empty one the handler
  searches in a null pointer. Only an unexpected status message and unknown opcodes are safe.
\<close>

theorem empty_request_unsafe:
  "client_handler_thread source w now s opcode None \<noteq> None
     \<longleftrightarrow> opcode_of opcode \<notin> Some ` {OP_COMMAND_FORWARD, OP_DATA_REQUEST, OP_WRITE_REQUEST, OP_STREAM_REQUEST,
       OP_INFO_REQUEST, OP_UNDO_REQUEST, OP_DELETE_REQUEST, OP_CREATEFOLDER_REQUEST, OP_MOVE_REQUEST,
       OP_VIEWFOLDER_REQUEST, OP_CHECKPOINT_REQUEST, OP_VIEWCHECKPOINT_REQUEST, OP_REVERT_CHECKPOINT_REQUEST,
       OP_LISTCHECKPOINTS_REQUEST, OP_REPLICATE_FILE}"
  by (cases "opcode_of opcode") (auto simp: client_handler_thread_def Let_def split: protocol_opcode_t.splits)

end
