(* ===== verification/File_Index.thy ===== *)
theory File_Index
  imports C_Strings
begin

text \<open>
  \<open>name_server/src/file_index.c\<close>: the trie from file names to file records, the records and
  their access lists. The code hands out pointers to records, which the cache keeps; a pointer
  is a number here and the record it points to is in the index's heap, so that a freed record is
  absent from the heap and a pointer to it is recognisably dangling.
\<close>

section \<open>Records and access lists\<close>

definition MAX_FILENAME_LEN :: nat where "MAX_FILENAME_LEN = 256"
definition MAX_USERNAME_LEN :: nat where "MAX_USERNAME_LEN = 128"
definition MAX_SS_PER_FILE :: nat where "MAX_SS_PER_FILE = 8"

record acl_entry =
  ae_username :: string
  ae_can_read :: bool
  ae_can_write :: bool

record file_record =
  fr_filename :: string
  fr_owner :: string
  fr_ss_ids :: "string list"
  fr_acl :: "acl_entry list"
  fr_acl_capacity :: nat
  fr_created_at :: time_t
  fr_modified_at :: time_t
  fr_word_count :: nat
  fr_char_count :: nat
  fr_sentence_count :: nat

definition file_record_add_acl :: "string \<Rightarrow> bool \<Rightarrow> bool \<Rightarrow> file_record \<Rightarrow> file_record" where
  "file_record_add_acl username can_read can_write r =
     (if list_ex (\<lambda>a. ae_username a = username) (fr_acl r)
      then r\<lparr>fr_acl := update_first (\<lambda>a. ae_username a = username)
               (\<lambda>a. a\<lparr>ae_can_read := can_read, ae_can_write := can_write\<rparr>) (fr_acl r)\<rparr>
      else r\<lparr>fr_acl_capacity := (if fr_acl_capacity r \<le> length (fr_acl r)
                 then if fr_acl_capacity r \<noteq> 0 then fr_acl_capacity r * 2 else 4
                 else fr_acl_capacity r),
             fr_acl := fr_acl r @ [\<lparr>ae_username = fit MAX_USERNAME_LEN username,
                 ae_can_read = can_read, ae_can_write = can_write\<rparr>]\<rparr>)"

definition file_record_remove_acl :: "string \<Rightarrow> file_record \<Rightarrow> file_record option" where
  "file_record_remove_acl username r =
     (if list_ex (\<lambda>a. ae_username a = username) (fr_acl r)
      then Some (r\<lparr>fr_acl := remove_first (\<lambda>a. ae_username a = username) (fr_acl r)\<rparr>)
      else None)"

definition file_record_find_acl :: "file_record \<Rightarrow> string \<Rightarrow> acl_entry option" where
  "file_record_find_acl r username = find (\<lambda>a. ae_username a = username) (fr_acl r)"

definition file_record_check_access :: "file_record \<Rightarrow> string \<Rightarrow> bool \<Rightarrow> bool" where
  "file_record_check_access r username need_write =
     (if fr_owner r = username then True
      else case file_record_find_acl r username of
        None \<Rightarrow> False
      | Some entry \<Rightarrow> if need_write then ae_can_write entry else ae_can_read entry \<or> ae_can_write entry)"

section \<open>The trie\<close>

datatype trie = Node "nat option" "char \<Rightarrow> trie option"

definition trie_node_create :: trie where
  "trie_node_create = Node None (\<lambda>_. None)"

fun trie_lookup :: "trie \<Rightarrow> string \<Rightarrow> nat option" where
  "trie_lookup (Node r ch) [] = r"
| "trie_lookup (Node r ch) (c # cs) = (case ch c of None \<Rightarrow> None | Some t \<Rightarrow> trie_lookup t cs)"

text \<open>Walking down with creation of missing nodes, then setting the record pointer.\<close>

fun trie_put :: "string \<Rightarrow> nat option \<Rightarrow> trie \<Rightarrow> trie" where
  "trie_put [] x (Node r ch) = Node x ch"
| "trie_put (c # cs) x (Node r ch) =
     Node r (ch(c := Some (trie_put cs x (case ch c of None \<Rightarrow> trie_node_create | Some t \<Rightarrow> t))))"

record file_index =
  ix_root :: trie
  ix_file_count :: nat
  ix_heap :: "nat \<Rightarrow> file_record option"
  ix_next :: nat

definition file_index_init :: file_index where
  "file_index_init = \<lparr>ix_root = trie_node_create, ix_file_count = 0, ix_heap = (\<lambda>_. None), ix_next = 0\<rparr>"

definition file_index_lookup :: "file_index \<Rightarrow> string \<Rightarrow> nat option" where
  "file_index_lookup ix filename = trie_lookup (ix_root ix) filename"

text \<open>A server id is appended unless it is there or all eight places are taken.\<close>

definition add_ss_id :: "string \<Rightarrow> file_record \<Rightarrow> file_record" where
  "add_ss_id sid r = (if length (fr_ss_ids r) < MAX_SS_PER_FILE \<and> sid \<notin> set (fr_ss_ids r)
     then r\<lparr>fr_ss_ids := fr_ss_ids r @ [fit 128 sid]\<rparr> else r)"

definition update_record :: "nat \<Rightarrow> (file_record \<Rightarrow> file_record) \<Rightarrow> file_index \<Rightarrow> file_index" where
  "update_record p f ix = ix\<lparr>ix_heap := (ix_heap ix)(p := map_option f (ix_heap ix p))\<rparr>"

definition new_record :: "time_t \<Rightarrow> string \<Rightarrow> string \<Rightarrow> file_record" where
  "new_record now filename owner = \<lparr>fr_filename = fit MAX_FILENAME_LEN filename,
     fr_owner = fit MAX_USERNAME_LEN owner, fr_ss_ids = [], fr_acl = [], fr_acl_capacity = 0,
     fr_created_at = now, fr_modified_at = now, fr_word_count = 0, fr_char_count = 0, fr_sentence_count = 0\<rparr>"

definition file_index_add :: "time_t \<Rightarrow> string \<Rightarrow> string \<Rightarrow> string \<Rightarrow> file_index \<Rightarrow> file_index" where
  "file_index_add now filename owner sid ix =
     (case trie_lookup (ix_root ix) filename of
        Some p \<Rightarrow> update_record p (add_ss_id sid) ix
      | None \<Rightarrow>
          (let p = ix_next ix in
           update_record p (add_ss_id sid)
             (ix\<lparr>ix_root := trie_put filename (Some p) (ix_root ix), ix_file_count := ix_file_count ix + 1,
                 ix_heap := (ix_heap ix)(p \<mapsto> new_record now filename owner), ix_next := p + 1\<rparr>)))"

definition file_index_remove :: "string \<Rightarrow> file_index \<Rightarrow> file_index option" where
  "file_index_remove filename ix = (case trie_lookup (ix_root ix) filename of
     None \<Rightarrow> None
   | Some p \<Rightarrow> Some (ix\<lparr>ix_root := trie_put filename None (ix_root ix),
       ix_file_count := ix_file_count ix - 1, ix_heap := (ix_heap ix)(p := None)\<rparr>))"

definition file_index_add_ss_replica :: "string \<Rightarrow> string \<Rightarrow> file_index \<Rightarrow> file_index option" where
  "file_index_add_ss_replica filename sid ix = (case file_index_lookup ix filename of
     None \<Rightarrow> None
   | Some p \<Rightarrow> (case ix_heap ix p of
       None \<Rightarrow> None
     | Some r \<Rightarrow> if MAX_SS_PER_FILE \<le> length (fr_ss_ids r) then None
                else Some (update_record p (add_ss_id sid) ix)))"

primrec collect_files_recursive :: "trie \<Rightarrow> nat list" where
  "collect_files_recursive (Node r ch) = (case r of None \<Rightarrow> [] | Some p \<Rightarrow> [p]) @
     concat (map (\<lambda>i. case (map_option collect_files_recursive \<circ> ch) (char_of (i :: nat)) of
       None \<Rightarrow> [] | Some ps \<Rightarrow> ps) [0..<256])"

definition file_index_get_all :: "file_index \<Rightarrow> nat list" where
  "file_index_get_all ix = collect_files_recursive (ix_root ix)"

section \<open>Lookup laws\<close>

lemma trie_lookup_create [simp]: "trie_lookup trie_node_create cs = None"
  by (cases cs) (simp_all add: trie_node_create_def)

lemma trie_lookup_put: "trie_lookup (trie_put cs x t) ds = (if ds = cs then x else trie_lookup t ds)"
proof (induction cs x t arbitrary: ds rule: trie_put.induct)
  case (1 x r ch)
  then show ?case by (cases ds) auto
next
  case (2 c cs x r ch)
  show ?case
  proof (cases ds)
    case (Cons d ds')
    with 2 [of ds'] show ?thesis by (cases "ch c") (auto split: option.splits)
  qed simp
qed

lemma update_record_lookup [index_simps]: "file_index_lookup (update_record p f ix) n = file_index_lookup ix n"
  by (simp add: file_index_lookup_def update_record_def)

lemma file_index_lookup_add:
  "file_index_lookup (file_index_add now n u s ix) m =
     (if m = n \<and> file_index_lookup ix n = None then Some (ix_next ix) else file_index_lookup ix m)"
  by (auto simp: file_index_add_def file_index_lookup_def update_record_def trie_lookup_put Let_def
      split: option.splits)

lemma file_index_lookup_remove:
  "file_index_remove n ix = Some ix' \<Longrightarrow> file_index_lookup ix' m = (if m = n then None else file_index_lookup ix m)"
  by (auto simp: file_index_remove_def file_index_lookup_def trie_lookup_put split: option.splits)

lemma file_index_remove_None: "file_index_remove n ix = None \<longleftrightarrow> file_index_lookup ix n = None"
  by (auto simp: file_index_remove_def file_index_lookup_def split: option.splits)

section \<open>The invariant of the index\<close>

text \<open>
  Every name leads to a live record of that name, different names to different records, and the
  count is the number of names.
\<close>

definition record_ok :: "string \<Rightarrow> file_record \<Rightarrow> bool" where
  "record_ok n r \<longleftrightarrow> fr_filename r = fit MAX_FILENAME_LEN n \<and> length (fr_ss_ids r) \<le> MAX_SS_PER_FILE
     \<and> distinct (map ae_username (fr_acl r))"

definition index_ok :: "file_index \<Rightarrow> bool" where
  "index_ok ix \<longleftrightarrow>
     (\<forall>n p. file_index_lookup ix n = Some p \<longrightarrow> p < ix_next ix \<and> (\<exists>r. ix_heap ix p = Some r \<and> record_ok n r))
     \<and> (\<forall>n m p. file_index_lookup ix n = Some p \<longrightarrow> file_index_lookup ix m = Some p \<longrightarrow> n = m)
     \<and> (\<forall>p. ix_heap ix p \<noteq> None \<longrightarrow> (\<exists>n. file_index_lookup ix n = Some p))
     \<and> finite {n. file_index_lookup ix n \<noteq> None}
     \<and> ix_file_count ix = card {n. file_index_lookup ix n \<noteq> None}"

lemma index_ok_lookup:
  assumes "index_ok ix" and "file_index_lookup ix n = Some p"
  obtains r where "ix_heap ix p = Some r" and "record_ok n r" and "p < ix_next ix"
  using assms unfolding index_ok_def by blast

lemma index_ok_inj:
  "index_ok ix \<Longrightarrow> file_index_lookup ix n = Some p \<Longrightarrow> file_index_lookup ix m = Some p \<Longrightarrow> n = m"
  unfolding index_ok_def by blast

lemma index_ok_init: "index_ok file_index_init"
  by (simp add: index_ok_def file_index_init_def file_index_lookup_def)

lemma index_ok_update:
  assumes "index_ok ix" and "\<And>n r. record_ok n r \<Longrightarrow> record_ok n (f r)"
  shows "index_ok (update_record p f ix)"
  using assms unfolding index_ok_def update_record_lookup
  by (simp add: update_record_def) metis

lemma add_ss_id_simps [index_simps]:
  "fr_filename (add_ss_id s r) = fr_filename r" "fr_owner (add_ss_id s r) = fr_owner r"
  "fr_acl (add_ss_id s r) = fr_acl r"
  by (simp_all add: add_ss_id_def)

lemma record_ok_add_ss_id: "record_ok n r \<Longrightarrow> record_ok n (add_ss_id s r)"
  by (auto simp: record_ok_def add_ss_id_def)

lemma record_ok_add_acl:
  "record_ok n r \<Longrightarrow> length u < MAX_USERNAME_LEN \<Longrightarrow> record_ok n (file_record_add_acl u cr cw r)"
  by (auto simp: record_ok_def file_record_add_acl_def map_key_update_first fit_id list_ex_iff)

lemma find_acl_add:
  assumes "length u < MAX_USERNAME_LEN"
  shows "file_record_find_acl (file_record_add_acl u cr cw r) v =
    (if v = u then Some \<lparr>ae_username = u, ae_can_read = cr, ae_can_write = cw\<rparr> else file_record_find_acl r v)"
proof -
  have fit: "fit MAX_USERNAME_LEN u = u" using assms by (simp add: fit_id)
  show ?thesis
  proof (cases "list_ex (\<lambda>a. ae_username a = u) (fr_acl r)")
    case True
    then obtain a where a: "find (\<lambda>a. ae_username a = u) (fr_acl r) = Some a"
      by (cases "find (\<lambda>a. ae_username a = u) (fr_acl r)") (auto simp: find_None_iff list_ex_iff)
    then have "ae_username a = u" by (auto dest: find_Some_mem)
    with True a show ?thesis
      by (auto simp: file_record_find_acl_def file_record_add_acl_def find_update_first)
  next
    case False
    then have "find (\<lambda>a. ae_username a = u) (fr_acl r) = None" by (auto simp: find_None_iff list_ex_iff)
    with False show ?thesis
      by (auto simp: file_record_find_acl_def file_record_add_acl_def find_append fit split: option.split)
  qed
qed

lemma check_access_add:
  assumes "length u < MAX_USERNAME_LEN"
  shows "file_record_check_access (file_record_add_acl u cr cw r) v w =
    (if v \<noteq> u \<or> u = fr_owner r then file_record_check_access r v w else if w then cw else cr \<or> cw)"
proof -
  have "fr_owner (file_record_add_acl u cr cw r) = fr_owner r" by (simp add: file_record_add_acl_def)
  then show ?thesis by (auto simp: file_record_check_access_def find_acl_add [OF assms])
qed

lemma record_ok_remove_acl:
  "record_ok n r \<Longrightarrow> file_record_remove_acl u r = Some r' \<Longrightarrow> record_ok n r'"
  by (auto simp: record_ok_def file_record_remove_acl_def distinct_map_remove_first split: if_splits)

lemma index_okI:
  assumes "\<And>n p. file_index_lookup ix n = Some p \<Longrightarrow> p < ix_next ix"
    and "\<And>n p. file_index_lookup ix n = Some p \<Longrightarrow> \<exists>r. ix_heap ix p = Some r \<and> record_ok n r"
    and "\<And>n m p. file_index_lookup ix n = Some p \<Longrightarrow> file_index_lookup ix m = Some p \<Longrightarrow> n = m"
    and "\<And>p. ix_heap ix p \<noteq> None \<Longrightarrow> \<exists>n. file_index_lookup ix n = Some p"
    and "finite {n. file_index_lookup ix n \<noteq> None}"
    and "ix_file_count ix = card {n. file_index_lookup ix n \<noteq> None}"
  shows "index_ok ix"
  unfolding index_ok_def using assms by blast

lemma index_okD:
  assumes "index_ok ix"
  shows "finite {n. file_index_lookup ix n \<noteq> None}"
    and "ix_file_count ix = card {n. file_index_lookup ix n \<noteq> None}"
    and "ix_heap ix p \<noteq> None \<Longrightarrow> \<exists>n. file_index_lookup ix n = Some p"
    and "file_index_lookup ix n = Some p \<Longrightarrow> p < ix_next ix"
    and "file_index_lookup ix n = Some p \<Longrightarrow> \<exists>r. ix_heap ix p = Some r \<and> record_ok n r"
  using assms unfolding index_ok_def by blast+

lemma index_ok_insert:
  assumes "index_ok ix" and "file_index_lookup ix n = None" and "record_ok n r"
  shows "index_ok (ix\<lparr>ix_root := trie_put n (Some (ix_next ix)) (ix_root ix), ix_file_count := ix_file_count ix + 1,
      ix_heap := (ix_heap ix)(ix_next ix \<mapsto> r), ix_next := ix_next ix + 1\<rparr>)" (is "index_ok ?ix")
proof -
  define jx where "jx = ?ix"
  have l: "file_index_lookup jx m = (if m = n then Some (ix_next ix) else file_index_lookup ix m)" for m
    by (simp add: jx_def file_index_lookup_def trie_lookup_put)
  have jx: "ix_next jx = ix_next ix + 1" "ix_heap jx = (ix_heap ix)(ix_next ix \<mapsto> r)"
      "ix_file_count jx = ix_file_count ix + 1" by (simp_all add: jx_def)
  note D = index_okD [OF assms(1)]
  have fresh: "file_index_lookup ix m \<noteq> Some (ix_next ix)" for m using D(4) by (metis less_irrefl)
  have dom: "{m. file_index_lookup jx m \<noteq> None} = insert n {m. file_index_lookup ix m \<noteq> None}"
    by (auto simp: l)
  have "index_ok jx"
  proof (rule index_okI)
    show "p < ix_next jx" if "file_index_lookup jx m = Some p" for m p
      using that D(4) [of m p] by (auto simp: l jx split: if_splits)
    show "\<exists>r. ix_heap jx p = Some r \<and> record_ok m r" if "file_index_lookup jx m = Some p" for m p
      using that D(4,5) [of m p] assms(3) by (auto simp: l jx split: if_splits)
    show "m = k" if "file_index_lookup jx m = Some p" "file_index_lookup jx k = Some p" for m k p
      using that index_ok_inj [OF assms(1), of m p k] fresh by (auto simp: l split: if_splits)
    show "\<exists>m. file_index_lookup jx m = Some p" if "ix_heap jx p \<noteq> None" for p
      using that D(3) [of p] assms(2) unfolding l by (cases "p = ix_next ix") (auto simp: jx, metis option.distinct(1))
    show "finite {m. file_index_lookup jx m \<noteq> None}" unfolding dom using D(1) by simp
    show "ix_file_count jx = card {m. file_index_lookup jx m \<noteq> None}"
      unfolding dom using D(1,2) assms(2) by (simp add: jx)
  qed
  then show ?thesis by (simp add: jx_def)
qed

lemma index_ok_add:
  assumes "index_ok ix"
  shows "index_ok (file_index_add now n u s ix)"
proof (cases "file_index_lookup ix n")
  case (Some p)
  then have "file_index_add now n u s ix = update_record p (add_ss_id s) ix"
    by (simp add: file_index_add_def file_index_lookup_def)
  then show ?thesis using assms record_ok_add_ss_id by (simp add: index_ok_update)
next
  case None
  have "record_ok n (new_record now n u)" by (simp add: record_ok_def new_record_def)
  from index_ok_update [OF index_ok_insert [OF assms None this] record_ok_add_ss_id] None
  show ?thesis by (simp add: file_index_add_def file_index_lookup_def Let_def)
qed

lemma index_ok_remove:
  assumes "index_ok ix" and "file_index_remove n ix = Some ix'"
  shows "index_ok ix'"
proof -
  from assms(2) obtain p where p: "file_index_lookup ix n = Some p"
    and ix': "ix_heap ix' = (ix_heap ix)(p := None)" "ix_next ix' = ix_next ix"
      "ix_file_count ix' = ix_file_count ix - 1"
    by (auto simp: file_index_remove_def file_index_lookup_def split: option.splits)
  note l = file_index_lookup_remove [OF assms(2)]
  note D = index_okD [OF assms(1)]
  have only: "file_index_lookup ix m = Some p \<Longrightarrow> m = n" for m
    using index_ok_inj [OF assms(1)] p by blast
  have dom: "{m. file_index_lookup ix' m \<noteq> None} = {m. file_index_lookup ix m \<noteq> None} - {n}"
    by (auto simp: l)
  show ?thesis
  proof (rule index_okI)
    show "q < ix_next ix'" if "file_index_lookup ix' m = Some q" for m q
      using that D(4) [of m q] by (auto simp: l ix' split: if_splits)
    show "\<exists>r. ix_heap ix' q = Some r \<and> record_ok m r" if "file_index_lookup ix' m = Some q" for m q
      using that D(5) [of m q] only by (auto simp: l ix' split: if_splits)
    show "m = k" if "file_index_lookup ix' m = Some q" "file_index_lookup ix' k = Some q" for m k q
      using that index_ok_inj [OF assms(1), of m q k] by (auto simp: l split: if_splits)
    show "\<exists>m. file_index_lookup ix' m = Some q" if q: "ix_heap ix' q \<noteq> None" for q
    proof -
      from q have "q \<noteq> p" "ix_heap ix q \<noteq> None" by (auto simp: ix' split: if_splits)
      with D(3) obtain m where "file_index_lookup ix m = Some q" by blast
      with \<open>q \<noteq> p\<close> p show ?thesis unfolding l by (intro exI [of _ m]) auto
    qed
    show "finite {m. file_index_lookup ix' m \<noteq> None}" unfolding dom using D(1) by simp
    show "ix_file_count ix' = card {m. file_index_lookup ix' m \<noteq> None}"
      unfolding dom using D(1,2) p by (simp add: ix')
  qed
qed

section \<open>All files\<close>

lemma collect_set: "p \<in> set (collect_files_recursive t) \<longleftrightarrow> (\<exists>cs. trie_lookup t cs = Some p)"
proof (induction t arbitrary: p)
  case (Node r ch)
  have ch: "ch c = Some t \<Longrightarrow> q \<in> set (collect_files_recursive t) \<longleftrightarrow> (\<exists>cs. trie_lookup t cs = Some q)" for c t q
    using Node by (metis rangeI option.set_intros)
  have "p \<in> set (collect_files_recursive (Node r ch)) \<longleftrightarrow>
      r = Some p \<or> (\<exists>c t. ch c = Some t \<and> p \<in> set (collect_files_recursive t))"
    (is "_ \<longleftrightarrow> _ \<or> ?sub")
  proof -
    have "(\<exists>i<256. \<exists>t. ch (char_of (i :: nat)) = Some t \<and> p \<in> set (collect_files_recursive t)) \<longleftrightarrow> ?sub"
    proof
      assume ?sub
      then obtain c t where c: "ch c = Some t" "p \<in> set (collect_files_recursive t)" by blast
      have "(of_char c :: nat) \<in> range of_char" by simp
      then have "(of_char c :: nat) < 256" unfolding range_nat_of_char by simp
      with c show "\<exists>i<256. \<exists>t. ch (char_of (i :: nat)) = Some t \<and> p \<in> set (collect_files_recursive t)"
        by (intro exI [of _ "of_char c :: nat"]) simp
    qed blast
    moreover have "p \<in> set (collect_files_recursive (Node r ch)) \<longleftrightarrow> r = Some p \<or>
        (\<exists>i<256. \<exists>t. ch (char_of (i :: nat)) = Some t \<and> p \<in> set (collect_files_recursive t))"
      by (cases r) (force simp: atLeast0LessThan split: option.splits)+
    ultimately show ?thesis by simp
  qed
  also have "\<dots> \<longleftrightarrow> (\<exists>cs. trie_lookup (Node r ch) cs = Some p)"
  proof
    assume "r = Some p \<or> ?sub"
    then show "\<exists>cs. trie_lookup (Node r ch) cs = Some p"
    proof
      assume "r = Some p"
      then show ?thesis by (intro exI [of _ "[]"]) simp
    next
      assume ?sub
      then obtain c t cs where "ch c = Some t" "trie_lookup t cs = Some p" using ch by blast
      then show ?thesis by (intro exI [of _ "c # cs"]) simp
    qed
  next
    assume "\<exists>cs. trie_lookup (Node r ch) cs = Some p"
    then obtain cs where cs: "trie_lookup (Node r ch) cs = Some p" by blast
    then show "r = Some p \<or> ?sub" using ch by (cases cs) (fastforce split: option.splits)+
  qed
  finally show ?case .
qed

text \<open>The order of \<open>strcmp\<close> on names, and the names next to the records.\<close>

fun name_less :: "string \<Rightarrow> string \<Rightarrow> bool" where
  "name_less xs [] = False"
| "name_less [] (y # ys) = True"
| "name_less (x # xs) (y # ys) = ((of_char x :: nat) < of_char y \<or> x = y \<and> name_less xs ys)"

primrec collect_paths :: "trie \<Rightarrow> (string \<times> nat) list" where
  "collect_paths (Node r ch) = (case r of None \<Rightarrow> [] | Some p \<Rightarrow> [([], p)]) @
     concat (map (\<lambda>i. case (map_option collect_paths \<circ> ch) (char_of (i :: nat)) of
       None \<Rightarrow> [] | Some ps \<Rightarrow> map (\<lambda>(cs, p). (char_of i # cs, p)) ps) [0..<256])"

lemma name_less_irrefl: "\<not> name_less xs xs"
  by (induction xs) auto

lemma collect_paths_snd: "map snd (collect_paths t) = collect_files_recursive t"
proof (induction t)
  case (Node r ch)
  have "map snd (case (map_option collect_paths \<circ> ch) (char_of (i :: nat)) of
       None \<Rightarrow> [] | Some ps \<Rightarrow> map (\<lambda>(cs, p). (char_of i # cs, p)) ps) =
     (case (map_option collect_files_recursive \<circ> ch) (char_of i) of None \<Rightarrow> [] | Some ps \<Rightarrow> ps)" for i
  proof (cases "ch (char_of i)")
    case (Some t)
    with Node have "map snd (collect_paths t) = collect_files_recursive t"
      by (metis rangeI option.set_intros)
    with Some show ?thesis by (simp add: comp_def case_prod_unfold)
  qed simp
  then show ?case by (simp add: map_concat comp_def split: option.splits)
qed

lemma sorted_wrt_concat_upt:
  assumes "\<And>i. i < n \<Longrightarrow> sorted_wrt P (f i)"
    and "\<And>i j x y. i < j \<Longrightarrow> j < n \<Longrightarrow> x \<in> set (f i) \<Longrightarrow> y \<in> set (f j) \<Longrightarrow> P x y"
  shows "sorted_wrt P (concat (map f [0..<n]))"
  using assms
proof (induction n)
  case (Suc n)
  then show ?case by (auto simp: sorted_wrt_append)
qed simp

lemma collect_paths_sorted: "sorted_wrt (\<lambda>a b. name_less (fst a) (fst b)) (collect_paths t)"
proof (induction t)
  case (Node r ch)
  let ?f = "\<lambda>i. case (map_option collect_paths \<circ> ch) (char_of (i :: nat)) of
       None \<Rightarrow> [] | Some ps \<Rightarrow> map (\<lambda>(cs, p). (char_of i # cs, p)) ps"
  have hd: "\<exists>cs. fst x = char_of i # cs" if "x \<in> set (?f i)" for x i
    using that by (auto split: option.splits)
  have "sorted_wrt (\<lambda>a b. name_less (fst a) (fst b)) (concat (map ?f [0..<256]))"
  proof (rule sorted_wrt_concat_upt)
    fix i :: nat
    show "sorted_wrt (\<lambda>a b. name_less (fst a) (fst b)) (?f i)"
    proof (cases "ch (char_of i)")
      case (Some t)
      with Node have "sorted_wrt (\<lambda>a b. name_less (fst a) (fst b)) (collect_paths t)"
        by (metis rangeI option.set_intros)
      then show ?thesis using Some by (simp add: sorted_wrt_map case_prod_unfold)
    qed simp
  next
    fix i j :: nat and x y
    assume ij: "i < j" "j < 256" and x: "x \<in> set (?f i)" and y: "y \<in> set (?f j)"
    from hd [OF x] hd [OF y] ij show "name_less (fst x) (fst y)"
      by (auto simp: of_char_of)
  qed
  moreover have "name_less [] (fst x)" if "x \<in> set (concat (map ?f [0..<256]))" for x
    using that hd by (auto simp del: comp_apply)
  ultimately show ?case by (cases r) (auto simp del: comp_apply)
qed

lemma collect_paths_lookup: "(cs, p) \<in> set (collect_paths t) \<Longrightarrow> trie_lookup t cs = Some p"
proof (induction t arbitrary: cs p)
  case (Node r ch)
  define f where "f = (\<lambda>i. case (map_option collect_paths \<circ> ch) (char_of (i :: nat)) of
       None \<Rightarrow> [] | Some ps \<Rightarrow> map (\<lambda>(cs, p). (char_of i # cs, p)) ps)"
  have "collect_paths (Node r ch) = (case r of None \<Rightarrow> [] | Some p \<Rightarrow> [([], p)]) @ concat (map f [0..<256])"
    unfolding f_def by (rule collect_paths.simps)
  from Node.prems [unfolded this] have "(r = Some p \<and> cs = []) \<or> (\<exists>i. (cs, p) \<in> set (f i))"
    by (cases r) auto
  moreover have "\<exists>c t ds. ch c = Some t \<and> (ds, p) \<in> set (collect_paths t) \<and> cs = c # ds"
    if "(cs, p) \<in> set (f i)" for i
    using that by (cases "ch (char_of i)") (auto simp: f_def)
  ultimately consider "r = Some p" "cs = []"
    | c t ds where "ch c = Some t" "(ds, p) \<in> set (collect_paths t)" "cs = c # ds" by blast
  then show ?case
  proof cases
    case (2 c t ds)
    then have "trie_lookup t ds = Some p" using Node.IH by (metis rangeI option.set_intros)
    with 2 show ?thesis by simp
  qed simp
qed

end
