(* ===== verification/Lru_Cache.thy ===== *)
theory Lru_Cache
  imports File_Index
begin

text \<open>
  The least-recently-used cache of \<open>name_server/src/file_index.c\<close>, with its doubly linked list as
  the code has it: cells in a heap, linked by addresses that may be null, and operations that
  redirect single pointers. The list of (name, record) pairs it represents, the operations on
  that list, and the proof that the pointer code implements them come after. A cached record
  pointer is good only while the index keeps the record, which is the interface between the two:
  the locale \<open>record_index\<close>.
\<close>

section \<open>The pointer code\<close>

record cache_entry =
  ce_filename :: string
  ce_record :: nat
  ce_last_access :: time_t
  ce_prev :: "nat option"
  ce_next :: "nat option"

type_synonym cells = "nat \<Rightarrow> cache_entry option"

text \<open>\<open>lc_fresh\<close> is the allocator's: an address no cell had so far.\<close>

record lru_cache =
  lc_head :: "nat option"
  lc_tail :: "nat option"
  lc_capacity :: nat
  lc_size :: nat
  lc_cells :: cells
  lc_fresh :: nat

definition lru_cache_init :: "nat \<Rightarrow> lru_cache option" where
  "lru_cache_init capacity = (if capacity = 0 then None
     else Some \<lparr>lc_head = None, lc_tail = None, lc_capacity = capacity, lc_size = 0,
                lc_cells = (\<lambda>_. None), lc_fresh = 0\<rparr>)"

definition set_cell :: "nat \<Rightarrow> (cache_entry \<Rightarrow> cache_entry) \<Rightarrow> cells \<Rightarrow> cells" where
  "set_cell a f m = m(a := map_option f (m a))"

definition lru_cache_remove_entry :: "nat \<Rightarrow> lru_cache \<Rightarrow> lru_cache" where
  "lru_cache_remove_entry a c = (case lc_cells c a of
     None \<Rightarrow> c
   | Some e \<Rightarrow>
       (let c1 = (case ce_prev e of
              Some p \<Rightarrow> c\<lparr>lc_cells := set_cell p (\<lambda>x. x\<lparr>ce_next := ce_next e\<rparr>) (lc_cells c)\<rparr>
            | None \<Rightarrow> c\<lparr>lc_head := ce_next e\<rparr>);
            c2 = (case ce_next e of
              Some n \<Rightarrow> c1\<lparr>lc_cells := set_cell n (\<lambda>x. x\<lparr>ce_prev := ce_prev e\<rparr>) (lc_cells c1)\<rparr>
            | None \<Rightarrow> c1\<lparr>lc_tail := ce_prev e\<rparr>)
        in c2\<lparr>lc_size := lc_size c2 - 1\<rparr>))"

definition lru_cache_add_to_front :: "nat \<Rightarrow> lru_cache \<Rightarrow> lru_cache" where
  "lru_cache_add_to_front a c =
     (let c1 = c\<lparr>lc_cells := set_cell a (\<lambda>x. x\<lparr>ce_prev := None, ce_next := lc_head c\<rparr>) (lc_cells c)\<rparr>;
          c2 = (case lc_head c of
              Some h \<Rightarrow> c1\<lparr>lc_cells := set_cell h (\<lambda>x. x\<lparr>ce_prev := Some a\<rparr>) (lc_cells c1)\<rparr>
            | None \<Rightarrow> c1);
          c3 = c2\<lparr>lc_head := Some a\<rparr>;
          c4 = (if lc_tail c3 = None then c3\<lparr>lc_tail := Some a\<rparr> else c3)
      in c4\<lparr>lc_size := lc_size c4 + 1\<rparr>)"

text \<open>
  The search from the head along \<open>next\<close>. It has no bound in the code: on a cyclic list, or one
  that runs into a freed cell, its value is \<open>None\<close>.
\<close>

partial_function (option) lru_find :: "cells \<Rightarrow> string \<Rightarrow> nat option \<Rightarrow> nat option option" where
  "lru_find m filename p = (case p of
     None \<Rightarrow> Some None
   | Some a \<Rightarrow> (case m a of
       None \<Rightarrow> None
     | Some e \<Rightarrow> if ce_filename e = filename then Some (Some a) else lru_find m filename (ce_next e)))"

definition lru_cache_get ::
  "time_t \<Rightarrow> file_index \<Rightarrow> string \<Rightarrow> lru_cache \<Rightarrow> (lru_cache \<times> nat option) option" where
  "lru_cache_get now ix filename c = (case lru_find (lc_cells c) filename (lc_head c) of
     None \<Rightarrow> None
   | Some (Some a) \<Rightarrow>
       (let c1 = lru_cache_add_to_front a (lru_cache_remove_entry a c);
            c2 = c1\<lparr>lc_cells := set_cell a (\<lambda>x. x\<lparr>ce_last_access := now\<rparr>) (lc_cells c1)\<rparr>
        in Some (c2, map_option ce_record (lc_cells c2 a)))
   | Some None \<Rightarrow> (case file_index_lookup ix filename of
       None \<Rightarrow> Some (c, None)
     | Some r \<Rightarrow>
         (let a = lc_fresh c;
              c1 = c\<lparr>lc_cells := (lc_cells c)(a \<mapsto> \<lparr>ce_filename = fit MAX_FILENAME_LEN filename,
                        ce_record = r, ce_last_access = now, ce_prev = None, ce_next = None\<rparr>),
                     lc_fresh := a + 1\<rparr>;
              c2 = (case lc_tail c1 of
                  Some t \<Rightarrow> if lc_capacity c1 \<le> lc_size c1
                            then (let d = lru_cache_remove_entry t c1
                                  in d\<lparr>lc_cells := (lc_cells d)(t := None)\<rparr>)
                            else c1
                | None \<Rightarrow> c1)
          in Some (lru_cache_add_to_front a c2, Some r))))"

definition lru_cache_invalidate :: "string \<Rightarrow> lru_cache \<Rightarrow> lru_cache option" where
  "lru_cache_invalidate filename c = (case lru_find (lc_cells c) filename (lc_head c) of
     None \<Rightarrow> None
   | Some None \<Rightarrow> Some c
   | Some (Some a) \<Rightarrow> (let d = lru_cache_remove_entry a c
                       in Some (d\<lparr>lc_cells := (lc_cells d)(a := None)\<rparr>)))"

section \<open>The list the pointers represent\<close>

definition first_or :: "nat list \<Rightarrow> nat option \<Rightarrow> nat option" where
  "first_or xs q = (case xs of [] \<Rightarrow> q | x # _ \<Rightarrow> Some x)"

definition last_or :: "nat option \<Rightarrow> nat list \<Rightarrow> nat option" where
  "last_or p xs = (if xs = [] then p else Some (last xs))"

lemma first_or_simps [simp]: "first_or [] q = q" "first_or (x # xs) q = Some x"
    "first_or (xs @ ys) q = first_or xs (first_or ys q)"
  by (auto simp: first_or_def split: list.splits)

lemma last_or_simps [simp]: "last_or p [] = p" "last_or p (x # xs) = last_or (Some x) xs"
    "last_or p (xs @ ys) = last_or (last_or p xs) ys"
  by (auto simp: last_or_def)

text \<open>A segment: the cells of \<open>xs\<close>, linked both ways, entered from \<open>p\<close> and left to \<open>q\<close>.\<close>

fun dseg :: "cells \<Rightarrow> nat option \<Rightarrow> nat list \<Rightarrow> nat option \<Rightarrow> bool" where
  "dseg m p [] q = True"
| "dseg m p (x # xs) q = ((\<exists>e. m x = Some e \<and> ce_prev e = p \<and> ce_next e = first_or xs q) \<and> dseg m (Some x) xs q)"

lemma dseg_append [simp]:
  "dseg m p (xs @ ys) q \<longleftrightarrow> dseg m p xs (first_or ys q) \<and> dseg m (last_or p xs) ys q"
  by (induction xs arbitrary: p) auto

lemma dseg_other [simp]: "a \<notin> set xs \<Longrightarrow> dseg (m(a := v)) p xs q \<longleftrightarrow> dseg m p xs q"
  by (induction xs arbitrary: p) auto

lemma dseg_live: "dseg m p xs q \<Longrightarrow> x \<in> set xs \<Longrightarrow> \<exists>e. m x = Some e"
  by (induction xs arbitrary: p) auto

text \<open>The cell's contents, and what a cache represents.\<close>

definition cell_pair :: "cells \<Rightarrow> nat \<Rightarrow> string \<times> nat" where
  "cell_pair m a = (case m a of None \<Rightarrow> ([], 0) | Some e \<Rightarrow> (ce_filename e, ce_record e))"

definition linked :: "lru_cache \<Rightarrow> nat list \<Rightarrow> bool" where
  "linked c xs \<longleftrightarrow> distinct xs \<and> dseg (lc_cells c) None xs None \<and> lc_head c = first_or xs None
     \<and> lc_tail c = last_or None xs \<and> lc_size c = length xs \<and> (\<forall>a. lc_fresh c \<le> a \<longrightarrow> lc_cells c a = None)"

definition represents :: "lru_cache \<Rightarrow> (string \<times> nat) list \<Rightarrow> bool" where
  "represents c es \<longleftrightarrow> (\<exists>xs. linked c xs \<and> es = map (cell_pair (lc_cells c)) xs)"

lemma set_cell_pair:
  assumes "\<And>e. ce_filename (f e) = ce_filename e" "\<And>e. ce_record (f e) = ce_record e"
  shows "cell_pair (set_cell a f m) b = cell_pair m b"
  using assms by (auto simp: cell_pair_def set_cell_def split: option.splits)

lemma remove_entry_pair: "cell_pair (lc_cells (lru_cache_remove_entry a c)) b = cell_pair (lc_cells c) b"
  by (auto simp: lru_cache_remove_entry_def set_cell_pair Let_def split: option.splits)

lemma add_to_front_pair: "cell_pair (lc_cells (lru_cache_add_to_front a c)) b = cell_pair (lc_cells c) b"
  by (auto simp: lru_cache_add_to_front_def set_cell_pair Let_def split: option.splits)

lemma remove_entry_same:
  "lc_capacity (lru_cache_remove_entry a c) = lc_capacity c"
  "lc_fresh (lru_cache_remove_entry a c) = lc_fresh c"
  "lc_cells (lru_cache_remove_entry a c) b = None \<longleftrightarrow> lc_cells c b = None"
  by (auto simp: lru_cache_remove_entry_def set_cell_def Let_def split: option.splits)

lemma add_to_front_same:
  "lc_capacity (lru_cache_add_to_front a c) = lc_capacity c"
  "lc_fresh (lru_cache_add_to_front a c) = lc_fresh c"
  "lc_cells (lru_cache_add_to_front a c) b = None \<longleftrightarrow> lc_cells c b = None"
  by (auto simp: lru_cache_add_to_front_def set_cell_def Let_def split: option.splits)

lemma linked_remove:
  assumes "linked c (xs @ a # ys)"
  shows "linked (lru_cache_remove_entry a c) (xs @ ys)"
proof -
  from assms obtain e where e: "lc_cells c a = Some e" "ce_prev e = last_or None xs" "ce_next e = first_or ys None"
    and seg: "dseg (lc_cells c) None xs (Some a)" "dseg (lc_cells c) (Some a) ys None"
    and dist: "distinct (xs @ a # ys)"
    and rest: "lc_head c = first_or (xs @ a # ys) None" "lc_tail c = last_or None (xs @ a # ys)"
      "lc_size c = length xs + length ys + 1" and fresh: "\<forall>b. lc_fresh c \<le> b \<longrightarrow> lc_cells c b = None"
    unfolding linked_def by auto
  have "\<forall>b. lc_fresh (lru_cache_remove_entry a c) \<le> b \<longrightarrow> lc_cells (lru_cache_remove_entry a c) b = None"
    using fresh by (simp add: remove_entry_same)
  moreover have "dseg (lc_cells (lru_cache_remove_entry a c)) None (xs @ ys) None
     \<and> lc_head (lru_cache_remove_entry a c) = first_or (xs @ ys) None
     \<and> lc_tail (lru_cache_remove_entry a c) = last_or None (xs @ ys)
     \<and> lc_size (lru_cache_remove_entry a c) = length (xs @ ys)"
    using e seg dist rest unfolding lru_cache_remove_entry_def
    by (cases xs rule: rev_cases; cases ys) (auto simp: Let_def set_cell_def)
  ultimately show ?thesis using dist unfolding linked_def by auto
qed

lemma linked_add:
  assumes "linked c xs" and "a \<notin> set xs" and "lc_cells c a = Some e"
  shows "linked (lru_cache_add_to_front a c) (a # xs)"
proof -
  note L = assms(1) [unfolded linked_def]
  have "\<forall>b. lc_fresh (lru_cache_add_to_front a c) \<le> b \<longrightarrow> lc_cells (lru_cache_add_to_front a c) b = None"
    using L by (simp add: add_to_front_same)
  moreover have "dseg (lc_cells (lru_cache_add_to_front a c)) None (a # xs) None
     \<and> lc_head (lru_cache_add_to_front a c) = Some a
     \<and> lc_tail (lru_cache_add_to_front a c) = last_or None (a # xs)
     \<and> lc_size (lru_cache_add_to_front a c) = length (a # xs)"
    using L assms(2,3) unfolding lru_cache_add_to_front_def
    by (cases xs) (auto simp: Let_def set_cell_def last_or_def)
  ultimately show ?thesis using L assms(2) unfolding linked_def by simp
qed

lemma linked_cells:
  assumes "linked c xs" and "\<And>b. b \<in> set xs \<Longrightarrow> m b = lc_cells c b" and "\<And>b. k \<le> b \<Longrightarrow> m b = None"
  shows "linked (c\<lparr>lc_cells := m, lc_fresh := k\<rparr>) xs"
proof -
  have "dseg m p xs q \<longleftrightarrow> dseg (lc_cells c) p xs q" for p q
    using assms(2) by (induction xs arbitrary: p) auto
  with assms(1,3) show ?thesis by (simp add: linked_def)
qed

text \<open>The search ends on every list the code builds, at the first entry with the name.\<close>

lemma lru_find_dseg:
  assumes "dseg m p xs None"
  shows "lru_find m f (first_or xs None) = Some (find (\<lambda>a. fst (cell_pair m a) = f) xs)"
  using assms
proof (induction xs arbitrary: p)
  case (Cons x xs)
  then show ?case by (subst lru_find.simps) (auto simp: cell_pair_def)
qed (simp add: lru_find.simps)

lemma lru_find_linked:
  "linked c xs \<Longrightarrow> lru_find (lc_cells c) f (lc_head c) = Some (find (\<lambda>a. fst (cell_pair (lc_cells c) a) = f) xs)"
  using lru_find_dseg unfolding linked_def by metis

section \<open>Refinement: the cache is a list in order of use\<close>

definition recent_get :: "nat \<Rightarrow> nat option \<Rightarrow> string \<Rightarrow> (string \<times> nat) list \<Rightarrow> (string \<times> nat) list \<times> nat option" where
  "recent_get cap found filename es = (case find (\<lambda>e. fst e = filename) es of
     Some e \<Rightarrow> (e # remove_first (\<lambda>e. fst e = filename) es, Some (snd e))
   | None \<Rightarrow> (case found of
       None \<Rightarrow> (es, None)
     | Some r \<Rightarrow> ((fit MAX_FILENAME_LEN filename, r) # (if cap \<le> length es then butlast es else es), Some r)))"

lemma cell_pair_upd [simp]: "b \<noteq> a \<Longrightarrow> cell_pair (m(a := v)) b = cell_pair m b"
  by (simp add: cell_pair_def)

lemma pairs_remove: "map (cell_pair (lc_cells (lru_cache_remove_entry a c))) xs = map (cell_pair (lc_cells c)) xs"
  by (simp add: remove_entry_pair)

lemma represents_remove:
  assumes "linked c xs" and "find (\<lambda>x. fst (cell_pair (lc_cells c) x) = f) xs = Some a"
  obtains ys where "linked (lru_cache_remove_entry a c) ys" and "a \<notin> set ys" and "set ys \<subseteq> set xs"
    and "\<exists>e. lc_cells c a = Some e"
    and "map (cell_pair (lc_cells c)) ys = remove_first (\<lambda>e. fst e = f) (map (cell_pair (lc_cells c)) xs)"
proof -
  let ?P = "\<lambda>x. fst (cell_pair (lc_cells c) x) = f"
  from find_split [OF assms(2)] obtain us vs
    where sp: "xs = us @ a # vs" "?P a" "\<forall>y\<in>set us. \<not> ?P y" .
  have "remove_first (\<lambda>e. fst e = f) (map (cell_pair (lc_cells c)) xs) = map (cell_pair (lc_cells c)) (us @ vs)"
    unfolding remove_first_map unfolding sp(1) by (simp only: remove_first_split [OF sp(3,2)])
  moreover have "linked (lru_cache_remove_entry a c) (us @ vs)"
    using assms(1) unfolding sp(1) by (rule linked_remove)
  moreover have "a \<notin> set (us @ vs)" "\<exists>e. lc_cells c a = Some e"
    using assms(1) unfolding sp(1) linked_def by auto
  ultimately show thesis by (intro that [of "us @ vs"]) (auto simp: sp(1))
qed

lemma lru_cache_get_hit:
  assumes "linked c xs" and f: "find (\<lambda>x. fst (cell_pair (lc_cells c) x) = f) xs = Some a"
  shows "\<exists>c'. lru_cache_get now ix f c = Some (c', Some (snd (cell_pair (lc_cells c) a)))
    \<and> represents c' (cell_pair (lc_cells c) a # remove_first (\<lambda>e. fst e = f) (map (cell_pair (lc_cells c)) xs))
    \<and> lc_capacity c' = lc_capacity c"
proof -
  obtain ys where ys: "linked (lru_cache_remove_entry a c) ys" "a \<notin> set ys" "\<exists>e. lc_cells c a = Some e"
    and rest: "map (cell_pair (lc_cells c)) ys = remove_first (\<lambda>e. fst e = f) (map (cell_pair (lc_cells c)) xs)"
    using represents_remove [OF assms] by metis
  from ys(3) obtain e where "lc_cells (lru_cache_remove_entry a c) a = Some e"
    using remove_entry_same(3) [of a c a] by fastforce
  define d where "d = lru_cache_add_to_front a (lru_cache_remove_entry a c)"
  have d: "linked d (a # ys)" unfolding d_def by (rule linked_add) fact+
  then obtain e' where e': "lc_cells d a = Some e'" unfolding linked_def by auto
  have pair: "cell_pair (lc_cells d) b = cell_pair (lc_cells c) b" for b
    by (simp add: d_def add_to_front_pair remove_entry_pair)
  define d2 where "d2 = d\<lparr>lc_cells := set_cell a (\<lambda>x. x\<lparr>ce_last_access := now\<rparr>) (lc_cells d)\<rparr>"
  have pair2: "cell_pair (lc_cells d2) b = cell_pair (lc_cells c) b" for b
    unfolding d2_def using pair by (simp add: set_cell_pair)
  have "linked d2 (a # ys)" using d e' unfolding linked_def d2_def set_cell_def by auto
  then have "represents d2 (cell_pair (lc_cells c) a # map (cell_pair (lc_cells c)) ys)"
    unfolding represents_def by (intro exI [of _ "a # ys"]) (simp add: pair2)
  moreover have "lru_cache_get now ix f c = Some (d2, map_option ce_record (lc_cells d2 a))"
    using lru_find_linked [OF assms(1), of f] f by (simp add: lru_cache_get_def Let_def d2_def d_def)
  moreover have "map_option ce_record (lc_cells d2 a) = Some (snd (cell_pair (lc_cells c) a))"
    using e' pair [of a, symmetric] by (simp add: d2_def set_cell_def cell_pair_def)
  moreover have "lc_capacity d2 = lc_capacity c" by (simp add: d2_def d_def add_to_front_same remove_entry_same)
  ultimately show ?thesis using rest by auto
qed

text \<open>Eviction: the cell at the tail goes when the cache is full.\<close>

definition evicted :: "lru_cache \<Rightarrow> lru_cache" where
  "evicted c = (case lc_tail c of
       Some t \<Rightarrow> if lc_capacity c \<le> lc_size c
                 then (let d = lru_cache_remove_entry t c in d\<lparr>lc_cells := (lc_cells d)(t := None)\<rparr>) else c
     | None \<Rightarrow> c)"

lemma linked_evicted:
  assumes "linked c xs"
  shows "linked (evicted c) (if lc_capacity c \<le> length xs then butlast xs else xs)"
proof (cases xs rule: rev_cases)
  case (snoc ys t)
  have "linked (lru_cache_remove_entry t c) (ys @ [])"
    using assms unfolding snoc by (intro linked_remove) simp
  then have "linked (lru_cache_remove_entry t c) ys" by simp
  moreover have "t \<notin> set ys" using assms snoc by (simp add: linked_def)
  ultimately have "linked ((lru_cache_remove_entry t c)\<lparr>lc_cells := (lc_cells (lru_cache_remove_entry t c))(t := None)\<rparr>) ys"
    by (auto simp: linked_def)
  with assms snoc show ?thesis by (auto simp: evicted_def Let_def linked_def last_or_def)
qed (use assms in \<open>auto simp: evicted_def linked_def\<close>)

lemma evicted_same:
  assumes "linked c xs" and "b \<in> set (if lc_capacity c \<le> length xs then butlast xs else xs) \<or> b \<notin> set xs"
  shows "cell_pair (lc_cells (evicted c)) b = cell_pair (lc_cells c) b"
    and "lc_cells (evicted c) b = None \<longleftrightarrow> lc_cells c b = None"
proof -
  have "lc_tail c = Some b \<Longrightarrow> lc_size c < lc_capacity c"
    using assms by (cases xs rule: rev_cases) (auto simp: linked_def last_or_def split: if_splits)
  then have t: "t \<noteq> b" if "lc_tail c = Some t" "lc_capacity c \<le> lc_size c" for t using that by auto
  then show "cell_pair (lc_cells (evicted c)) b = cell_pair (lc_cells c) b"
    by (auto simp: evicted_def Let_def remove_entry_pair not_sym split: option.splits)
  from t show "lc_cells (evicted c) b = None \<longleftrightarrow> lc_cells c b = None"
    by (auto simp: evicted_def Let_def remove_entry_pair remove_entry_same split: option.splits)
qed

lemma lru_cache_get_fill:
  assumes L: "linked c xs" and f: "find (\<lambda>x. fst (cell_pair (lc_cells c) x) = f) xs = None"
    and r: "file_index_lookup ix f = Some r"
  shows "\<exists>c'. lru_cache_get now ix f c = Some (c', Some r)
    \<and> represents c' ((fit MAX_FILENAME_LEN f, r) # (if lc_capacity c \<le> length xs
         then butlast (map (cell_pair (lc_cells c)) xs) else map (cell_pair (lc_cells c)) xs))
    \<and> lc_capacity c' = lc_capacity c"
proof -
  define a where "a = lc_fresh c"
  define e where "e = \<lparr>ce_filename = fit MAX_FILENAME_LEN f, ce_record = r, ce_last_access = now,
      ce_prev = None, ce_next = None\<rparr>"
  define c1 where "c1 = c\<lparr>lc_cells := (lc_cells c)(a \<mapsto> e), lc_fresh := a + 1\<rparr>"
  have a: "lc_cells c a = None" "a \<notin> set xs"
    using L dseg_live [of "lc_cells c" None xs None a] unfolding linked_def a_def by auto
  have c1: "linked c1 xs" unfolding c1_def
    by (rule linked_cells [OF L]) (use a L in \<open>auto simp: linked_def a_def\<close>)
  define ys where "ys = (if lc_capacity c \<le> length xs then butlast xs else xs)"
  have cap: "lc_capacity c1 = lc_capacity c" by (simp add: c1_def)
  have E: "linked (evicted c1) ys" using linked_evicted [OF c1] by (simp add: ys_def cap)
  have ys: "set ys \<subseteq> set xs" by (auto simp: ys_def dest: in_set_butlastD)
  note S = evicted_same [OF c1]
  have ea: "lc_cells (evicted c1) a \<noteq> None" using S(2) [of a] a by (simp add: c1_def)
  have pa: "cell_pair (lc_cells (evicted c1)) a = (fit MAX_FILENAME_LEN f, r)"
    using S(1) [of a] a by (simp add: c1_def cell_pair_def e_def)
  have pb: "cell_pair (lc_cells (evicted c1)) b = cell_pair (lc_cells c) b" if "b \<in> set ys" for b
  proof -
    have "a \<noteq> b" using that ys a(2) by auto
    then have "cell_pair (lc_cells c1) b = cell_pair (lc_cells c) b" by (simp add: c1_def)
    then show ?thesis using S(1) [of b] that by (simp add: ys_def cap)
  qed
  have "linked (lru_cache_add_to_front a (evicted c1)) (a # ys)"
    using E a ys ea by (auto intro: linked_add)
  then have "represents (lru_cache_add_to_front a (evicted c1))
      ((fit MAX_FILENAME_LEN f, r) # map (cell_pair (lc_cells c)) ys)"
    unfolding represents_def by (intro exI [of _ "a # ys"]) (simp add: add_to_front_pair pa pb)
  moreover have "lc_capacity (lru_cache_add_to_front a (evicted c1)) = lc_capacity c"
    by (simp add: add_to_front_same evicted_def Let_def remove_entry_same c1_def split: option.splits)
  moreover have "lru_cache_get now ix f c = Some (lru_cache_add_to_front a (evicted c1), Some r)"
    using lru_find_linked [OF L, of f] f r
    by (simp add: lru_cache_get_def Let_def evicted_def c1_def e_def a_def)
  ultimately show ?thesis unfolding ys_def by (auto simp: map_butlast)
qed

lemma lru_cache_get_refines:
  assumes "represents c es"
  shows "\<exists>c'. lru_cache_get now ix f c = Some (c', snd (recent_get (lc_capacity c) (file_index_lookup ix f) f es))
     \<and> represents c' (fst (recent_get (lc_capacity c) (file_index_lookup ix f) f es))
     \<and> lc_capacity c' = lc_capacity c"
proof -
  from assms obtain xs where L: "linked c xs" and es: "es = map (cell_pair (lc_cells c)) xs"
    unfolding represents_def by blast
  let ?F = "find (\<lambda>x. fst (cell_pair (lc_cells c) x) = f) xs"
  show ?thesis
  proof (cases ?F)
    case (Some a)
    from lru_cache_get_hit [OF L this] Some show ?thesis by (simp add: recent_get_def es find_map)
  next
    case None
    show ?thesis
    proof (cases "file_index_lookup ix f")
      case (Some r)
      from lru_cache_get_fill [OF L None Some] Some None show ?thesis
        by (simp add: recent_get_def es find_map)
    next
      case N: None
      with None L assms show ?thesis
        by (simp add: recent_get_def es find_map lru_cache_get_def lru_find_linked)
    qed
  qed
qed

lemma lru_cache_invalidate_refines:
  assumes "represents c es"
  shows "\<exists>c'. lru_cache_invalidate f c = Some c' \<and> represents c' (remove_first (\<lambda>e. fst e = f) es)
     \<and> lc_capacity c' = lc_capacity c"
proof -
  from assms obtain xs where L: "linked c xs" and es: "es = map (cell_pair (lc_cells c)) xs"
    unfolding represents_def by blast
  let ?F = "find (\<lambda>x. fst (cell_pair (lc_cells c) x) = f) xs"
  show ?thesis
  proof (cases ?F)
    case (Some a)
    define d where "d = lru_cache_remove_entry a c"
    obtain ys where ys: "linked d ys" "a \<notin> set ys"
      and rest: "map (cell_pair (lc_cells c)) ys = remove_first (\<lambda>e. fst e = f) es"
      using represents_remove [OF L Some] unfolding d_def es by metis
    have "linked (d\<lparr>lc_cells := (lc_cells d)(a := None)\<rparr>) ys"
      using ys by (auto simp: linked_def)
    moreover have "map (cell_pair ((lc_cells d)(a := None))) ys = map (cell_pair (lc_cells c)) ys"
      using ys(2) by (intro map_cong refl) (simp add: d_def remove_entry_pair, metis cell_pair_upd remove_entry_pair)
    ultimately have "represents (d\<lparr>lc_cells := (lc_cells d)(a := None)\<rparr>) (remove_first (\<lambda>e. fst e = f) es)"
      unfolding represents_def by (intro exI [of _ ys]) (simp add: rest)
    then show ?thesis using lru_find_linked [OF L, of f] Some
      by (simp add: lru_cache_invalidate_def Let_def d_def remove_entry_same)
  next
    case None
    then have "remove_first (\<lambda>e. fst e = f) es = es"
      by (intro remove_first_none) (auto simp: es find_None_iff)
    then show ?thesis using lru_find_linked [OF L, of f] None assms by (simp add: lru_cache_invalidate_def)
  qed
qed

section \<open>The interface between the index and the cache\<close>

text \<open>
  What the cache may rely on: an added file keeps every pointer that was handed out, and a
  removed one takes away its own only. A coherent cache holds each name once, with the pointer
  the index has for it now.
\<close>

definition coherent :: "(string \<Rightarrow> nat option) \<Rightarrow> (string \<times> nat) list \<Rightarrow> bool" where
  "coherent look es \<longleftrightarrow> distinct (map fst es) \<and> (\<forall>(n, p) \<in> set es. look n = Some p)"

locale record_index =
  fixes look :: "'i \<Rightarrow> string \<Rightarrow> nat option"
    and put :: "'a \<Rightarrow> string \<Rightarrow> 'i \<Rightarrow> 'i"
    and drp :: "string \<Rightarrow> 'i \<Rightarrow> 'i"
  assumes look_put: "look i n = Some p \<Longrightarrow> look (put x m i) n = Some p"
    and look_drp: "n \<noteq> m \<Longrightarrow> look (drp m i) n = look i n"
begin

lemma coherent_find:
  assumes "coherent (look i) es" and "find (\<lambda>e. fst e = f) es = Some e"
  shows "look i f = Some (snd e)" and "e \<in> set es" and "fst e = f"
  using assms find_Some_mem [OF assms(2)] unfolding coherent_def by (cases e; auto)+

lemma coherent_get:
  assumes "coherent (look i) es" and "length f < MAX_FILENAME_LEN"
  shows "coherent (look i) (fst (recent_get cap (look i f) f es))"
    and "snd (recent_get cap (look i f) f es) = look i f"
proof -
  show "snd (recent_get cap (look i f) f es) = look i f"
    using coherent_find [OF assms(1), of f] by (auto simp: recent_get_def split: option.splits)
  have new: "find (\<lambda>e. fst e = f) es = None \<Longrightarrow> (\<forall>e\<in>set es. fst e \<noteq> f)" by (auto simp: find_None_iff)
  show "coherent (look i) (fst (recent_get cap (look i f) f es))"
  proof (cases "find (\<lambda>e. fst e = f) es")
    case (Some e)
    have "remove_first (\<lambda>e. fst e = f) es = filter (\<lambda>e. fst e \<noteq> f) es"
      using assms(1) by (intro remove_first_key) (simp add: coherent_def)
    with Some coherent_find [OF assms(1) Some] assms(1) show ?thesis
      by (auto simp: recent_get_def coherent_def distinct_map_filter)
  next
    case None
    have "distinct (butlast (map fst es))" "f \<notin> set (butlast (map fst es))"
      using assms(1) new [OF None] by (fastforce simp: coherent_def distinct_butlast dest: in_set_butlastD)+
    with None assms new show ?thesis
      by (auto simp: recent_get_def coherent_def fit_id map_butlast split: option.splits dest: in_set_butlastD)
  qed
qed

lemma coherent_put: "coherent (look i) es \<Longrightarrow> coherent (look (put x m i)) es"
  unfolding coherent_def using look_put by blast

lemma coherent_drp:
  assumes "coherent (look i) es"
  shows "coherent (look (drp m i)) (remove_first (\<lambda>e. fst e = m) es)"
proof -
  have "remove_first (\<lambda>e. fst e = m) es = filter (\<lambda>e. fst e \<noteq> m) es"
    using assms by (intro remove_first_key) (simp add: coherent_def)
  with assms show ?thesis by (auto simp: coherent_def distinct_map_filter look_drp)
qed

lemma coherent_invalidate: "coherent (look i) es \<Longrightarrow> coherent (look i) (remove_first (\<lambda>e. fst e = m) es)"
  unfolding coherent_def using set_remove_first [of "\<lambda>e. fst e = m" es]
  by (auto intro: distinct_map_remove_first)

end

text \<open>Callers ignore the result of \<open>file_index_remove\<close>: a name that is not there changes nothing.\<close>

definition index_drop :: "string \<Rightarrow> file_index \<Rightarrow> file_index" where
  "index_drop n ix = (case file_index_remove n ix of None \<Rightarrow> ix | Some ix' \<Rightarrow> ix')"

lemma index_drop_lookup: "file_index_lookup (index_drop m ix) n = (if n = m then None else file_index_lookup ix n)"
  by (auto simp: index_drop_def file_index_lookup_remove file_index_remove_None split: option.splits)

lemma index_drop_ok: "index_ok ix \<Longrightarrow> index_ok (index_drop m ix)"
  by (auto simp: index_drop_def intro: index_ok_remove split: option.splits)

interpretation records: record_index file_index_lookup
    "\<lambda>(now, u, s) n ix. file_index_add now n u s ix" index_drop
proof unfold_locales
  show "file_index_lookup ((case x of (now, u, s) \<Rightarrow> \<lambda>n ix. file_index_add now n u s ix) m i) n = Some p"
    if "file_index_lookup i n = Some p" for i n p x m
    using that by (cases x) (auto simp: file_index_lookup_add)
qed (simp add: index_drop_lookup)

lemmas coherent_file_add = records.coherent_put [of _ _ "(now, u, s)" for now u s, simplified]

text \<open>A cache that is in step with an index.\<close>

definition cache_ok :: "file_index \<Rightarrow> lru_cache \<Rightarrow> bool" where
  "cache_ok ix c \<longleftrightarrow> (\<exists>es. represents c es \<and> coherent (file_index_lookup ix) es
     \<and> length es \<le> lc_capacity c \<and> 0 < lc_capacity c)"

lemma cache_ok_init: "lru_cache_init cap = Some c \<Longrightarrow> cache_ok ix c"
  by (auto simp: lru_cache_init_def cache_ok_def represents_def linked_def coherent_def split: if_splits)

lemma recent_get_length:
  "length es \<le> cap \<Longrightarrow> 0 < cap \<Longrightarrow> length (fst (recent_get cap r f es)) \<le> cap"
  by (auto simp: recent_get_def length_remove_first split: option.splits dest!: find_Some_mem)

lemma cache_ok_get:
  assumes "cache_ok ix c" and "length f < MAX_FILENAME_LEN"
  shows "\<exists>c'. lru_cache_get now ix f c = Some (c', file_index_lookup ix f) \<and> cache_ok ix c'"
proof -
  from assms(1) obtain es where es: "represents c es" "coherent (file_index_lookup ix) es"
    "length es \<le> lc_capacity c" "0 < lc_capacity c" unfolding cache_ok_def by blast
  from lru_cache_get_refines [OF es(1), of now ix f] records.coherent_get [OF es(2) assms(2), of "lc_capacity c"]
    recent_get_length [OF es(3,4)] es(4)
  show ?thesis unfolding cache_ok_def by metis
qed

lemma cache_ok_add: "cache_ok ix c \<Longrightarrow> cache_ok (file_index_add now n u s ix) c"
  unfolding cache_ok_def using coherent_file_add by blast

lemma cache_ok_invalidate:
  assumes "cache_ok ix c"
  shows "\<exists>c'. lru_cache_invalidate f c = Some c' \<and> cache_ok ix c' \<and> cache_ok (index_drop f ix) c'"
proof -
  from assms obtain es where es: "represents c es" "coherent (file_index_lookup ix) es"
    "length es \<le> lc_capacity c" "0 < lc_capacity c" unfolding cache_ok_def by blast
  have "length (remove_first (\<lambda>e. fst e = f) es) \<le> lc_capacity c"
    using es(3) by (auto simp: length_remove_first)
  with lru_cache_invalidate_refines [OF es(1), of f] records.coherent_invalidate [OF es(2), of f]
    records.coherent_drp [OF es(2), of f] es(4)
  show ?thesis unfolding cache_ok_def by metis
qed

lemma cache_ok_cong: "(\<And>n. file_index_lookup ix' n = file_index_lookup ix n) \<Longrightarrow> cache_ok ix' c = cache_ok ix c"
  by (simp add: cache_ok_def coherent_def)

end
