(* ===== verification/Index_Properties.thy ===== *)
theory Index_Properties
  imports Lru_Cache
begin

text \<open>
  The properties of the name server's index and cache: the index as a finite map with live
  records, the listing, the access rights of a record, and the cache as a list in order of use
  that never hands out a freed record.
\<close>

section \<open>Index\<close>

text \<open>
  C30: The listing of the index has exactly the live records, each once, in the byte order of
  their names (\<open>strcmp\<close>): \<open>ns\<close> is the strictly increasing list of all names in the index, and
  the listing is their records in that order.
\<close>
theorem get_all_in_order:
  assumes "index_ok ix"
  shows "\<exists>ns. sorted_wrt name_less ns \<and> distinct ns \<and> set ns = {n. file_index_lookup ix n \<noteq> None}
    \<and> map Some (file_index_get_all ix) = map (file_index_lookup ix) ns
    \<and> length (file_index_get_all ix) = ix_file_count ix"
proof -
  define ns where "ns = map fst (collect_paths (ix_root ix))"
  have s: "sorted_wrt name_less ns" unfolding ns_def sorted_wrt_map by (rule collect_paths_sorted)
  then have d: "distinct ns" by (induction ns) (auto simp: name_less_irrefl)
  have m: "map Some (file_index_get_all ix) = map (file_index_lookup ix) ns"
    unfolding ns_def file_index_get_all_def file_index_lookup_def collect_paths_snd [symmetric]
    by (auto dest: collect_paths_lookup)
  have "n \<in> set ns" if n: "file_index_lookup ix n = Some p" for n p
  proof -
    from n have "p \<in> set (file_index_get_all ix)"
      unfolding file_index_get_all_def collect_set file_index_lookup_def by blast
    then have "Some p \<in> set (map (file_index_lookup ix) ns)" unfolding m [symmetric] by simp
    then obtain n' where "n' \<in> set ns" "file_index_lookup ix n' = Some p" by auto
    then show ?thesis using index_ok_inj [OF assms n] by blast
  qed
  moreover have "file_index_lookup ix n \<noteq> None" if "n \<in> set ns" for n
  proof -
    from that have "file_index_lookup ix n \<in> set (map Some (file_index_get_all ix))" unfolding m by simp
    then show ?thesis by auto
  qed
  ultimately have set: "set ns = {n. file_index_lookup ix n \<noteq> None}" by auto
  have "length (file_index_get_all ix) = length ns" using arg_cong [OF m, of length] by simp
  also have "\<dots> = ix_file_count ix" using index_okD(2) [OF assms] d unfolding set [symmetric] by (simp add: distinct_card)
  finally show ?thesis using s d m set by blast
qed

theorem get_all_in_order_witness:
  "length (file_index_get_all (file_index_add 0 ''b'' ''u'' ''s'' file_index_init)) = 1"
proof -
  define ix where "ix = file_index_add 0 ''b'' ''u'' ''s'' file_index_init"
  have "index_ok ix" unfolding ix_def by (intro index_ok_add index_ok_init)
  from get_all_in_order [OF this] have "length (file_index_get_all ix) = ix_file_count ix" by blast
  also have "ix_file_count ix = 1"
    by (simp add: ix_def file_index_add_def file_index_init_def update_record_def Let_def)
  finally show ?thesis unfolding ix_def .
qed

text \<open>
  Access rights after a change of the list. The owner always has both; granting gives the
  named user exactly what was granted and nobody else anything; withdrawing takes away every
  right of the named user, and nobody else's.
\<close>
theorem access_rights:
  assumes "length u < MAX_USERNAME_LEN" and "distinct (map ae_username (fr_acl r))"
  shows "file_record_check_access r (fr_owner r) need_write
    \<and> (u \<noteq> fr_owner r \<longrightarrow> file_record_check_access (file_record_add_acl u cr cw r) u need_write
         = (if need_write then cw else cr \<or> cw))
    \<and> (v \<noteq> u \<longrightarrow> file_record_check_access (file_record_add_acl u cr cw r) v need_write
         = file_record_check_access r v need_write)
    \<and> (case file_record_remove_acl u r of
         None \<Rightarrow> u \<noteq> fr_owner r \<longrightarrow> \<not> file_record_check_access r u need_write
       | Some r' \<Rightarrow> (u \<noteq> fr_owner r \<longrightarrow> \<not> file_record_check_access r' u need_write)
           \<and> (v \<noteq> u \<longrightarrow> file_record_check_access r' v need_write = file_record_check_access r v need_write))"
proof -
  let ?add = "file_record_add_acl u cr cw r"
  have o: "fr_owner ?add = fr_owner r" by (simp add: file_record_add_acl_def)
  note here = find_acl_add [OF assms(1), of cr cw r u, simplified]
  have other: "file_record_find_acl ?add v = file_record_find_acl r v" if "v \<noteq> u"
    using that by (simp add: find_acl_add [OF assms(1)])
  have rem: "fr_owner r' = fr_owner r \<and> fr_acl r' = filter (\<lambda>a. ae_username a \<noteq> u) (fr_acl r)"
    if "file_record_remove_acl u r = Some r'" for r'
    using that assms(2) by (auto simp: file_record_remove_acl_def remove_first_key split: if_splits)
  have gone: "file_record_find_acl r' u = None" if "file_record_remove_acl u r = Some r'" for r'
    using rem [OF that] by (simp add: file_record_find_acl_def find_None_iff)
  have same: "file_record_find_acl r' v = file_record_find_acl r v"
    if "file_record_remove_acl u r = Some r'" "v \<noteq> u" for r'
    using rem [OF that(1)] that(2) by (simp add: file_record_find_acl_def find_filter_other)
  have none: "file_record_find_acl r u = None" if "file_record_remove_acl u r = None"
    using that by (auto simp: file_record_remove_acl_def file_record_find_acl_def find_None_iff list_ex_iff split: if_splits)
  show ?thesis
    using here other rem gone same none o
    by (auto simp: file_record_check_access_def split: option.splits)
qed

theorem access_rights_witness:
  "let r = file_record_add_acl ''ann'' True False (new_record 0 ''a'' ''bob'') in
   file_record_check_access r ''ann'' False \<and> \<not> file_record_check_access r ''ann'' True
   \<and> (case file_record_remove_acl ''ann'' r of None \<Rightarrow> False | Some r' \<Rightarrow> \<not> file_record_check_access r' ''ann'' False)"
proof -
  define r0 where "r0 = new_record 0 ''a'' ''bob''"
  define r where "r = file_record_add_acl ''ann'' True False r0"
  have l: "length ''ann'' < MAX_USERNAME_LEN" by (simp add: MAX_USERNAME_LEN_def)
  have r0: "distinct (map ae_username (fr_acl r0))" "fr_owner r0 = ''bob''"
    by (simp_all add: r0_def new_record_def fit_def MAX_USERNAME_LEN_def)
  have r: "distinct (map ae_username (fr_acl r))" "fr_owner r = ''bob''"
      "file_record_remove_acl ''ann'' r \<noteq> None"
    using r0 by (simp_all add: r_def r0_def new_record_def file_record_add_acl_def file_record_remove_acl_def
        fit_def MAX_USERNAME_LEN_def)
  have "file_record_check_access r ''ann'' False" "\<not> file_record_check_access r ''ann'' True"
    using access_rights [OF l r0(1), of False True False] access_rights [OF l r0(1), of True True False] r0(2)
    by (simp_all add: r_def)
  then show ?thesis using access_rights [OF l r(1), of False] r(2,3)
    by (auto simp: Let_def r_def r0_def split: option.splits)
qed

section \<open>Cache\<close>

text \<open>
  C21: The doubly linked list implements a list in order of use: on every cache the operations
  build, \<open>lru_cache_get\<close> returns (its search ends and meets no freed cell), what it returns and
  the list it leaves are those of the list operation \<open>recent_get\<close>, and so for
  \<open>lru_cache_invalidate\<close>, which drops the first entry with the name.
\<close>
theorem cache_refines_list:
  assumes "represents c es"
  shows "(\<exists>c'. lru_cache_get now ix f c = Some (c', snd (recent_get (lc_capacity c) (file_index_lookup ix f) f es))
       \<and> represents c' (fst (recent_get (lc_capacity c) (file_index_lookup ix f) f es)))
    \<and> (\<exists>c'. lru_cache_invalidate f c = Some c' \<and> represents c' (remove_first (\<lambda>e. fst e = f) es))"
  using lru_cache_get_refines [OF assms, of now ix f] lru_cache_invalidate_refines [OF assms, of f] by blast

theorem cache_refines_list_witness:
  "\<exists>c'. lru_cache_get 0 (file_index_add 0 ''b'' ''u'' ''s'' file_index_init) ''b'' (the (lru_cache_init 1)) = Some (c', Some 0)
     \<and> represents c' [(''b'', 0)]"
proof -
  have r: "represents (the (lru_cache_init 1)) []"
    by (simp add: represents_def linked_def lru_cache_init_def)
  have l: "file_index_lookup (file_index_add 0 ''b'' ''u'' ''s'' file_index_init) ''b'' = Some 0"
    by (simp add: file_index_lookup_add) (simp add: file_index_lookup_def file_index_init_def)
  show ?thesis using cache_refines_list [OF r, of 0 "file_index_add 0 ''b'' ''u'' ''s'' file_index_init" "''b''"]
    by (simp add: l recent_get_def fit_def MAX_FILENAME_LEN_def split: if_splits)
qed

text \<open>
  The operations as the name server composes them: a created or removed name is invalidated, a
  lookup goes through the cache.
\<close>

datatype index_op = Create time_t string string string | Erase string | Find time_t string

fun index_step :: "index_op \<Rightarrow> file_index \<times> lru_cache \<Rightarrow> (file_index \<times> lru_cache) option" where
  "index_step (Create now n u s) (ix, c) =
     map_option (\<lambda>c'. (file_index_add now n u s ix, c')) (lru_cache_invalidate n c)"
| "index_step (Erase n) (ix, c) = map_option (\<lambda>c'. (index_drop n ix, c')) (lru_cache_invalidate n c)"
| "index_step (Find now n) (ix, c) = map_option (\<lambda>(c', _). (ix, c')) (lru_cache_get now ix n c)"

fun index_run :: "index_op list \<Rightarrow> file_index \<times> lru_cache \<Rightarrow> (file_index \<times> lru_cache) option" where
  "index_run [] s = Some s"
| "index_run (op # ops) s = (case index_step op s of None \<Rightarrow> None | Some s' \<Rightarrow> index_run ops s')"

fun op_fits :: "index_op \<Rightarrow> bool" where
  "op_fits (Find now n) = (length n < MAX_FILENAME_LEN)"
| "op_fits _ = True"

lemma index_step_ok:
  assumes "index_ok ix" and "cache_ok ix c" and "op_fits op"
  shows "\<exists>ix' c'. index_step op (ix, c) = Some (ix', c') \<and> index_ok ix' \<and> cache_ok ix' c'"
proof (cases op)
  case (Create now n u s)
  with cache_ok_invalidate [OF assms(2), of n] show ?thesis
    by (auto simp: index_ok_add [OF assms(1)] cache_ok_add)
next
  case (Erase n)
  with cache_ok_invalidate [OF assms(2), of n] show ?thesis by (auto simp: index_drop_ok [OF assms(1)])
next
  case (Find now n)
  with assms(3) cache_ok_get [OF assms(2), of n now] show ?thesis by (auto simp: assms(1))
qed

lemma index_run_ok:
  assumes "index_ok ix" and "cache_ok ix c" and "list_all op_fits ops"
  shows "\<exists>ix' c'. index_run ops (ix, c) = Some (ix', c') \<and> index_ok ix' \<and> cache_ok ix' c'"
  using assms
proof (induction ops arbitrary: ix c)
  case (Cons op ops)
  then obtain ix' c' where "index_step op (ix, c) = Some (ix', c')" "index_ok ix'" "cache_ok ix' c'"
    using index_step_ok [of ix c op] by auto
  then show ?case using Cons.IH [of ix' c'] Cons.prems(3) by simp
qed simp

text \<open>
  C20: The cache never hands out a freed record. After any sequence of creations, removals and
  lookups, which always runs to its end, the index is a map from names to live records (every
  name to its own, none unreachable, the counter right), the cache holds at most its capacity,
  and a lookup through the cache gives what the index itself has, a record that is still live.
\<close>
theorem cache_never_dangles:
  assumes "0 < cap" and "list_all op_fits ops"
  shows "\<exists>ix c. index_run ops (file_index_init, the (lru_cache_init cap)) = Some (ix, c) \<and> index_ok ix
     \<and> (\<exists>es. represents c es \<and> length es \<le> lc_capacity c)
     \<and> (\<forall>n now. length n < MAX_FILENAME_LEN \<longrightarrow>
          (\<exists>c'. lru_cache_get now ix n c = Some (c', file_index_lookup ix n))
          \<and> (\<forall>p. file_index_lookup ix n = Some p \<longrightarrow> (\<exists>r. ix_heap ix p = Some r \<and> fr_filename r = n)))"
proof -
  have "cache_ok file_index_init (the (lru_cache_init cap))"
    using assms(1) by (intro cache_ok_init [of cap]) (simp add: lru_cache_init_def)
  from index_run_ok [OF index_ok_init this assms(2)] obtain ix c
    where r: "index_run ops (file_index_init, the (lru_cache_init cap)) = Some (ix, c)" "index_ok ix" "cache_ok ix c"
    by blast
  have "\<exists>r. ix_heap ix p = Some r \<and> fr_filename r = n"
    if "length n < MAX_FILENAME_LEN" "file_index_lookup ix n = Some p" for n p
    using index_ok_lookup [OF r(2) that(2)] that(1) by (metis record_ok_def fit_id)
  moreover have "\<exists>c'. lru_cache_get now ix n c = Some (c', file_index_lookup ix n)"
    if "length n < MAX_FILENAME_LEN" for n now
    using cache_ok_get [OF r(3) that] by blast
  moreover have "\<exists>es. represents c es \<and> length es \<le> lc_capacity c" using r(3) unfolding cache_ok_def by blast
  ultimately show ?thesis using r(1,2) by blast
qed

theorem cache_never_dangles_witness:
  "\<exists>ix c. index_run [Create 0 ''a'' ''u'' ''s'', Find 1 ''a'', Erase ''a''] (file_index_init, the (lru_cache_init 2)) = Some (ix, c)
     \<and> (\<exists>c'. lru_cache_get 2 ix ''a'' c = Some (c', file_index_lookup ix ''a''))"
proof -
  have "list_all op_fits [Create 0 ''a'' ''u'' ''s'', Find 1 ''a'', Erase ''a'']" "(0 :: nat) < 2"
      "length ''a'' < MAX_FILENAME_LEN"
    by (simp_all add: MAX_FILENAME_LEN_def)
  then show ?thesis using cache_never_dangles [of 2] by blast
qed

text \<open>Names in order of last use, without a bound.\<close>

definition recently :: "string list \<Rightarrow> string list" where
  "recently fs = fold (\<lambda>f acc. f # removeAll f acc) fs []"

lemma distinct_recently: "distinct (recently fs)"
  unfolding recently_def by (induction fs rule: rev_induct) (auto simp: distinct_removeAll)

lemma removeAll_take_in:
  assumes "distinct ns" and "f \<in> set (take k ns)"
  shows "removeAll f (take k ns) = take (k - 1) (removeAll f ns)"
  using assms
proof (induction ns arbitrary: k)
  case (Cons n ns)
  show ?case
  proof (cases "n = f")
    case True
    with Cons.prems have "f \<notin> set ns" "f \<notin> set (take (k - 1) ns)" by (auto dest: in_set_takeD)
    with True Cons.prems show ?thesis by (cases k) simp_all
  next
    case False
    with Cons.prems obtain j where j: "k = Suc j" "f \<in> set (take j ns)" by (cases k) auto
    then obtain i where "j = Suc i" by (cases j) auto
    with j Cons False show ?thesis by auto
  qed
qed simp

lemma take_removeAll_out:
  assumes "f \<notin> set (take k ns)"
  shows "take k (removeAll f ns) = take k ns"
proof -
  have "removeAll f ns = take k ns @ removeAll f (drop k ns)"
    using assms by (metis append_take_drop_id removeAll_append removeAll_id)
  then show ?thesis by (cases "k \<le> length ns") simp_all
qed

lemma recent_get_names:
  assumes "distinct ns" and es: "map fst es = take cap ns" and "0 < cap" and "found \<noteq> None"
    and "length f < MAX_FILENAME_LEN"
  shows "map fst (fst (recent_get cap found f es)) = take cap (f # removeAll f ns)"
proof (cases "find (\<lambda>e. fst e = f) es")
  case (Some e)
  have d: "distinct (map fst es)" unfolding es using assms(1) by simp
  from Some have f: "fst e = f" "f \<in> set (take cap ns)"
    unfolding es [symmetric] by (auto dest: find_Some_mem)
  have "map fst (filter (\<lambda>e. fst e \<noteq> f) es) = removeAll f (map fst es)"
    by (induction es) auto
  then have "map fst (remove_first (\<lambda>e. fst e = f) es) = removeAll f (take cap ns)"
    using remove_first_key [OF d] es by simp
  with Some f removeAll_take_in [OF assms(1) f(2)] assms(3) show ?thesis
    by (cases cap) (simp_all add: recent_get_def)
next
  case None
  then have out: "f \<notin> set (take cap ns)" unfolding es [symmetric] by (auto simp: find_None_iff)
  then have "f \<notin> set (take (cap - 1) ns)" by (meson diff_le_self set_take_subset_set_take subsetD)
  from take_removeAll_out [OF this] have "take cap (f # removeAll f ns) = f # take (cap - 1) ns"
    using assms(3) by (cases cap) simp_all
  moreover have "map fst (if cap \<le> length es then butlast es else es) = take (cap - 1) ns"
  proof (cases "cap \<le> length es")
    case True
    then have "cap \<le> length ns" using arg_cong [OF es, of length] by simp
    with True es show ?thesis by (simp add: map_butlast butlast_take)
  next
    case False
    then have "length ns < cap" using arg_cong [OF es, of length] by simp
    with False es show ?thesis by simp
  qed
  ultimately show ?thesis using None assms(4,5) by (auto simp: recent_get_def fit_id split: if_splits)
qed

lemma find_run_names:
  assumes "\<forall>f\<in>set fs. file_index_lookup ix f \<noteq> None \<and> length f < MAX_FILENAME_LEN"
    and "represents c es" and "distinct ns" and "map fst es = take (lc_capacity c) ns" and "0 < lc_capacity c"
  shows "\<exists>c' es'. index_run (map (Find now) fs) (ix, c) = Some (ix, c') \<and> represents c' es'
    \<and> map fst es' = take (lc_capacity c) (fold (\<lambda>f acc. f # removeAll f acc) fs ns)"
  using assms
proof (induction fs arbitrary: c es ns)
  case (Cons f fs)
  let ?es = "fst (recent_get (lc_capacity c) (file_index_lookup ix f) f es)"
  from lru_cache_get_refines [OF Cons.prems(2), of now ix f] obtain c'
    where c': "lru_cache_get now ix f c = Some (c', snd (recent_get (lc_capacity c) (file_index_lookup ix f) f es))"
      "represents c' ?es" "lc_capacity c' = lc_capacity c" by blast
  have "map fst ?es = take (lc_capacity c) (f # removeAll f ns)"
    using Cons.prems by (intro recent_get_names) auto
  from Cons.IH [OF _ c'(2), of "f # removeAll f ns"] this c' Cons.prems
  show ?case by (simp add: distinct_removeAll)
qed auto

text \<open>
  C29: The cache keeps the most recently used names: after looking up any sequence of existing
  files through a cache of capacity \<open>cap\<close>, it holds the last \<open>cap\<close> different names looked up,
  the latest first. The name that leaves is always the one unused for longest.
\<close>
theorem cache_keeps_most_recent:
  assumes "0 < cap" and "\<forall>f\<in>set fs. file_index_lookup ix f \<noteq> None \<and> length f < MAX_FILENAME_LEN"
  shows "\<exists>c es. index_run (map (Find now) fs) (ix, the (lru_cache_init cap)) = Some (ix, c) \<and> represents c es
    \<and> map fst es = take cap (recently fs)"
  using find_run_names [OF assms(2), of "the (lru_cache_init cap)" "[]" "[]" now] assms(1)
  by (simp add: recently_def lru_cache_init_def represents_def linked_def)

theorem cache_keeps_most_recent_witness:
  "let ix = file_index_add 0 ''c'' ''u'' ''s'' (file_index_add 0 ''b'' ''u'' ''s'' (file_index_add 0 ''a'' ''u'' ''s'' file_index_init)) in
   \<exists>c es. index_run (map (Find 7) [''a'', ''b'', ''a'', ''c'']) (ix, the (lru_cache_init 2)) = Some (ix, c) \<and> represents c es
    \<and> map fst es = [''c'', ''a'']"
proof -
  define ix where "ix = file_index_add 0 ''c'' ''u'' ''s'' (file_index_add 0 ''b'' ''u'' ''s'' (file_index_add 0 ''a'' ''u'' ''s'' file_index_init))"
  have "\<forall>f\<in>set [''a'', ''b'', ''a'', ''c'']. file_index_lookup ix f \<noteq> None \<and> length f < MAX_FILENAME_LEN"
    by (auto simp: ix_def file_index_lookup_add MAX_FILENAME_LEN_def)
  from cache_keeps_most_recent [of 2, OF _ this, of 7] show ?thesis
    unfolding Let_def ix_def [symmetric] by (simp add: recently_def del: index_run.simps)
qed

end
