(* ===== verification/Json.thy ===== *)
theory Json
  imports C_Strings
begin

text \<open>
  The JSON of the name server (\<open>name_server/src/main.c\<close>): the two field readers, which search for
  the quoted key and take what follows the next colon, the reader of string arrays with its list
  of unique strings, and the writer of string literals into a bounded buffer. Below: the fields
  written by the program's own format strings are read back when no earlier value equals the key,
  and arrays of literals are read back whole.
\<close>

section \<open>Readers\<close>

definition json_after_colon :: "string \<Rightarrow> string \<Rightarrow> string option" where
  "json_after_colon json key =
     (let pattern = fit 128 (DQ # key @ [DQ]) in
      case strstr json pattern of None \<Rightarrow> None
      | Some p \<Rightarrow> (case strchr (drop (length pattern) p) (CHR '':'') of None \<Rightarrow> None
          | Some q \<Rightarrow> Some (dropWhile (\<lambda>c. c = SP \<or> c = TAB) (tl q))))"

definition json_get_string :: "string \<Rightarrow> string \<Rightarrow> nat \<Rightarrow> string option" where
  "json_get_string json key out_len = (case json_after_colon json key of
     None \<Rightarrow> None
   | Some v \<Rightarrow> (case v of [] \<Rightarrow> None
       | c # r \<Rightarrow> if c \<noteq> DQ then None
                 else case strchr r DQ of None \<Rightarrow> None
                   | Some _ \<Rightarrow> Some (fit out_len (takeWhile (\<lambda>x. x \<noteq> DQ) r))))"

text \<open>A field read into a buffer that keeps its default when the key is absent.\<close>

definition json_field :: "string \<Rightarrow> string \<Rightarrow> nat \<Rightarrow> string \<Rightarrow> string" where
  "json_field json key out_len dflt = (case json_get_string json key out_len of None \<Rightarrow> dflt | Some v \<Rightarrow> v)"

definition json_get_uint :: "string \<Rightarrow> string \<Rightarrow> nat option" where
  "json_get_uint json key = (case json_after_colon json key of
     None \<Rightarrow> None
   | Some v \<Rightarrow> (case strtoul v of (value, rest, overflow) \<Rightarrow>
       if rest = v \<or> overflow then None else Some value))"

section \<open>String arrays\<close>

definition string_list_add_unique :: "string list \<Rightarrow> string \<Rightarrow> string list" where
  "string_list_add_unique xs value = (if value = [] \<or> value \<in> set xs then xs else xs @ [value])"

fun array_end :: "bool \<Rightarrow> bool \<Rightarrow> string \<Rightarrow> string option" where
  "array_end in_string escape [] = None"
| "array_end in_string escape (ch # cs) =
     (if in_string then
        if escape then map_option (Cons ch) (array_end True False cs)
        else if ch = BSL then map_option (Cons ch) (array_end True True cs)
        else if ch = DQ then map_option (Cons ch) (array_end False False cs)
        else map_option (Cons ch) (array_end True False cs)
      else if ch = DQ then map_option (Cons ch) (array_end True escape cs)
      else if ch = CHR '']'' then Some []
      else map_option (Cons ch) (array_end False escape cs))"

fun array_items :: "bool \<Rightarrow> bool \<Rightarrow> string \<Rightarrow> string list \<Rightarrow> string \<Rightarrow> string list" where
  "array_items in_string escape buf out [] = out"
| "array_items in_string escape buf out (ch # cs) =
     (if \<not> in_string then
        if ch = DQ then array_items True escape [] out cs else array_items False escape buf out cs
      else if escape then array_items True False (if length buf < 511 then buf @ [ch] else buf) out cs
      else if ch = BSL then array_items True True buf out cs
      else if ch = DQ then array_items False False buf (string_list_add_unique out buf) cs
      else array_items True False (if length buf < 511 then buf @ [ch] else buf) out cs)"

definition parse_json_string_array :: "string \<Rightarrow> string \<Rightarrow> string list \<Rightarrow> string list" where
  "parse_json_string_array json key out =
     (let pattern = fit 64 (DQ # key @ DQ # '':['') in
      case strstr json pattern of None \<Rightarrow> out
      | Some p \<Rightarrow> (case array_end False False (drop (length pattern) p) of
          None \<Rightarrow> out | Some body \<Rightarrow> array_items False False [] out body))"

section \<open>Writer\<close>

definition json_escape :: "char \<Rightarrow> string option" where
  "json_escape ch = (if ch = DQ \<or> ch = BSL then Some [BSL, ch]
     else if ch = LF then Some [BSL, CHR ''n''] else if ch = CR then Some [BSL, CHR ''r'']
     else if ch = TAB then Some [BSL, CHR ''t''] else None)"

text \<open>The buffer is its content so far, whose length is the offset.\<close>

fun literal_loop :: "nat \<Rightarrow> string \<Rightarrow> string \<Rightarrow> string" where
  "literal_loop buf_len [] buf = buf"
| "literal_loop buf_len (ch # cs) buf =
     (if buf_len - 2 \<le> length buf then buf
      else case json_escape ch of
        Some e \<Rightarrow> if buf_len \<le> length buf + 2 then buf else literal_loop buf_len cs (buf @ e)
      | None \<Rightarrow> literal_loop buf_len cs (buf @ [ch]))"

definition append_json_string_literal :: "nat \<Rightarrow> string \<Rightarrow> string \<Rightarrow> string" where
  "append_json_string_literal buf_len value buf =
     (if buf_len \<le> length buf \<or> buf_len \<le> length buf + 2 then buf
      else (let b = literal_loop buf_len value (buf @ [DQ])
            in if length b < buf_len - 1 then b @ [DQ] else b))"

section \<open>Fields the program writes\<close>

text \<open>An object with string values, as the format strings of the program print it.\<close>

fun json_fields :: "(string \<times> string) list \<Rightarrow> string \<Rightarrow> string" where
  "json_fields [] rest = rest"
| "json_fields ((k, v) # fs) rest = DQ # k @ DQ # CHR '':'' # DQ # v @ DQ #
     (if fs = [] then rest else CHR '','' # json_fields fs rest)"

lemma json_fields_append: "json_fields fs rest @ t = json_fields fs (rest @ t)"
  by (induction fs rest rule: json_fields.induct) auto

definition plain :: "string \<Rightarrow> bool" where
  "plain v \<longleftrightarrow> DQ \<notin> set v"

lemma strstr_quote_skip:
  assumes "DQ \<notin> set t"
  shows "strstr (t @ DQ # r) (DQ # key @ [DQ]) = strstr (DQ # r) (DQ # key @ [DQ])"
  by (rule strstr_hd_absent [OF refl assms])

lemma strstr_not_here:
  "\<not> prefix (key @ [DQ]) r \<Longrightarrow> strstr (DQ # r) (DQ # key @ [DQ]) = strstr r (DQ # key @ [DQ])"
  using take_length_prefix [of "key @ [DQ]" r] by auto

lemma prefix_quoted:
  assumes "plain key" and "plain t"
  shows "prefix (key @ [DQ]) (t @ DQ # r) \<longleftrightarrow> t = key"
proof
  assume "prefix (key @ [DQ]) (t @ DQ # r)"
  then obtain z where z: "t @ DQ # r = key @ DQ # z" by (auto simp: prefix_def)
  then have "takeWhile (\<lambda>c. c \<noteq> DQ) (t @ DQ # r) = takeWhile (\<lambda>c. c \<noteq> DQ) (key @ DQ # z)" by simp
  moreover have "takeWhile (\<lambda>c. c \<noteq> DQ) (u @ DQ # y) = u" if "DQ \<notin> set u" for u y
    using that by (induction u) auto
  ultimately show "t = key" using assms by (simp add: plain_def)
qed (auto simp: prefix_def)

text \<open>Passing over one quoted token, and over the single character between two tokens.\<close>

lemma strstr_token:
  assumes "plain key" and "plain t" and "t \<noteq> key"
  shows "strstr (DQ # t @ DQ # r) (DQ # key @ [DQ]) = strstr (DQ # r) (DQ # key @ [DQ])"
proof -
  have "strstr (DQ # t @ DQ # r) (DQ # key @ [DQ]) = strstr (t @ DQ # r) (DQ # key @ [DQ])"
    using assms by (intro strstr_not_here) (simp add: prefix_quoted)
  then show ?thesis using assms(2) by (simp add: strstr_quote_skip plain_def)
qed

lemma strstr_between:
  assumes "plain key" and "key \<noteq> [x]" and "x \<noteq> DQ"
  shows "strstr (DQ # x # DQ # r) (DQ # key @ [DQ]) = strstr (DQ # r) (DQ # key @ [DQ])"
  using strstr_token [of key "[x]" r] assms by (simp add: plain_def)

definition json_key :: "string \<Rightarrow> bool" where
  "json_key k \<longleftrightarrow> plain k \<and> k \<noteq> '':'' \<and> k \<noteq> '','' \<and> CHR '':'' \<notin> set k \<and> length k < 124"

lemma strstr_fields:
  assumes "json_key key" and "\<forall>(k, v)\<in>set fs. plain k \<and> plain v \<and> k \<noteq> key \<and> v \<noteq> key"
  shows "strstr (json_fields (fs @ (key, v) # gs) rest) (DQ # key @ [DQ]) = Some (json_fields ((key, v) # gs) rest)"
  using assms(2)
proof (induction fs)
  case Nil
  then show ?case by (auto intro!: strstr_prefix simp: prefix_def)
next
  case (Cons f fs)
  obtain k w where f: "f = (k, w)" by (cases f)
  with Cons.prems have p: "plain k" "plain w" "k \<noteq> key" "w \<noteq> key" by auto
  obtain r where r: "json_fields (fs @ (key, v) # gs) rest = DQ # r"
    by (cases fs) (auto split: if_splits)
  have "strstr (json_fields ((f # fs) @ (key, v) # gs) rest) (DQ # key @ [DQ])
      = strstr (json_fields (fs @ (key, v) # gs) rest) (DQ # key @ [DQ])"
    using assms(1) p by (simp add: f r strstr_token strstr_between json_key_def del: strstr.simps)
  then show ?case using Cons by simp
qed

lemma strstr_field:
  assumes "json_key key" and "\<forall>(k, v)\<in>set fs. plain k \<and> plain v \<and> k \<noteq> key \<and> v \<noteq> key" and "plain pre"
  shows "strstr (pre @ json_fields (fs @ (key, v) # gs) rest) (DQ # key @ [DQ]) = Some (json_fields ((key, v) # gs) rest)"
  using strstr_fields [OF assms(1,2), of v gs rest] assms(3)
  by (subst strstr_hd_absent [OF refl]) (auto simp: plain_def)

lemma takeWhile_plain: "plain v \<Longrightarrow> takeWhile (\<lambda>c. c \<noteq> DQ) (v @ DQ # r) = v"
  by (induction v) (auto simp: plain_def)

lemma json_after_colon_field:
  assumes "json_key key" and "\<forall>(k, v)\<in>set fs. plain k \<and> plain v \<and> k \<noteq> key \<and> v \<noteq> key" and "plain pre"
  shows "json_after_colon (pre @ json_fields (fs @ (key, v) # gs) rest) key = Some (DQ # v @ DQ #
     (if gs = [] then rest else CHR '','' # json_fields gs rest))"
proof -
  have "fit 128 (DQ # key @ [DQ]) = DQ # key @ [DQ]"
    using assms(1) by (simp add: json_key_def fit_id)
  then show ?thesis by (simp add: json_after_colon_def Let_def strstr_field [OF assms])
qed

text \<open>
  A string field is read back, cut to the buffer: the key must not appear as an earlier value,
  because the search does not tell keys from values.
\<close>

lemma json_get_string_field:
  assumes "json_key key" and "\<forall>(k, v)\<in>set fs. plain k \<and> plain v \<and> k \<noteq> key \<and> v \<noteq> key"
    and "plain pre" and "plain v"
  shows "json_get_string (pre @ json_fields (fs @ (key, v) # gs) rest) key n = Some (fit n v)"
  using assms(4) takeWhile_plain [OF assms(4)]
  by (simp add: json_get_string_def json_after_colon_field [OF assms(1-3)] strchr_append plain_def)

lemma fit_fields:
  "length (a @ json_fields fs r) < n \<Longrightarrow> \<exists>rest. fit n (a @ json_fields fs r) = a @ json_fields fs rest"
  by (auto simp: fit_id)

text \<open>
  The contract of a program that reads fields: what another program wrote is found, cut to the size of the buffer,
  unless a key or value in front of it equals the key.
\<close>

locale field_reader =
  fixes get :: "string \<Rightarrow> string \<Rightarrow> nat \<Rightarrow> string option"
  assumes get_field: "json_key key \<Longrightarrow> \<forall>(k, x)\<in>set fs. plain k \<and> plain x \<and> k \<noteq> key \<and> x \<noteq> key \<Longrightarrow> plain pre \<Longrightarrow> plain v
    \<Longrightarrow> get (pre @ json_fields (fs @ (key, v) # gs) rest) key n = Some (fit n v)"
begin

lemma get_nth:
  assumes "json_key key" and "plain pre" and "i < length fs" and "fs ! i = (key, v)" and "plain v"
    and "\<forall>(k, x)\<in>set (take i fs). plain k \<and> plain x \<and> k \<noteq> key \<and> x \<noteq> key"
  shows "get (pre @ json_fields fs rest) key n = Some (fit n v)"
  using get_field [OF assms(1,6,2,5), of "drop (Suc i) fs"] id_take_nth_drop [OF assms(3)] assms(4) by simp

lemma get_fits:
  assumes "json_key key" and "plain pre" and "i < length fs" and "fs ! i = (key, v)" and "plain v" and "length v < n"
    and "\<forall>(k, x)\<in>set (take i fs). plain k \<and> plain x \<and> k \<noteq> key \<and> x \<noteq> key"
  shows "get (pre @ json_fields fs rest) key n = Some v"
  using get_nth [OF assms(1-5,7), of rest n] assms(6) by (simp add: fit_id)

end

interpretation nm_fields: field_reader json_get_string
  by unfold_locales (rule json_get_string_field)

section \<open>Arrays the program writes\<close>

fun json_chars :: "string \<Rightarrow> string" where
  "json_chars [] = []"
| "json_chars (c # cs) = (case json_escape c of Some e \<Rightarrow> e | None \<Rightarrow> [c]) @ json_chars cs"

definition json_literal :: "string \<Rightarrow> string" where
  "json_literal v = DQ # json_chars v @ [DQ]"

fun json_list :: "string list \<Rightarrow> string" where
  "json_list [] = []"
| "json_list (x # xs) = json_literal x @ (if xs = [] then [] else CHR '','' # json_list xs)"

text \<open>The writer never leaves the buffer, and writes the whole literal when there is room for it.\<close>

lemma literal_loop_bound: "length buf \<le> n - 1 \<Longrightarrow> 2 \<le> n \<Longrightarrow> length (literal_loop n cs buf) \<le> n - 1"
proof (induction n cs buf rule: literal_loop.induct)
  case (2 n ch cs buf)
  have "length e \<le> 2" if "json_escape ch = Some e" for e
    using that by (auto simp: json_escape_def split: if_splits)
  with 2 show ?case by (fastforce split: option.splits)
qed simp

lemma append_literal_bound: "length buf < n \<Longrightarrow> length (append_json_string_literal n v buf) < n"
  using literal_loop_bound [of "buf @ [DQ]" n v] by (auto simp: append_json_string_literal_def Let_def)

lemma literal_loop_fits:
  "length buf + length (json_chars cs) < n - 1 \<Longrightarrow> literal_loop n cs buf = buf @ json_chars cs"
proof (induction n cs buf rule: literal_loop.induct)
  case (2 n ch cs buf)
  have "length e = 2" if "json_escape ch = Some e" for e
    using that by (auto simp: json_escape_def split: if_splits)
  with 2 show ?case by (auto split: option.splits)
qed simp

lemma append_literal_fits:
  "length buf + length (json_literal v) < n \<Longrightarrow> append_json_string_literal n v buf = buf @ json_literal v"
  by (simp add: append_json_string_literal_def json_literal_def literal_loop_fits Let_def)

text \<open>
  Reading an array of literals back. The reader drops the backslash and keeps the next character,
  so that a line break comes back as \<open>n\<close>: names with control characters are excluded.
\<close>

definition list_name :: "string \<Rightarrow> bool" where
  "list_name v \<longleftrightarrow> v \<noteq> [] \<and> length v < 512 \<and> LF \<notin> set v \<and> CR \<notin> set v \<and> TAB \<notin> set v"

lemma array_items_chars:
  assumes "LF \<notin> set v" "CR \<notin> set v" "TAB \<notin> set v" and "length buf + length v < 512"
  shows "array_items True False buf out (json_chars v @ DQ # r)
    = array_items False False (buf @ v) (string_list_add_unique out (buf @ v)) r"
  using assms
proof (induction v arbitrary: buf)
  case (Cons c v)
  then have "array_items True False (buf @ [c]) out (json_chars v @ DQ # r)
      = array_items False False ((buf @ [c]) @ v) (string_list_add_unique out ((buf @ [c]) @ v)) r"
    by (intro Cons.IH) auto
  with Cons.prems show ?case by (auto simp: json_escape_def)
qed simp

lemma array_items_list:
  "list_all list_name xs \<Longrightarrow> array_items False False buf out (json_list xs) = fold (\<lambda>x acc. string_list_add_unique acc x) xs out"
proof (induction xs arbitrary: buf out)
  case (Cons x xs)
  have "array_items False False buf out (json_literal x @ r) = array_items False False x (string_list_add_unique out x) r" for r
    using Cons.prems array_items_chars [of x "[]" out r] by (simp add: json_literal_def list_name_def)
  with Cons show ?case by simp
qed simp

lemma array_end_chars:
  "array_end True False (json_chars v @ DQ # r) = map_option (\<lambda>b. json_chars v @ DQ # b) (array_end False False r)"
proof (induction v)
  case (Cons c v)
  then show ?case by (auto simp: json_escape_def option.map_comp comp_def)
qed simp

lemma array_end_list: "array_end False False (json_list xs @ CHR '']'' # r) = Some (json_list xs)"
proof (induction xs)
  case (Cons x xs)
  have "array_end False False (json_literal x @ s) = map_option (\<lambda>b. json_literal x @ b) (array_end False False s)" for s
    by (simp add: json_literal_def array_end_chars option.map_comp comp_def)
  with Cons show ?case by simp
qed simp

lemma parse_json_list:
  assumes "list_all list_name xs" and "plain pre" and "plain key" and "length key < 60"
  shows "parse_json_string_array (pre @ DQ # key @ DQ # '':['' @ json_list xs @ CHR '']'' # r) key out
     = fold (\<lambda>x acc. string_list_add_unique acc x) xs out"
proof -
  let ?pat = "DQ # key @ DQ # '':[''"
  have f: "fit 64 ?pat = ?pat" using assms(4) by (simp add: fit_id)
  have "strstr (pre @ ?pat @ json_list xs @ CHR '']'' # r) ?pat = Some (?pat @ json_list xs @ CHR '']'' # r)"
    using assms(2) by (subst strstr_hd_absent [OF refl]) (auto intro!: strstr_prefix simp: plain_def prefix_def)
  then show ?thesis using array_end_list [of xs r] array_items_list [OF assms(1)]
    by (simp add: parse_json_string_array_def f Let_def)
qed

lemma add_unique_fold:
  "distinct xs \<Longrightarrow> set xs \<inter> set out = {} \<Longrightarrow> [] \<notin> set xs \<Longrightarrow>
   fold (\<lambda>x acc. string_list_add_unique acc x) xs out = out @ xs"
  by (induction xs arbitrary: out) (auto simp: string_list_add_unique_def)

end
