(* ===== verification/Nm_Store.thy ===== *)
theory Nm_Store
  imports Json File_Index Disk Net
begin

text \<open>
  What the name server keeps on disk (\<open>name_server/src/main.c\<close>): the access list of every file, the
  pending access requests and the registry, written with \<open>stdio\<close> and read back line by line. The
  record \<open>nm_env\<close> holds what the surroundings decide: the clock, which files can be opened and how
  many bytes of a text reach them, what the sockets deliver, what an executed script prints.
\<close>

section \<open>The surroundings\<close>

record nm_env =
  ne_big :: bool
  ne_now :: time_t
  ne_io :: io
  ne_fopen :: "string \<Rightarrow> bool"
  ne_written :: "string \<Rightarrow> nat \<Rightarrow> nat"
  ne_net :: "string \<Rightarrow> u16 \<Rightarrow> protocol_opcode_t \<Rightarrow> string \<Rightarrow> (send_event list \<times> recv_event list) option"
  ne_popen :: "string \<Rightarrow> (string \<times> int) option"
  ne_date :: "time_t \<Rightarrow> string"

text \<open>\<open>fopen\<close> for writing and appending with the text printed before \<open>fclose\<close>; errors of printing are not seen.\<close>

definition fopen_write :: "nm_env \<Rightarrow> string \<Rightarrow> string \<Rightarrow> fs \<Rightarrow> fs option" where
  "fopen_write env path text d = (if \<not> ne_fopen env path then None else case resolve d path of
     Inl _ \<Rightarrow> None
   | Inr p \<Rightarrow> if node_at d p = Some Dir then None
             else Some (fs_put p (Reg (take (ne_written env path (length text)) text)) d))"

definition fopen_append :: "nm_env \<Rightarrow> string \<Rightarrow> string \<Rightarrow> fs \<Rightarrow> fs option" where
  "fopen_append env path text d = (if \<not> ne_fopen env path then None else case resolve d path of
     Inl _ \<Rightarrow> None
   | Inr p \<Rightarrow> (case node_at d p of
       Some Dir \<Rightarrow> None
     | Some (Reg b) \<Rightarrow> Some (fs_put p (Reg (b @ take (ne_written env path (length text)) text)) d)
     | None \<Rightarrow> Some (fs_put p (Reg (take (ne_written env path (length text)) text)) d)))"

definition fopen_read :: "nm_env \<Rightarrow> string \<Rightarrow> fs \<Rightarrow> errno + bytes" where
  "fopen_read env path d = (if \<not> ne_fopen env path then Inl EOTHER else case sys_stat d path of
     Inl e \<Rightarrow> Inl e | Inr (Reg b) \<Rightarrow> Inr b | Inr Dir \<Rightarrow> Inr [])"

section \<open>Reading lines\<close>

text \<open>\<open>fgets\<close> with a buffer of \<open>n + 1\<close> bytes, and the lines a loop of calls sees.\<close>

fun fgets :: "nat \<Rightarrow> string \<Rightarrow> string" where
  "fgets 0 s = []"
| "fgets (Suc n) [] = []"
| "fgets (Suc n) (c # cs) = c # (if c = LF then [] else fgets n cs)"

function fgets_lines :: "nat \<Rightarrow> string \<Rightarrow> string list" where
  "fgets_lines sz s = (let l = fgets (sz - 1) s in if l = [] then [] else l # fgets_lines sz (drop (length l) s))"
  by pat_completeness auto
termination
proof (relation "measure (\<lambda>(sz, s). length s)")
  show "\<And>sz s x. x = fgets (sz - 1) s \<Longrightarrow> x \<noteq> [] \<Longrightarrow> ((sz, drop (length x) s), sz, s) \<in> measure (\<lambda>(sz, s). length s)"
    by (metis (no_types, lifting) diff_less drop_eq_Nil fgets.elims in_measure length_drop length_greater_0_conv
        list.discI not_gr_zero old.prod.case list.size(3) zero_less_diff)
qed simp

declare fgets_lines.simps [simp del]

text \<open>Conversions of \<open>sscanf\<close>: a run of at most \<open>n\<close> characters other than \<open>x\<close>, a literal, a word, a number.\<close>

definition scan_not :: "nat \<Rightarrow> char \<Rightarrow> string \<Rightarrow> (string \<times> string) option" where
  "scan_not n x s = (let t = take n (takeWhile (\<lambda>c. c \<noteq> x) s) in
     if t = [] then None else Some (t, drop (length t) s))"

definition scan_char :: "char \<Rightarrow> string \<Rightarrow> string option" where
  "scan_char x s = (case s of c # r \<Rightarrow> if c = x then Some r else None | [] \<Rightarrow> None)"

definition scan_word :: "nat \<Rightarrow> string \<Rightarrow> string option" where
  "scan_word n s = (let t = take n (takeWhile (\<lambda>c. \<not> is_space c) (dropWhile is_space s)) in
     if t = [] then None else Some t)"

definition scan_lld :: "string \<Rightarrow> int option" where
  "scan_lld s = (let t = dropWhile is_space s;
       u = (case t of c # r \<Rightarrow> if c = CHR ''-'' \<or> c = CHR ''+'' then r else t | [] \<Rightarrow> [])
     in if takeWhile is_digit u = [] then None else Some (strtoll s))"

section \<open>Directories\<close>

definition ignore_mkdir :: "io \<Rightarrow> string \<Rightarrow> fs \<Rightarrow> fs" where
  "ignore_mkdir w path d = (case sys_mkdir w d path of Inl _ \<Rightarrow> d | Inr d' \<Rightarrow> d')"

text \<open>Every prefix that ends before a slash, from the second character on, then the whole path.\<close>

definition slash_prefixes :: "string \<Rightarrow> string list" where
  "slash_prefixes s = map (\<lambda>i. take i s) (filter (\<lambda>i. s ! i = SLASH) [1..<length s])"

definition ensure_parent_dirs :: "io \<Rightarrow> string \<Rightarrow> fs \<Rightarrow> fs" where
  "ensure_parent_dirs w path d = (case strrchr (fit PATH_MAX path) SLASH of
     None \<Rightarrow> d
   | Some (temp, _) \<Rightarrow> if temp = [] then d
       else ignore_mkdir w temp (fold (ignore_mkdir w) (slash_prefixes temp) d))"

section \<open>Access lists\<close>

definition acl_line :: "acl_entry \<Rightarrow> string" where
  "acl_line a = (if \<not> ae_can_read a \<and> \<not> ae_can_write a then []
     else ae_username a @ (if ae_can_read a \<and> ae_can_write a then '':RW'' else if ae_can_write a then '':W'' else '':R'') @ [LF])"

definition acl_text :: "file_record \<Rightarrow> string" where
  "acl_text r = fr_owner r @ '':RW'' @ [LF] @ concat (map acl_line (fr_acl r))"

definition persist_acl_file :: "nm_env \<Rightarrow> string \<Rightarrow> file_record \<Rightarrow> fs \<Rightarrow> bool \<times> fs" where
  "persist_acl_file env data_dir r d = (case ns_acl_path PATH_MAX data_dir (fr_filename r) of
     None \<Rightarrow> (False, d)
   | Some acl_path \<Rightarrow>
       (let d1 = ensure_parent_dirs (ne_io env) acl_path d in
        case fopen_write env acl_path (acl_text r) d1 of None \<Rightarrow> (False, d1) | Some d2 \<Rightarrow> (True, d2)))"

text \<open>One line of the access list at startup: the owner's own line is passed over.\<close>

definition load_acl_line :: "string \<Rightarrow> string \<Rightarrow> file_record \<Rightarrow> file_record" where
  "load_acl_line owner line r = (case scan_not 127 (CHR '':'') line of
     None \<Rightarrow> r
   | Some (user, rest) \<Rightarrow> (case scan_char (CHR '':'') rest of
       None \<Rightarrow> r
     | Some rest' \<Rightarrow> (case scan_word 7 rest' of
         None \<Rightarrow> r
       | Some perm \<Rightarrow> if user = owner then r
           else file_record_add_acl user (CHR ''R'' \<in> set perm) (CHR ''W'' \<in> set perm) r)))"

definition load_acl :: "string \<Rightarrow> bytes \<Rightarrow> file_record \<Rightarrow> file_record" where
  "load_acl owner text r = fold (load_acl_line owner) (fgets_lines 256 text) r"

section \<open>Access requests\<close>

record access_request =
  ar_username :: string
  ar_can_write :: bool
  ar_requested_at :: time_t

definition load_request_line :: "string \<Rightarrow> access_request option" where
  "load_request_line line = (case scan_not 127 (CHR ''|'') line of
     None \<Rightarrow> None
   | Some (user, r1) \<Rightarrow> (case scan_char (CHR ''|'') r1 of None \<Rightarrow> None
     | Some r2 \<Rightarrow> (case scan_not 15 (CHR ''|'') r2 of None \<Rightarrow> None
       | Some (mode, r3) \<Rightarrow> (case scan_char (CHR ''|'') r3 of None \<Rightarrow> None
         | Some r4 \<Rightarrow> (case scan_lld r4 of None \<Rightarrow> None
           | Some ts \<Rightarrow> Some \<lparr>ar_username = fit 128 user, ar_can_write = (mode = ''write''),
                               ar_requested_at = ts\<rparr>)))))"

definition load_access_requests :: "nm_env \<Rightarrow> string \<Rightarrow> string \<Rightarrow> fs \<Rightarrow> access_request list option" where
  "load_access_requests env data_dir filename d = (case ns_requests_path PATH_MAX data_dir filename of
     None \<Rightarrow> None
   | Some path \<Rightarrow> (case fopen_read env path d of
       Inl e \<Rightarrow> if e = ENOENT then Some [] else None
     | Inr text \<Rightarrow> Some (List.map_filter load_request_line (fgets_lines 256 text))))"

definition request_line :: "access_request \<Rightarrow> string" where
  "request_line a = ar_username a @ ''|'' @ (if ar_can_write a then ''write'' else ''read'') @ ''|''
     @ show_int (ar_requested_at a) @ [LF]"

definition save_access_requests :: "nm_env \<Rightarrow> string \<Rightarrow> string \<Rightarrow> access_request list \<Rightarrow> fs \<Rightarrow> bool \<times> fs" where
  "save_access_requests env data_dir filename requests d = (case ns_requests_path PATH_MAX data_dir filename of
     None \<Rightarrow> (False, d)
   | Some path \<Rightarrow>
       (let d1 = ensure_parent_dirs (ne_io env) path d in
        case fopen_write env path (concat (map request_line requests)) d1 of
          None \<Rightarrow> (False, d1) | Some d2 \<Rightarrow> (True, d2)))"

definition find_request_index :: "access_request list \<Rightarrow> string \<Rightarrow> bool \<Rightarrow> nat option" where
  "find_request_index requests username can_write =
     find (\<lambda>i. ar_username (requests ! i) = username \<and> ar_can_write (requests ! i) = can_write) [0..<length requests]"

definition remove_request_at :: "nat \<Rightarrow> access_request list \<Rightarrow> access_request list" where
  "remove_request_at idx requests = (if length requests \<le> idx then requests
     else take idx requests @ drop (idx + 1) requests)"

definition find_request_by_user :: "access_request list \<Rightarrow> string \<Rightarrow> nat option" where
  "find_request_by_user requests username =
     find (\<lambda>i. ar_username (requests ! i) = username) [0..<length requests]"

definition parse_access_mode :: "string \<Rightarrow> bool option" where
  "parse_access_mode mode_value = (if mode_value = [] then Some False
     else (let lower = map tolower (take 15 mode_value) in
       if lower = ''read'' then Some False else if lower = ''write'' then Some True else None))"

section \<open>Registry\<close>

definition append_registry_entry :: "nm_env \<Rightarrow> string \<Rightarrow> string \<Rightarrow> fs \<Rightarrow> fs" where
  "append_registry_entry env data_dir entry d = (case ns_registry_path PATH_MAX data_dir of
     None \<Rightarrow> d
   | Some path \<Rightarrow> (case fopen_append env path (entry @ [LF]) d of None \<Rightarrow> d | Some d' \<Rightarrow> d'))"

section \<open>Lines are read back\<close>

definition is_line :: "nat \<Rightarrow> string \<Rightarrow> bool" where
  "is_line sz l \<longleftrightarrow> (\<exists>b. l = b @ [LF] \<and> LF \<notin> set b) \<and> length l < sz"

lemma fgets_line: "LF \<notin> set b \<Longrightarrow> length b < n \<Longrightarrow> fgets n (b @ LF # r) = b @ [LF]"
proof (induction b arbitrary: n)
  case Nil
  then show ?case by (cases n) auto
next
  case (Cons c b)
  then show ?case by (cases n) auto
qed

lemma fgets_lines_Nil [simp]: "fgets_lines sz [] = []"
  by (cases "sz - 1") (subst fgets_lines.simps, simp)+

lemma fgets_lines_concat: "list_all (is_line sz) ls \<Longrightarrow> fgets_lines sz (concat ls) = ls"
proof (induction ls)
  case (Cons l ls)
  then obtain b where b: "l = b @ [LF]" "LF \<notin> set b" "length b < sz - 1" by (auto simp: is_line_def)
  then have "fgets (sz - 1) (concat (l # ls)) = l" by (simp add: fgets_line)
  with Cons b(1) show ?case by (subst fgets_lines.simps) (simp add: Let_def)
qed simp

lemma scan_not_field:
  assumes "t \<noteq> []" and "x \<notin> set t" and "length t \<le> n"
  shows "scan_not n x (t @ x # r) = Some (t, x # r)"
proof -
  have "takeWhile (\<lambda>c. c \<noteq> x) (t @ x # r) = t" using assms(2) by (induction t) auto
  then show ?thesis using assms by (simp add: scan_not_def Let_def)
qed

lemma show_nat_head:
  obtains c cs where "show_nat n = c # cs" and "is_digit c" and "\<not> is_space c" and "c \<noteq> CHR ''-''" and "c \<noteq> CHR ''+''"
  using show_nat_Cons [of n] is_digit_not_sign by metis

lemma strtoll_show_nat:
  assumes "int n \<le> LLONG_MAX" and "r = [] \<or> \<not> is_digit (hd r)"
  shows "strtoll (show_nat n @ r) = int n" and "scan_lld (show_nat n @ r) = Some (int n)"
proof -
  obtain c cs where c: "show_nat n = c # cs" "\<not> is_space c" "c \<noteq> CHR ''-''" "c \<noteq> CHR ''+''"
    by (rule show_nat_head)
  note s = show_nat_split [OF assms(2), of n]
  have t: "takeWhile is_digit (c # cs @ r) = c # cs" using s(1) c(1) by simp
  have v: "digits_val 0 (c # cs) = n" using digits_val_show_nat [of n] c(1) by simp
  show ll: "strtoll (show_nat n @ r) = int n"
    using c t v assms(1) by (simp add: strtoll_def Let_def del: takeWhile.simps digits_val.simps)
  then show "scan_lld (show_nat n @ r) = Some (int n)"
    using c t by (simp add: scan_lld_def Let_def del: takeWhile.simps)
qed

text \<open>User names as the files can hold them.\<close>

definition file_user :: "string \<Rightarrow> bool" where
  "file_user u \<longleftrightarrow> u \<noteq> [] \<and> length u < 127 \<and> LF \<notin> set u \<and> CHR '':'' \<notin> set u \<and> CHR ''|'' \<notin> set u"

section \<open>Requests are read back\<close>

definition request_ok :: "access_request \<Rightarrow> bool" where
  "request_ok a \<longleftrightarrow> file_user (ar_username a) \<and> 0 \<le> ar_requested_at a \<and> ar_requested_at a \<le> LLONG_MAX"

lemma load_request_line_id: "request_ok a \<Longrightarrow> load_request_line (request_line a) = Some a"
proof -
  assume a: "request_ok a"
  then obtain n where n: "ar_requested_at a = int n" "int n \<le> LLONG_MAX"
    unfolding request_ok_def by (metis zero_le_imp_eq_int)
  let ?m = "if ar_can_write a then ''write'' else ''read''"
  have l: "request_line a = ar_username a @ CHR ''|'' # ?m @ CHR ''|'' # show_nat n @ [LF]"
    by (simp add: request_line_def show_int_def n(1))
  have u: "scan_not 127 (CHR ''|'') (request_line a) = Some (ar_username a, CHR ''|'' # ?m @ CHR ''|'' # show_nat n @ [LF])"
    unfolding l by (rule scan_not_field) (use a in \<open>auto simp: request_ok_def file_user_def\<close>)
  have m: "scan_not 15 (CHR ''|'') (?m @ CHR ''|'' # show_nat n @ [LF]) = Some (?m, CHR ''|'' # show_nat n @ [LF])"
    by (rule scan_not_field) auto
  have v: "scan_lld (show_nat n @ [LF]) = Some (int n)"
    by (rule strtoll_show_nat [OF n(2)]) (simp add: is_digit_def)
  have "fit 128 (ar_username a) = ar_username a" using a by (simp add: fit_id request_ok_def file_user_def)
  with u m v n(1) show ?thesis
    by (cases a) (simp add: load_request_line_def scan_char_def)
qed

lemma request_line_is_line: "request_ok a \<Longrightarrow> is_line 256 (request_line a)"
proof -
  assume a: "request_ok a"
  then obtain n where n: "ar_requested_at a = int n" "int n \<le> LLONG_MAX"
    unfolding request_ok_def by (metis zero_le_imp_eq_int)
  from n(2) have "n < 10 ^ 19" by (simp add: LLONG_MAX_def)
  then have "length (show_nat n) \<le> 19" by (rule show_nat_length) simp
  moreover have "LF \<notin> set (show_nat n)" using show_nat_digits [of n] by (auto simp: is_digit_def)
  ultimately show ?thesis using a
    unfolding is_line_def request_line_def
    by (intro conjI exI [of _ "ar_username a @ ''|'' @ (if ar_can_write a then ''write'' else ''read'') @ ''|'' @ show_nat n"])
      (auto simp: show_int_def n(1) request_ok_def file_user_def)
qed

lemma map_filter_id: "(\<And>x. x \<in> set xs \<Longrightarrow> f (g x) = Some x) \<Longrightarrow> List.map_filter f (map g xs) = xs"
  by (induction xs) (auto simp: List.map_filter_simps)

lemma requests_text_roundtrip:
  "list_all request_ok rs \<Longrightarrow>
   List.map_filter load_request_line (fgets_lines 256 (concat (map request_line rs))) = rs"
proof -
  assume r: "list_all request_ok rs"
  then have "fgets_lines 256 (concat (map request_line rs)) = map request_line rs"
    by (intro fgets_lines_concat) (auto simp: list_all_iff request_line_is_line)
  with r show ?thesis by (simp add: list_all_iff map_filter_id load_request_line_id)
qed

section \<open>Access lists are read back\<close>

lemma load_acl_line_entry:
  assumes "file_user u" and "length perm \<le> 7" and "perm \<noteq> []" and "\<forall>c\<in>set perm. \<not> is_space c"
  shows "load_acl_line owner (u @ CHR '':'' # perm @ [LF]) r =
    (if u = owner then r else file_record_add_acl u (CHR ''R'' \<in> set perm) (CHR ''W'' \<in> set perm) r)"
proof -
  have s: "scan_not 127 (CHR '':'') (u @ CHR '':'' # perm @ [LF]) = Some (u, CHR '':'' # perm @ [LF])"
    by (rule scan_not_field) (use assms in \<open>auto simp: file_user_def\<close>)
  have "takeWhile (\<lambda>c. \<not> is_space c) (perm @ [LF]) = perm"
    using assms(4) by (induction perm) (auto simp: is_space_def)
  moreover have "dropWhile is_space (perm @ [LF]) = perm @ [LF]" using assms(3,4) by (cases perm) auto
  ultimately show ?thesis using s assms(2,3) by (simp add: load_acl_line_def scan_char_def scan_word_def Let_def)
qed

definition acl_ok :: "file_record \<Rightarrow> bool" where
  "acl_ok r \<longleftrightarrow> file_user (fr_owner r) \<and> list_all (\<lambda>a. file_user (ae_username a)) (fr_acl r)
     \<and> distinct (map ae_username (fr_acl r))"

definition has_right :: "acl_entry \<Rightarrow> bool" where
  "has_right a \<longleftrightarrow> ae_can_read a \<or> ae_can_write a"

lemma acl_text_lines:
  "acl_text r = concat ((fr_owner r @ '':RW'' @ [LF]) # map acl_line (filter has_right (fr_acl r)))"
proof -
  have "concat (map acl_line as) = concat (map acl_line (filter has_right as))" for as
    by (induction as) (auto simp: acl_line_def has_right_def)
  then show ?thesis by (simp add: acl_text_def)
qed

lemma acl_line_load:
  assumes "file_user (ae_username a)" and "has_right a"
  shows "load_acl_line owner (acl_line a) r = (if ae_username a = owner then r
     else file_record_add_acl (ae_username a) (ae_can_read a) (ae_can_write a) r)"
  using assms load_acl_line_entry [OF assms(1), of "''RW''" owner r]
    load_acl_line_entry [OF assms(1), of "''W''" owner r] load_acl_line_entry [OF assms(1), of "''R''" owner r]
  by (auto simp: acl_line_def has_right_def is_space_def)

lemma acl_line_is_line: "file_user (ae_username a) \<Longrightarrow> has_right a \<Longrightarrow> is_line 256 (acl_line a)"
  unfolding is_line_def acl_line_def has_right_def file_user_def
  by (auto intro!: exI [of _ "ae_username a @ (if ae_can_read a \<and> ae_can_write a then '':RW'' else if ae_can_write a then '':W'' else '':R'')"])

text \<open>The loop over the lines adds every entry with a right but the owner's.\<close>

lemma load_acl_fold:
  "list_all (\<lambda>a. file_user (ae_username a) \<and> has_right a) as \<Longrightarrow>
   fold (load_acl_line owner) (map acl_line as) r =
     fold (\<lambda>a. file_record_add_acl (ae_username a) (ae_can_read a) (ae_can_write a))
       (filter (\<lambda>a. ae_username a \<noteq> owner) as) r"
  by (induction as arbitrary: r) (auto simp: acl_line_load)

lemma load_acl_text:
  assumes "acl_ok r"
  shows "load_acl (fr_owner r) (acl_text r) q =
     fold (\<lambda>a. file_record_add_acl (ae_username a) (ae_can_read a) (ae_can_write a))
       (filter (\<lambda>a. ae_username a \<noteq> fr_owner r \<and> has_right a) (fr_acl r)) q"
proof -
  let ?as = "filter has_right (fr_acl r)"
  have ok: "list_all (\<lambda>a. file_user (ae_username a) \<and> has_right a) ?as"
    using assms by (auto simp: acl_ok_def list_all_iff)
  have o: "file_user (fr_owner r)" using assms by (simp add: acl_ok_def)
  have "is_line 256 (fr_owner r @ '':RW'' @ [LF])"
    unfolding is_line_def using o by (auto simp: file_user_def intro!: exI [of _ "fr_owner r @ '':RW''"])
  then have "fgets_lines 256 (acl_text r) = (fr_owner r @ '':RW'' @ [LF]) # map acl_line ?as"
    unfolding acl_text_lines
    by (intro fgets_lines_concat) (use ok in \<open>auto simp: list_all_iff intro: acl_line_is_line\<close>)
  moreover have "load_acl_line (fr_owner r) (fr_owner r @ CHR '':'' # ''RW'' @ [LF]) q = q"
    using load_acl_line_entry [OF o, of "''RW''" "fr_owner r" q] by (simp add: is_space_def)
  ultimately show ?thesis
    using load_acl_fold [OF ok, of "fr_owner r"] by (simp add: load_acl_def conj_commute)
qed

lemma add_acl_fold:
  assumes "distinct (map ae_username as)" and "list_all (\<lambda>a. length (ae_username a) < MAX_USERNAME_LEN) as"
    and "\<forall>a\<in>set as. ae_username a \<notin> ae_username ` set (fr_acl q)"
  shows "fr_acl (fold (\<lambda>a. file_record_add_acl (ae_username a) (ae_can_read a) (ae_can_write a)) as q) = fr_acl q @ as
    \<and> fr_owner (fold (\<lambda>a. file_record_add_acl (ae_username a) (ae_can_read a) (ae_can_write a)) as q) = fr_owner q
    \<and> fr_filename (fold (\<lambda>a. file_record_add_acl (ae_username a) (ae_can_read a) (ae_can_write a)) as q) = fr_filename q"
  using assms
proof (induction as arbitrary: q)
  case (Cons a as)
  let ?q = "file_record_add_acl (ae_username a) (ae_can_read a) (ae_can_write a) q"
  have "\<not> list_ex (\<lambda>b. ae_username b = ae_username a) (fr_acl q)"
    using bspec [OF Cons.prems(3), of a] unfolding list_ex_iff by (metis image_eqI list.set_intros(1))
  then have q: "fr_acl ?q = fr_acl q @ [a]" "fr_owner ?q = fr_owner q" "fr_filename ?q = fr_filename q"
    using Cons.prems(2) by (simp_all add: file_record_add_acl_def fit_id)
  have "\<forall>b\<in>set as. ae_username b \<notin> ae_username ` set (fr_acl ?q)"
    using Cons.prems(1,3) by (auto simp: q) (metis imageI)
  with Cons.IH [of ?q] Cons.prems q show ?case by simp
qed simp

text \<open>
  A record made anew from the registry and the access list grants what the saved one granted.
\<close>

lemma reload_access:
  assumes "acl_ok r" and "fr_acl q = []" and "fr_owner q = fr_owner r"
  shows "file_record_check_access (load_acl (fr_owner r) (acl_text r) q) u need_write
    = file_record_check_access r u need_write"
proof -
  let ?P = "\<lambda>a. ae_username a \<noteq> fr_owner r \<and> has_right a"
  let ?q = "load_acl (fr_owner r) (acl_text r) q"
  have "distinct (map ae_username (filter ?P (fr_acl r)))"
    using assms(1) by (simp add: acl_ok_def distinct_map_filter)
  moreover have "list_all (\<lambda>a. length (ae_username a) < MAX_USERNAME_LEN) (filter ?P (fr_acl r))"
    using assms(1) by (auto simp: acl_ok_def list_all_iff file_user_def MAX_USERNAME_LEN_def)
  ultimately have q: "fr_acl ?q = filter ?P (fr_acl r)" "fr_owner ?q = fr_owner r"
    using add_acl_fold [of "filter ?P (fr_acl r)" q] assms(2,3) load_acl_text [OF assms(1), of q] by auto
  show ?thesis
  proof (cases "u = fr_owner r")
    case False
    have "find (\<lambda>a. ae_username a = u) (filter ?P as) = (case find (\<lambda>a. ae_username a = u) as of
        None \<Rightarrow> None | Some a \<Rightarrow> if has_right a then Some a else None)"
      if "distinct (map ae_username as)" for as
      using that
    proof (induction as)
      case (Cons a as)
      have "find (\<lambda>a. ae_username a = u) (filter ?P as) = None" if "ae_username a = u"
        using Cons.prems that by (auto simp: find_None_iff) (metis imageI)
      with Cons False show ?case by auto
    qed simp
    from this [of "fr_acl r"] assms(1) False show ?thesis
      by (auto simp: file_record_check_access_def file_record_find_acl_def q acl_ok_def has_right_def split: option.splits)
  qed (simp add: file_record_check_access_def q)
qed

end
