(* ===== verification/Name_Server.thy ===== *)
theory Name_Server
  imports Nm_Store Lru_Cache
begin

text \<open>
  The name server of \<open>name_server/src/main.c\<close>: its state, the choice of storage servers, the
  exchange with a storage server, registration, heartbeat and lookup. The server is single-threaded: a
  handler runs to its end on one message. It returns the new state and the messages it sends, to
  the client that asked and to storage servers, in order; \<open>None\<close> stands for a run that leaves
  defined behaviour (a search that never ends, a freed record, a write behind a buffer).
\<close>

section \<open>State\<close>

datatype connection_role_t = ROLE_PENDING | ROLE_STORAGE_SERVER | ROLE_CLIENT

record connection =
  cn_fd :: int
  cn_role :: connection_role_t
  cn_identifier :: string
  cn_session_token :: string

record storage_server_info =
  si_ss_id :: string
  si_ip :: string
  si_client_port :: u16
  si_active_readers :: u32
  si_active_writers :: u32
  si_last_heartbeat :: time_t

record client_info =
  ci_username :: string
  ci_ip :: string
  ci_client_port :: u16
  ci_registered_at :: time_t

record nm_state =
  nm_connections :: "connection list"
  nm_servers :: "storage_server_info list"
  nm_clients :: "client_info list"
  nm_session_seq :: u64
  nm_data_dir :: string
  nm_file_index :: file_index
  nm_cache :: lru_cache
  nm_next_primary_index :: u32
  nm_disk :: fs

datatype nm_dest = To_Client | To_Server string u16

type_synonym nm_out = "nm_dest \<times> message_header \<times> bytes"
type_synonym nm_result = "(nm_state \<times> nm_out list) option"

definition nm_send :: "protocol_opcode_t \<Rightarrow> u32 \<Rightarrow> string \<Rightarrow> nm_out" where
  "nm_send opcode request_id text = (To_Client, message_for (opcode_code opcode) request_id (Some text), text)"

definition send_error :: "u32 \<Rightarrow> protocol_error_t \<Rightarrow> string \<Rightarrow> nm_out" where
  \<open>send_error request_id code message = nm_send OP_ERROR request_id
     (fit 256 (''{'' @ json_fields [(''code'', protocol_error_name code), (''message'', message)] ''}''))\<close>

section \<open>Tables\<close>

definition add_connection :: "int \<Rightarrow> nm_state \<Rightarrow> nm_state" where
  "add_connection fd st = st\<lparr>nm_connections :=
     \<lparr>cn_fd = fd, cn_role = ROLE_PENDING, cn_identifier = [], cn_session_token = []\<rparr> # nm_connections st\<rparr>"

definition remove_connection :: "int \<Rightarrow> nm_state \<Rightarrow> nm_state" where
  "remove_connection fd st = st\<lparr>nm_connections := remove_first (\<lambda>c. cn_fd c = fd) (nm_connections st)\<rparr>"

definition find_storage_server :: "nm_state \<Rightarrow> string \<Rightarrow> storage_server_info option" where
  "find_storage_server st ss_id = find (\<lambda>i. si_ss_id i = ss_id) (nm_servers st)"

definition find_client :: "nm_state \<Rightarrow> string \<Rightarrow> client_info option" where
  "find_client st username = find (\<lambda>i. ci_username i = username) (nm_clients st)"

definition server_load :: "storage_server_info \<Rightarrow> u32" where
  "server_load i = si_active_readers i + si_active_writers i * 2"

definition server_alive :: "time_t \<Rightarrow> storage_server_info \<Rightarrow> bool" where
  "server_alive now i = (now - si_last_heartbeat i \<le> 15)"

fun select_loop :: "nm_state \<Rightarrow> string list \<Rightarrow> storage_server_info option \<Rightarrow> u32 \<Rightarrow> storage_server_info option" where
  "select_loop st [] best min_load = best"
| "select_loop st (i # ids) best min_load = (case find_storage_server st i of
     None \<Rightarrow> select_loop st ids best min_load
   | Some candidate \<Rightarrow>
       if best = None \<or> server_load candidate < min_load
       then select_loop st ids (Some candidate) (server_load candidate)
       else select_loop st ids best min_load)"

definition select_storage_server_for_record :: "nm_state \<Rightarrow> file_record \<Rightarrow> storage_server_info option" where
  "select_storage_server_for_record st r = select_loop st (fr_ss_ids r) None 0xFFFFFFFF"

text \<open>A record pointer of the index, followed. \<open>None\<close> is no file; \<open>Some None\<close> a freed record.\<close>

definition lookup_record :: "nm_state \<Rightarrow> string \<Rightarrow> (nat \<times> file_record option) option" where
  "lookup_record st filename = map_option (\<lambda>p. (p, ix_heap (nm_file_index st) p))
     (file_index_lookup (nm_file_index st) filename)"

section \<open>Exchange with a storage server\<close>

text \<open>
  One request and its response on a fresh connection: the results of the two sends, of the read of
  the header and of the payload, the decoded header and the payload buffer. The header is read
  into the buffer that held the request's header, so a short read leaves its end in place; the
  payload buffer is zeroed. The callers differ only in which results they look at.
\<close>

record exchange =
  ex_send_header :: int
  ex_send_payload :: int
  ex_recv_header :: int
  ex_header :: message_header
  ex_recv_payload :: int
  ex_payload :: bytes

definition exchange_with :: "nm_env \<Rightarrow> string \<Rightarrow> u16 \<Rightarrow> protocol_opcode_t \<Rightarrow> u32 \<Rightarrow> string \<Rightarrow> exchange option" where
  "exchange_with env host port opcode request_id payload = (case ne_net env host port opcode payload of
     None \<Rightarrow> None
   | Some (sevs, revs) \<Rightarrow>
       (let h = message_for (opcode_code opcode) request_id (Some payload);
            hb = the (protocol_encode_header (ne_big env) (Some h));
            (s1, _, sevs1) = send_all 3 hb sevs;
            (s2, _, _) = send_all 3 (map byte_of_char (take (unat (mh_payload_len h)) payload)) sevs1;
            (r1, got, revs1) = recv_all 3 PROTOCOL_HEADER_SIZE revs;
            rh = the (protocol_decode_header (ne_big env) (Some (got @ drop (length got) hb)));
            len = unat (mh_payload_len rh);
            (r2, body, _) = recv_all 3 len revs1
        in Some \<lparr>ex_send_header = s1, ex_send_payload = s2, ex_recv_header = r1, ex_header = rh,
                 ex_recv_payload = r2,
                 ex_payload = map char_of_byte (body @ replicate (len - length body) 0)\<rparr>))"

definition request_to :: "string \<Rightarrow> u16 \<Rightarrow> protocol_opcode_t \<Rightarrow> u32 \<Rightarrow> string \<Rightarrow> nm_out" where
  "request_to host port opcode request_id payload =
     (To_Server host port, message_for (opcode_code opcode) request_id (Some payload), payload)"

definition server_host :: "storage_server_info \<Rightarrow> string" where
  "server_host ss = (if si_ip ss \<noteq> [] then si_ip ss else ''localhost'')"

text \<open>The payload pointer is null when the response announces no payload.\<close>

definition forward_storage_request :: "nm_env \<Rightarrow> storage_server_info \<Rightarrow> protocol_opcode_t \<Rightarrow> u32 \<Rightarrow> string
    \<Rightarrow> (message_header \<times> bytes option) option" where
  "forward_storage_request env ss opcode request_id payload =
     (case exchange_with env (server_host ss) (si_client_port ss) opcode request_id payload of
        None \<Rightarrow> None
      | Some x \<Rightarrow>
          if ex_send_header x < 0 \<or> ex_send_payload x < 0 \<or> ex_recv_header x \<le> 0 then None
          else if 0 < mh_payload_len (ex_header x) then
            if ex_recv_payload x \<le> 0 then None else Some (ex_header x, Some (ex_payload x))
          else Some (ex_header x, None))"

section \<open>Registration and heartbeat\<close>

definition send_register_ack :: "u32 \<Rightarrow> string \<Rightarrow> nm_out" where
  \<open>send_register_ack request_id token = nm_send OP_REGISTER_ACK request_id
     (fit 256 (''{'' @ json_fields [(''status'', ''OK''), (''session_token'', token)] '',"heartbeat_interval_ms":5000}''))\<close>

text \<open>The names between the brackets of a manifest, split at quotes and commas, at most 255 characters each.\<close>

definition manifest_sep :: "char \<Rightarrow> bool" where
  "manifest_sep c = (c = SP \<or> c = TAB \<or> c = CHR '','' \<or> c = DQ)"

function manifest_names :: "string \<Rightarrow> string list" where
  "manifest_names s = (let r = dropWhile manifest_sep s in
     if r = [] then []
     else (let n = take 255 (takeWhile (\<lambda>c. c \<noteq> DQ \<and> c \<noteq> CHR '','') r) in
       n # manifest_names (drop (length n) r)))"
  by pat_completeness auto
termination
proof (relation "measure length")
  fix s r n :: string
  assume r: "r = dropWhile manifest_sep s" "r \<noteq> []" and n: "n = take 255 (takeWhile (\<lambda>c. c \<noteq> DQ \<and> c \<noteq> CHR '','') r)"
  then obtain c cs where c: "r = c # cs" "\<not> manifest_sep c" by (metis dropWhile_hd neq_Nil_conv)
  then have "0 < length n" using n by (auto simp: manifest_sep_def)
  moreover have "length r \<le> length s" unfolding r(1) by (rule length_dropWhile_le)
  ultimately show "(drop (length n) r, s) \<in> measure length" using r(2) by (cases r; cases n) auto
qed simp

declare manifest_names.simps [simp del]

definition register_manifest :: "string \<Rightarrow> string list" where
  \<open>register_manifest payload = (case strstr payload ''"file_manifest"'' of
     None \<Rightarrow> []
   | Some p \<Rightarrow> (case strchr p (CHR ''['') of
       None \<Rightarrow> []
     | Some q \<Rightarrow> (case strchr (tl q) (CHR '']'') of
         None \<Rightarrow> []
       | Some _ \<Rightarrow> (let body = takeWhile (\<lambda>c. c \<noteq> CHR '']'') (tl q) in
           if length body < 4096 then manifest_names body else []))))\<close>

text \<open>After the acknowledgement the server is told to fetch the files it should have from a live holder.\<close>

definition recovery_source :: "time_t \<Rightarrow> nm_state \<Rightarrow> string \<Rightarrow> file_record \<Rightarrow> storage_server_info option" where
  "recovery_source now st ss_id r = (case List.map_filter (\<lambda>i. if i = ss_id then None
       else case find_storage_server st i of None \<Rightarrow> None | Some c \<Rightarrow> if server_alive now c then Some c else None) (fr_ss_ids r) of
     [] \<Rightarrow> None | c # _ \<Rightarrow> Some c)"

definition recovery_message :: "time_t \<Rightarrow> nm_state \<Rightarrow> string \<Rightarrow> file_record \<Rightarrow> nm_out option" where
  \<open>recovery_message now st ss_id r = (if ss_id \<notin> set (fr_ss_ids r) then None
     else case recovery_source now st ss_id r of
       None \<Rightarrow> None
     | Some source \<Rightarrow> Some (nm_send OP_REPLICATE_FILE 0 (fit 512 (''{'' @
         json_fields [(''filename'', fr_filename r), (''source_ip'', si_ip source)]
           ('',"source_port":'' @ show_nat (unat (si_client_port source)) @ ''}'')))))\<close>

definition all_records :: "file_index \<Rightarrow> file_record list" where
  "all_records ix = List.map_filter (ix_heap ix) (file_index_get_all ix)"

definition set_connection :: "int \<Rightarrow> connection_role_t \<Rightarrow> string \<Rightarrow> string \<Rightarrow> nm_state \<Rightarrow> nm_state" where
  "set_connection fd role identifier token st = st\<lparr>nm_connections := update_first (\<lambda>c. cn_fd c = fd)
     (\<lambda>c. c\<lparr>cn_role := role, cn_identifier := fit 128 identifier, cn_session_token := token\<rparr>) (nm_connections st)\<rparr>"

definition handle_register_ss :: "nm_env \<Rightarrow> nm_state \<Rightarrow> int \<Rightarrow> u32 \<Rightarrow> string \<Rightarrow> nm_result" where
  \<open>handle_register_ss env st fd request_id payload = Some (case json_get_string payload ''ss_id'' 128 of
     None \<Rightarrow> (st, [send_error request_id ERR_PROTOCOL ''Missing ss_id''])
   | Some ss_id \<Rightarrow> (case json_get_uint payload ''client_port'' of
       None \<Rightarrow> (st, [send_error request_id ERR_PROTOCOL ''Missing client_port''])
     | Some port \<Rightarrow>
         (let ip = json_field payload ''nm_ip'' 64 ''0.0.0.0'';
              st1 = (case find_storage_server st ss_id of
                  Some _ \<Rightarrow> st
                | None \<Rightarrow> st\<lparr>nm_servers := \<lparr>si_ss_id = fit 128 ss_id, si_ip = [], si_client_port = 0,
                      si_active_readers = 0, si_active_writers = 0, si_last_heartbeat = 0\<rparr> # nm_servers st,
                    nm_disk := append_registry_entry env (nm_data_dir st) (fit 256 (''{'' @
                      json_fields [(''type'', ''SS_REGISTER''), (''ss_id'', ss_id)]
                        ('',"port":'' @ show_nat port @ ''}''))) (nm_disk st)\<rparr>);
              st2 = st1\<lparr>nm_servers := update_first (\<lambda>i. si_ss_id i = ss_id) (\<lambda>i. i\<lparr>si_ip := fit 64 ip,
                    si_client_port := word_of_nat port, si_last_heartbeat := ne_now env\<rparr>) (nm_servers st1),
                  nm_session_seq := nm_session_seq st1 + 1\<rparr>;
              token = fit 64 (''ss-'' @ show_nat_pad6 (unat (nm_session_seq st2)));
              st3 = set_connection fd ROLE_STORAGE_SERVER ss_id token st2;
              st4 = st3\<lparr>nm_file_index := fold (\<lambda>n. file_index_add (ne_now env) n ''system'' ss_id)
                    (register_manifest payload) (nm_file_index st3)\<rparr>
          in (st4, send_register_ack request_id token #
                List.map_filter (recovery_message (ne_now env) st4 ss_id) (all_records (nm_file_index st4))))))\<close>

definition handle_register_client :: "nm_env \<Rightarrow> nm_state \<Rightarrow> int \<Rightarrow> u32 \<Rightarrow> string \<Rightarrow> nm_result" where
  \<open>handle_register_client env st fd request_id payload = Some (case json_get_string payload ''username'' 128 of
     None \<Rightarrow> (st, [send_error request_id ERR_PROTOCOL ''Missing username''])
   | Some username \<Rightarrow>
       (let ip = json_field payload ''client_ip'' 64 ''0.0.0.0'';
            port = (case json_get_uint payload ''client_port'' of None \<Rightarrow> 0 | Some p \<Rightarrow> p);
            st1 = (case find_client st username of
                Some _ \<Rightarrow> st
              | None \<Rightarrow> st\<lparr>nm_clients := \<lparr>ci_username = fit 128 username, ci_ip = [], ci_client_port = 0,
                    ci_registered_at = 0\<rparr> # nm_clients st,
                  nm_disk := append_registry_entry env (nm_data_dir st) (fit 256 (''{'' @
                    json_fields [(''type'', ''CLIENT_REGISTER''), (''username'', username)] ''}'')) (nm_disk st)\<rparr>);
            st2 = st1\<lparr>nm_clients := update_first (\<lambda>i. ci_username i = username) (\<lambda>i. i\<lparr>ci_ip := fit 64 ip,
                  ci_client_port := word_of_nat port, ci_registered_at := ne_now env\<rparr>) (nm_clients st1),
                nm_session_seq := nm_session_seq st1 + 1\<rparr>;
            token = fit 64 (''client-'' @ show_nat_pad6 (unat (nm_session_seq st2)))
        in (set_connection fd ROLE_CLIENT username token st2, [send_register_ack request_id token])))\<close>

definition handle_heartbeat :: "nm_env \<Rightarrow> nm_state \<Rightarrow> string \<Rightarrow> nm_result" where
  "handle_heartbeat env st payload = Some (case json_get_string payload ''ss_id'' 128 of
     None \<Rightarrow> (st, [])
   | Some ss_id \<Rightarrow> (case find_storage_server st ss_id of
       None \<Rightarrow> (st, [])
     | Some _ \<Rightarrow>
         (st\<lparr>nm_servers := update_first (\<lambda>i. si_ss_id i = ss_id) (\<lambda>i. i\<lparr>
            si_active_readers := (case json_get_uint payload ''readers'' of None \<Rightarrow> si_active_readers i | Some n \<Rightarrow> word_of_nat n),
            si_active_writers := (case json_get_uint payload ''writers'' of None \<Rightarrow> si_active_writers i | Some n \<Rightarrow> word_of_nat n),
            si_last_heartbeat := ne_now env\<rparr>) (nm_servers st)\<rparr>, [])))"

section \<open>Lookup\<close>

definition wants_write :: "string \<Rightarrow> bool" where
  \<open>wants_write payload = (case strstr payload ''"operation"'' of
     None \<Rightarrow> False | Some p \<Rightarrow> strstr p ''write'' \<noteq> None \<or> strstr p ''WRITE'' \<noteq> None)\<close>

text \<open>The live holder with the least load: its place in the record's list.\<close>

fun best_loop :: "time_t \<Rightarrow> nm_state \<Rightarrow> string list \<Rightarrow> nat \<Rightarrow> u32 \<Rightarrow> nat option \<Rightarrow> nat option" where
  "best_loop now st [] i min_load best = best"
| "best_loop now st (s # ids) i min_load best = (case find_storage_server st s of
     None \<Rightarrow> best_loop now st ids (i + 1) min_load best
   | Some info \<Rightarrow>
       if \<not> server_alive now info then best_loop now st ids (i + 1) min_load best
       else if server_load info < min_load then best_loop now st ids (i + 1) (server_load info) (Some i)
       else best_loop now st ids (i + 1) min_load best)"

definition replica_entry :: "storage_server_info \<Rightarrow> string" where
  \<open>replica_entry info = fit 128 (''{'' @ json_fields [(''ip'', si_ip info)]
     ('',"port":'' @ show_nat (unat (si_client_port info)) @ ''}''))\<close>

definition replicas_json :: "time_t \<Rightarrow> nm_state \<Rightarrow> string list \<Rightarrow> nat \<Rightarrow> string" where
  "replicas_json now st ids best =
     (let infos = List.map_filter (\<lambda>i. if i = best then None else
            (case find_storage_server st (ids ! i) of None \<Rightarrow> None
             | Some info \<Rightarrow> if server_alive now info then Some info else None)) [0..<length ids]
      in ''['' @ (case map replica_entry infos of [] \<Rightarrow> [] | e # es \<Rightarrow> e @ concat (map (\<lambda>x. CHR '','' # x) es)) @ '']'')"

definition handle_lookup_file :: "nm_env \<Rightarrow> nm_state \<Rightarrow> u32 \<Rightarrow> string \<Rightarrow> nm_result" where
  \<open>handle_lookup_file env st request_id payload = (case json_get_string payload ''filename'' MAX_FILENAME_LEN of
     None \<Rightarrow> Some (st, [send_error request_id ERR_PROTOCOL ''Missing filename''])
   | Some filename \<Rightarrow>
       (let username = json_field payload ''username'' MAX_USERNAME_LEN ''anonymous''; now = ne_now env in
        case lru_cache_get now (nm_file_index st) filename (nm_cache st) of
          None \<Rightarrow> None
        | Some (c, found) \<Rightarrow>
            (let st1 = st\<lparr>nm_cache := c\<rparr> in
             case found of
               None \<Rightarrow> Some (st1, [send_error request_id ERR_FILE_NOT_FOUND ''File not found''])
             | Some p \<Rightarrow> (case ix_heap (nm_file_index st) p of
                 None \<Rightarrow> None
               | Some r \<Rightarrow> Some (st1,
                   [if \<not> file_record_check_access r username (wants_write payload) then
                      send_error request_id ERR_NO_ACCESS ''Access denied''
                    else if fr_ss_ids r = [] then
                      send_error request_id ERR_STORAGE_DOWN ''No storage servers available''
                    else (case best_loop now st (fr_ss_ids r) 0 0xFFFFFFFF None of
                      None \<Rightarrow> send_error request_id ERR_STORAGE_DOWN ''All storage servers down''
                    | Some best \<Rightarrow> (case find_storage_server st (fr_ss_ids r ! best) of
                        None \<Rightarrow> send_error request_id ERR_STORAGE_DOWN ''Storage server unavailable''
                      | Some chosen \<Rightarrow> nm_send OP_LOOKUP_RESP request_id (fit 2048 (''{'' @
                          json_fields [(''filename'', filename), (''ss_ip'', si_ip chosen)]
                            ('',"ss_port":'' @ show_nat (unat (si_client_port chosen)) @ '','' @
                             json_fields [(''owner'', fr_owner r)]
                               ('',"replicas":'' @ replicas_json now st (fr_ss_ids r) best @ ''}''))))))])))))\<close>

end
