(* ===== verification/Nm_Commands.thy ===== *)
theory Nm_Commands
  imports Name_Server
begin

text \<open>
  The commands a client forwards to the name server: \<open>handle_command_forward\<close> of
  \<open>name_server/src/main.c\<close>, one definition per branch, and their dispatch. Every definition takes the
  request id, the payload, the file name and the user name that the dispatcher read from it.
\<close>

section \<open>Files\<close>

definition active_servers :: "time_t \<Rightarrow> nm_state \<Rightarrow> storage_server_info list" where
  "active_servers now st = take 16 (filter (server_alive now) (nm_servers st))"

text \<open>Primary and replica in turn; the counter wraps at 32 bits.\<close>

definition pick_servers :: "storage_server_info list \<Rightarrow> u32 \<Rightarrow> storage_server_info \<times> storage_server_info option \<times> u32" where
  "pick_servers active idx =
     (let n = length active; primary = active ! (unat idx mod n); idx1 = idx + 1 in
      if 1 < n then (primary, Some (active ! (unat idx1 mod n)), idx1 + 1) else (primary, None, idx1))"

definition file_entry :: "time_t \<Rightarrow> string \<Rightarrow> string \<Rightarrow> string \<Rightarrow> string \<Rightarrow> string" where
  \<open>file_entry now filename username primary_id replica_id = fit 1024 (''{'' @
     json_fields [(''type'', ''FILE_CREATE''), (''filename'', filename), (''owner'', username),
        (''ss_id'', primary_id), (''replica_ss_id'', replica_id)]
       ('',"created_at":'' @ show_int now @ '',"modified_at":'' @ show_int now @
        '',"word_count":0,"char_count":0,"sentence_count":0}''))\<close>

definition write_initial_acl :: "nm_env \<Rightarrow> string \<Rightarrow> string \<Rightarrow> string \<Rightarrow> fs \<Rightarrow> fs" where
  "write_initial_acl env data_dir filename username d = (case ns_acl_path PATH_MAX data_dir filename of
     None \<Rightarrow> d
   | Some path \<Rightarrow> (case fopen_write env path (username @ '':RW'' @ [LF]) d of None \<Rightarrow> d | Some d' \<Rightarrow> d'))"

definition cmd_create :: "nm_env \<Rightarrow> nm_state \<Rightarrow> u32 \<Rightarrow> string \<Rightarrow> string \<Rightarrow> nm_result" where
  \<open>cmd_create env st request_id filename username =
     (if file_index_lookup (nm_file_index st) filename \<noteq> None then
        Some (st, [send_error request_id ERR_DUPLICATE ''File already exists''])
      else if active_servers (ne_now env) st = [] then
        Some (st, [send_error request_id ERR_STORAGE_DOWN ''No active storage servers available''])
      else case pick_servers (active_servers (ne_now env) st) (nm_next_primary_index st) of
        (primary, replica, idx) \<Rightarrow>
          (let st1 = st\<lparr>nm_next_primary_index := idx\<rparr>;
               payload = fit 512 (''{'' @ json_fields [(''filename'', filename), (''owner'', username)] ''}'')
           in case exchange_with env ''localhost'' (si_client_port primary) OP_COMMAND_FORWARD request_id payload of
             None \<Rightarrow> Some (st1, [send_error request_id ERR_STORAGE_DOWN ''Failed to connect to storage server''])
           | Some x \<Rightarrow>
               (let req = request_to ''localhost'' (si_client_port primary) OP_COMMAND_FORWARD request_id payload in
                if mh_opcode (ex_header x) \<noteq> opcode_code OP_COMMAND_STATUS then
                  Some (st1, [req, if 0 < mh_payload_len (ex_header x) then (To_Client, ex_header x, ex_payload x)
                    else send_error request_id ERR_EXECUTION_FAIL ''Storage server failed to create file''])
                else
                  (let reqs = (case replica of None \<Rightarrow> [] | Some rs \<Rightarrow>
                         if ne_net env ''localhost'' (si_client_port rs) OP_COMMAND_FORWARD payload = None then []
                         else [request_to ''localhost'' (si_client_port rs) OP_COMMAND_FORWARD request_id payload]);
                       ix1 = file_index_add (ne_now env) filename username (si_ss_id primary) (nm_file_index st1);
                       ix2 = (case replica of None \<Rightarrow> ix1 | Some rs \<Rightarrow>
                         (case file_index_add_ss_replica filename (si_ss_id rs) ix1 of None \<Rightarrow> ix1 | Some ix' \<Rightarrow> ix'))
                   in case lru_cache_invalidate filename (nm_cache st1) of
                     None \<Rightarrow> None
                   | Some c \<Rightarrow>
                       (let d1 = write_initial_acl env (nm_data_dir st1) filename username (nm_disk st1);
                            d2 = append_registry_entry env (nm_data_dir st1) (file_entry (ne_now env) filename username
                              (si_ss_id primary) (case replica of None \<Rightarrow> [] | Some rs \<Rightarrow> si_ss_id rs)) d1
                        in Some (st1\<lparr>nm_file_index := ix2, nm_cache := c, nm_disk := d2\<rparr>,
                             req # reqs @ [nm_send OP_COMMAND_STATUS request_id (fit 512 (''{'' @
                               json_fields [(''status'', ''OK''), (''message'', ''File created''), (''ss_id'', si_ss_id primary),
                                 (''replica'', case replica of None \<Rightarrow> ''none'' | Some rs \<Rightarrow> si_ss_id rs)] ''}''))]))))))\<close>

definition unlink_path :: "string option \<Rightarrow> fs \<Rightarrow> fs" where
  "unlink_path path d = (case path of None \<Rightarrow> d | Some p \<Rightarrow> sys_unlink d p)"

definition delete_requests :: "nm_env \<Rightarrow> nm_state \<Rightarrow> string \<Rightarrow> string list \<Rightarrow> nm_out list" where
  \<open>delete_requests env st filename ids = List.map_filter (\<lambda>i. case find_storage_server st i of
     None \<Rightarrow> None
   | Some ss \<Rightarrow>
       (let payload = fit 512 (''{'' @ json_fields [(''filename'', filename)] ''}'') in
        if ne_net env ''localhost'' (si_client_port ss) OP_DELETE_REQUEST payload = None then None
        else Some (request_to ''localhost'' (si_client_port ss) OP_DELETE_REQUEST 0 payload))) ids\<close>

definition status_ok :: "u32 \<Rightarrow> string \<Rightarrow> nm_out" where
  \<open>status_ok request_id message = nm_send OP_COMMAND_STATUS request_id
     (fit 256 (''{'' @ json_fields [(''status'', ''OK''), (''message'', message)] ''}''))\<close>

definition cmd_delete :: "nm_env \<Rightarrow> nm_state \<Rightarrow> u32 \<Rightarrow> string \<Rightarrow> string \<Rightarrow> nm_result" where
  "cmd_delete env st request_id filename username = (case lookup_record st filename of
     None \<Rightarrow> Some (st, [send_error request_id ERR_FILE_NOT_FOUND ''File not found''])
   | Some (p, None) \<Rightarrow> None
   | Some (p, Some r) \<Rightarrow>
       if fr_owner r \<noteq> username then Some (st, [send_error request_id ERR_NOT_OWNER ''Only owner can delete''])
       else case lru_cache_invalidate filename (nm_cache st) of
         None \<Rightarrow> None
       | Some c \<Rightarrow> Some (st\<lparr>nm_file_index := index_drop filename (nm_file_index st), nm_cache := c,
             nm_disk := unlink_path (ns_requests_path PATH_MAX (nm_data_dir st) filename)
               (unlink_path (ns_acl_path PATH_MAX (nm_data_dir st) filename) (nm_disk st))\<rparr>,
           delete_requests env st filename (fr_ss_ids r) @ [status_ok request_id ''File deleted'']))"

section \<open>Access rights\<close>

text \<open>A changed access list: the record, the cache entry and the file on disk.\<close>

definition change_acl :: "nm_env \<Rightarrow> nm_state \<Rightarrow> string \<Rightarrow> nat \<Rightarrow> file_record \<Rightarrow> nm_state option" where
  "change_acl env st filename p r = (case lru_cache_invalidate filename (nm_cache st) of
     None \<Rightarrow> None
   | Some c \<Rightarrow> Some (st\<lparr>nm_file_index := update_record p (\<lambda>_. r) (nm_file_index st), nm_cache := c,
       nm_disk := snd (persist_acl_file env (nm_data_dir st) r (nm_disk st))\<rparr>))"

definition asks_write :: "string \<Rightarrow> bool" where
  \<open>asks_write payload = (case strstr payload ''"mode"'' of None \<Rightarrow> False | Some p \<Rightarrow> strstr p ''write'' \<noteq> None)\<close>

definition cmd_addaccess :: "nm_env \<Rightarrow> nm_state \<Rightarrow> u32 \<Rightarrow> string \<Rightarrow> string \<Rightarrow> string \<Rightarrow> nm_result" where
  "cmd_addaccess env st request_id payload filename username = (case lookup_record st filename of
     None \<Rightarrow> Some (st, [send_error request_id ERR_FILE_NOT_FOUND ''File not found''])
   | Some (p, None) \<Rightarrow> None
   | Some (p, Some r) \<Rightarrow>
       if fr_owner r \<noteq> username then Some (st, [send_error request_id ERR_NOT_OWNER ''Only owner can modify access''])
       else case json_get_string payload ''target_user'' MAX_USERNAME_LEN of
         None \<Rightarrow> Some (st, [send_error request_id ERR_PROTOCOL ''Missing target_user''])
       | Some target_user \<Rightarrow>
           if find_client st target_user = None then
             Some (st, [send_error request_id ERR_UNREGISTERED_USER ''User not registered''])
           else map_option (\<lambda>st'. (st', [status_ok request_id ''Access granted'']))
             (change_acl env st filename p (file_record_add_acl target_user True (asks_write payload) r)))"

definition cmd_remaccess :: "nm_env \<Rightarrow> nm_state \<Rightarrow> u32 \<Rightarrow> string \<Rightarrow> string \<Rightarrow> string \<Rightarrow> nm_result" where
  "cmd_remaccess env st request_id payload filename username = (case lookup_record st filename of
     None \<Rightarrow> Some (st, [send_error request_id ERR_FILE_NOT_FOUND ''File not found''])
   | Some (p, None) \<Rightarrow> None
   | Some (p, Some r) \<Rightarrow>
       if fr_owner r \<noteq> username then Some (st, [send_error request_id ERR_NOT_OWNER ''Only owner can modify access''])
       else case json_get_string payload ''target_user'' MAX_USERNAME_LEN of
         None \<Rightarrow> Some (st, [send_error request_id ERR_PROTOCOL ''Missing target_user''])
       | Some target_user \<Rightarrow> map_option (\<lambda>st'. (st', [status_ok request_id ''Access removed'']))
           (change_acl env st filename p (case file_record_remove_acl target_user r of None \<Rightarrow> r | Some r' \<Rightarrow> r')))"

definition mode_name :: "bool \<Rightarrow> string" where
  "mode_name can_write = (if can_write then ''write'' else ''read'')"

definition mode_error :: string where
  "mode_error = ''Mode must be '' @ CHR 0x27 # ''read'' @ CHR 0x27 # '' or '' @ CHR 0x27 # ''write'' @ [CHR 0x27]"

definition put_request :: "time_t \<Rightarrow> string \<Rightarrow> bool \<Rightarrow> access_request list \<Rightarrow> access_request list" where
  "put_request now username can_write requests =
     (let entry = \<lparr>ar_username = fit 128 username, ar_can_write = can_write, ar_requested_at = now\<rparr> in
      case find_request_by_user requests username of
        None \<Rightarrow> requests @ [entry] | Some idx \<Rightarrow> requests[idx := entry])"

definition cmd_requestaccess :: "nm_env \<Rightarrow> nm_state \<Rightarrow> u32 \<Rightarrow> string \<Rightarrow> string \<Rightarrow> string \<Rightarrow> nm_result" where
  \<open>cmd_requestaccess env st request_id payload filename username =
     (if filename = [] then Some (st, [send_error request_id ERR_PROTOCOL ''Missing filename''])
      else case lookup_record st filename of
        None \<Rightarrow> Some (st, [send_error request_id ERR_FILE_NOT_FOUND ''File not found''])
      | Some (p, None) \<Rightarrow> None
      | Some (p, Some r) \<Rightarrow> Some (
          if fr_owner r = username then (st, [send_error request_id ERR_DUPLICATE ''You already own this file''])
          else case parse_access_mode (json_field payload ''mode'' 16 []) of
            None \<Rightarrow> (st, [send_error request_id ERR_PROTOCOL mode_error])
          | Some can_write \<Rightarrow>
              if file_record_check_access r username can_write then
                (st, [send_error request_id ERR_DUPLICATE
                   (if can_write then ''You already have write access'' else ''You already have access'')])
              else case load_access_requests env (nm_data_dir st) filename (nm_disk st) of
                None \<Rightarrow> (st, [send_error request_id ERR_EXECUTION_FAIL ''Failed to load existing requests''])
              | Some requests \<Rightarrow>
                  (case save_access_requests env (nm_data_dir st) filename
                          (put_request (ne_now env) username can_write requests) (nm_disk st) of
                     (ok, d) \<Rightarrow> (st\<lparr>nm_disk := d\<rparr>,
                       [if ok then nm_send OP_COMMAND_STATUS request_id (fit 256 (''{'' @
                            json_fields [(''status'', ''pending''), (''mode'', mode_name can_write)] ''}''))
                        else send_error request_id ERR_EXECUTION_FAIL ''Failed to store request'']))))\<close>

definition format_time_string :: "nm_env \<Rightarrow> time_t \<Rightarrow> nat \<Rightarrow> string" where
  "format_time_string env t len = fit len (if t = 0 then ''unknown'' else ne_date env t)"

text \<open>One line per request while the offset is more than 64 bytes from the end.\<close>

fun request_rows :: "nm_env \<Rightarrow> string \<Rightarrow> access_request list \<Rightarrow> string \<times> nat \<Rightarrow> (string \<times> nat) option" where
  "request_rows env filename [] p = Some p"
| "request_rows env filename (a # as) p = (if 8192 - 64 \<le> snd p then Some p
     else case snprintf_at 8192 p (filename @ '' -> '' @ ar_username a @ '' ('' @ mode_name (ar_can_write a) @ '') @ ''
                @ format_time_string env (ar_requested_at a) 32 @ [LF]) of
       None \<Rightarrow> None | Some p' \<Rightarrow> request_rows env filename as p')"

fun owned_rows :: "nm_env \<Rightarrow> nm_state \<Rightarrow> string \<Rightarrow> file_record list \<Rightarrow> string \<times> nat \<Rightarrow> (string \<times> nat) option" where
  "owned_rows env st username [] p = Some p"
| "owned_rows env st username (r # rs) p = (if 8192 - 64 \<le> snd p then Some p
     else if fr_owner r \<noteq> username then owned_rows env st username rs p
     else case load_access_requests env (nm_data_dir st) (fr_filename r) (nm_disk st) of
       None \<Rightarrow> owned_rows env st username rs p
     | Some requests \<Rightarrow> (case request_rows env (fr_filename r) requests p of
         None \<Rightarrow> None | Some p' \<Rightarrow> owned_rows env st username rs p'))"

definition cmd_listrequests :: "nm_env \<Rightarrow> nm_state \<Rightarrow> u32 \<Rightarrow> string \<Rightarrow> string \<Rightarrow> nm_result" where
  "cmd_listrequests env st request_id filename username =
     (if filename \<noteq> [] then
        (case lookup_record st filename of
           None \<Rightarrow> Some (st, [send_error request_id ERR_FILE_NOT_FOUND ''File not found''])
         | Some (p, None) \<Rightarrow> None
         | Some (p, Some r) \<Rightarrow>
             if fr_owner r \<noteq> username then
               Some (st, [send_error request_id ERR_NOT_OWNER ''Only the owner can view requests for this file''])
             else case load_access_requests env (nm_data_dir st) filename (nm_disk st) of
               None \<Rightarrow> Some (st, [send_error request_id ERR_EXECUTION_FAIL ''Failed to load requests''])
             | Some [] \<Rightarrow> Some (st, [nm_send OP_COMMAND_STATUS request_id (fit 8192 (''No pending requests for '' @ filename))])
             | Some requests \<Rightarrow> map_option (\<lambda>(response, _). (st, [nm_send OP_COMMAND_STATUS request_id response]))
                 (request_rows env filename requests ([], 0)))
      else map_option (\<lambda>(response, offset). (st, [nm_send OP_COMMAND_STATUS request_id
               (if offset = 0 then ''No pending requests'' else response)]))
             (owned_rows env st username (all_records (nm_file_index st)) ([], 0)))"

text \<open>
  What approving and denying have in common: the checks up to the matching request. \<open>Inl\<close> is the
  error that is sent, \<open>Inr\<close> the target, the mode, the record and the requests with the place of the match.
\<close>

definition find_pending :: "nm_env \<Rightarrow> nm_state \<Rightarrow> u32 \<Rightarrow> string \<Rightarrow> string \<Rightarrow> string \<Rightarrow> string
    \<Rightarrow> (nm_out + string \<times> bool \<times> nat \<times> file_record \<times> access_request list \<times> nat) option" where
  "find_pending env st request_id payload filename username not_owner =
     (if filename = [] then Some (Inl (send_error request_id ERR_PROTOCOL ''Missing filename''))
      else case json_get_string payload ''target_user'' MAX_USERNAME_LEN of
        None \<Rightarrow> Some (Inl (send_error request_id ERR_PROTOCOL ''Missing target_user''))
      | Some target_user \<Rightarrow> (case parse_access_mode (json_field payload ''mode'' 16 []) of
          None \<Rightarrow> Some (Inl (send_error request_id ERR_PROTOCOL mode_error))
        | Some can_write \<Rightarrow> (case lookup_record st filename of
            None \<Rightarrow> Some (Inl (send_error request_id ERR_FILE_NOT_FOUND ''File not found''))
          | Some (p, None) \<Rightarrow> None
          | Some (p, Some r) \<Rightarrow> Some (
              if fr_owner r \<noteq> username then Inl (send_error request_id ERR_NOT_OWNER not_owner)
              else case load_access_requests env (nm_data_dir st) filename (nm_disk st) of
                None \<Rightarrow> Inl (send_error request_id ERR_EXECUTION_FAIL ''Failed to load requests'')
              | Some requests \<Rightarrow> (case find_request_index requests target_user can_write of
                  None \<Rightarrow> Inl (send_error request_id ERR_NO_REQUEST ''No matching request found'')
                | Some idx \<Rightarrow> Inr (target_user, can_write, p, r, requests, idx))))))"

definition request_done :: "u32 \<Rightarrow> string \<Rightarrow> string \<Rightarrow> bool \<Rightarrow> nm_out" where
  \<open>request_done request_id status target_user can_write = nm_send OP_COMMAND_STATUS request_id (fit 256 (''{'' @
     json_fields [(''status'', status), (''user'', target_user), (''mode'', mode_name can_write)] ''}''))\<close>

definition cmd_approverequest :: "nm_env \<Rightarrow> nm_state \<Rightarrow> u32 \<Rightarrow> string \<Rightarrow> string \<Rightarrow> string \<Rightarrow> nm_result" where
  "cmd_approverequest env st request_id payload filename username =
     (case find_pending env st request_id payload filename username ''Only the owner can approve requests'' of
        None \<Rightarrow> None
      | Some (Inl err) \<Rightarrow> Some (st, [err])
      | Some (Inr (target_user, can_write, p, r, requests, idx)) \<Rightarrow>
          (case change_acl env st filename p (file_record_add_acl target_user True can_write r) of
             None \<Rightarrow> None
           | Some st1 \<Rightarrow> (case save_access_requests env (nm_data_dir st1) filename (remove_request_at idx requests) (nm_disk st1) of
               (ok, d) \<Rightarrow> Some (st1\<lparr>nm_disk := d\<rparr>,
                 [if ok then request_done request_id ''approved'' target_user can_write
                  else send_error request_id ERR_EXECUTION_FAIL ''Failed to persist updated requests'']))))"

definition cmd_denyrequest :: "nm_env \<Rightarrow> nm_state \<Rightarrow> u32 \<Rightarrow> string \<Rightarrow> string \<Rightarrow> string \<Rightarrow> nm_result" where
  "cmd_denyrequest env st request_id payload filename username =
     (case find_pending env st request_id payload filename username ''Only the owner can deny requests'' of
        None \<Rightarrow> None
      | Some (Inl err) \<Rightarrow> Some (st, [err])
      | Some (Inr (target_user, can_write, p, r, requests, idx)) \<Rightarrow>
          (case save_access_requests env (nm_data_dir st) filename (remove_request_at idx requests) (nm_disk st) of
             (ok, d) \<Rightarrow> Some (st\<lparr>nm_disk := d\<rparr>,
               [if ok then request_done request_id ''denied'' target_user can_write
                else send_error request_id ERR_EXECUTION_FAIL ''Failed to persist updated requests''])))"

definition acl_perms :: "acl_entry \<Rightarrow> string" where
  "acl_perms a = (let s = (if ae_can_read a then ''R'' else []) @ (if ae_can_write a then ''W'' else [])
     in if s = [] then ''-'' else s)"

fun acl_rows :: "acl_entry list \<Rightarrow> string \<times> nat \<Rightarrow> (string \<times> nat) option" where
  "acl_rows [] p = Some p"
| "acl_rows (a # as) p = (if 2047 \<le> snd p then Some p
     else case snprintf_at 2048 p (ae_username a @ '' ('' @ acl_perms a @ '')'' @ [LF]) of
       None \<Rightarrow> None | Some p' \<Rightarrow> acl_rows as p')"

definition cmd_aclinfo :: "nm_state \<Rightarrow> u32 \<Rightarrow> string \<Rightarrow> string \<Rightarrow> nm_result" where
  "cmd_aclinfo st request_id filename username =
     (if filename = [] then Some (st, [send_error request_id ERR_PROTOCOL ''Missing filename''])
      else case lookup_record st filename of
        None \<Rightarrow> Some (st, [send_error request_id ERR_FILE_NOT_FOUND ''File not found''])
      | Some (p, None) \<Rightarrow> None
      | Some (p, Some r) \<Rightarrow>
          if fr_owner r = username \<or> (case file_record_find_acl r username of
               None \<Rightarrow> False | Some e \<Rightarrow> ae_can_read e \<or> ae_can_write e) then
            (case snprintf_at 2048 ([], 0) (fr_owner r @ '' (RW)'' @ [LF]) of
               None \<Rightarrow> None
             | Some p1 \<Rightarrow> map_option (\<lambda>(response, _). (st, [nm_send OP_COMMAND_STATUS request_id response]))
                 (acl_rows (fr_acl r) p1))
          else Some (st, [send_error request_id ERR_NO_ACCESS ''Access denied'']))"

section \<open>Checkpoints\<close>

text \<open>
  The four checkpoint commands differ in the tag they need, the right they ask for and the request
  they build; the response of the storage server is passed on with the client's request id.
\<close>

definition relay :: "nm_env \<Rightarrow> nm_state \<Rightarrow> u32 \<Rightarrow> file_record \<Rightarrow> protocol_opcode_t \<Rightarrow> string \<Rightarrow> nm_state \<times> nm_out list" where
  "relay env st request_id r opcode ss_payload = (case select_storage_server_for_record st r of
     None \<Rightarrow> (st, [send_error request_id ERR_STORAGE_DOWN ''No storage server available''])
   | Some ss \<Rightarrow>
       (let sent = (if ne_net env (server_host ss) (si_client_port ss) opcode ss_payload = None then []
              else [request_to (server_host ss) (si_client_port ss) opcode request_id ss_payload])
        in case forward_storage_request env ss opcode request_id ss_payload of
          None \<Rightarrow> (st, sent @ [send_error request_id ERR_STORAGE_DOWN ''Failed to contact storage server''])
        | Some (h, body) \<Rightarrow> (st, sent @ [(To_Client, h\<lparr>mh_request_id := request_id\<rparr>, case body of None \<Rightarrow> [] | Some b \<Rightarrow> b)])))"

definition checked_relay :: "nm_env \<Rightarrow> nm_state \<Rightarrow> u32 \<Rightarrow> string \<Rightarrow> string \<Rightarrow> bool \<Rightarrow> string \<Rightarrow> protocol_opcode_t \<Rightarrow> string \<Rightarrow> nm_result" where
  "checked_relay env st request_id filename username need_write denied opcode ss_payload = (case lookup_record st filename of
     None \<Rightarrow> Some (st, [send_error request_id ERR_FILE_NOT_FOUND ''File not found''])
   | Some (p, None) \<Rightarrow> None
   | Some (p, Some r) \<Rightarrow> Some (if \<not> file_record_check_access r username need_write
        then (st, [send_error request_id ERR_NO_ACCESS denied])
        else relay env st request_id r opcode ss_payload))"

definition with_tag :: "nm_state \<Rightarrow> u32 \<Rightarrow> string \<Rightarrow> string \<Rightarrow> (string \<Rightarrow> nm_result) \<Rightarrow> nm_result" where
  "with_tag st request_id payload filename go =
     (if filename = [] then Some (st, [send_error request_id ERR_PROTOCOL ''Missing filename''])
      else case json_get_string payload ''tag'' 128 of
        None \<Rightarrow> Some (st, [send_error request_id ERR_PROTOCOL ''Missing checkpoint tag''])
      | Some tag \<Rightarrow> if tag = [] then Some (st, [send_error request_id ERR_PROTOCOL ''Missing checkpoint tag'']) else go tag)"

definition cmd_checkpoint :: "nm_env \<Rightarrow> nm_state \<Rightarrow> u32 \<Rightarrow> string \<Rightarrow> string \<Rightarrow> string \<Rightarrow> nm_result" where
  \<open>cmd_checkpoint env st request_id payload filename username = with_tag st request_id payload filename (\<lambda>tag.
     checked_relay env st request_id filename username True ''Write access required'' OP_CHECKPOINT_REQUEST
       (fit 1024 (''{'' @ json_fields [(''filename'', filename), (''tag'', tag), (''username'', username)] ''}'')))\<close>

definition cmd_listcheckpoints :: "nm_env \<Rightarrow> nm_state \<Rightarrow> u32 \<Rightarrow> string \<Rightarrow> string \<Rightarrow> nm_result" where
  \<open>cmd_listcheckpoints env st request_id filename username =
     (if filename = [] then Some (st, [send_error request_id ERR_PROTOCOL ''Missing filename''])
      else checked_relay env st request_id filename username False ''Access denied'' OP_LISTCHECKPOINTS_REQUEST
        (fit 512 (''{'' @ json_fields [(''filename'', filename)] ''}'')))\<close>

definition cmd_viewcheckpoint :: "nm_env \<Rightarrow> nm_state \<Rightarrow> u32 \<Rightarrow> string \<Rightarrow> string \<Rightarrow> string \<Rightarrow> nm_result" where
  \<open>cmd_viewcheckpoint env st request_id payload filename username = with_tag st request_id payload filename (\<lambda>tag.
     checked_relay env st request_id filename username False ''Access denied'' OP_VIEWCHECKPOINT_REQUEST
       (fit 1024 (''{'' @ json_fields [(''filename'', filename), (''tag'', tag)] ''}'')))\<close>

definition cmd_revertcheckpoint :: "nm_env \<Rightarrow> nm_state \<Rightarrow> u32 \<Rightarrow> string \<Rightarrow> string \<Rightarrow> string \<Rightarrow> nm_result" where
  \<open>cmd_revertcheckpoint env st request_id payload filename username = with_tag st request_id payload filename (\<lambda>tag.
     checked_relay env st request_id filename username True ''Write access required'' OP_REVERT_CHECKPOINT_REQUEST
       (fit 1024 (''{'' @ json_fields [(''filename'', filename), (''tag'', tag), (''username'', username)] ''}'')))\<close>

section \<open>Listings\<close>

definition pad_right :: "nat \<Rightarrow> string \<Rightarrow> string" where
  "pad_right n s = s @ replicate (n - length s) SP"

definition pad_left :: "nat \<Rightarrow> string \<Rightarrow> string" where
  "pad_left n s = replicate (n - length s) SP @ s"

text \<open>Word count, character count and access time from the first storage server of the record.\<close>

definition view_info :: "nm_env \<Rightarrow> nm_state \<Rightarrow> file_record \<Rightarrow> (nat \<times> nat \<times> string) \<times> nm_out list" where
  \<open>view_info env st r = (case fr_ss_ids r of
     [] \<Rightarrow> ((0, 0, ''Never''), [])
   | i # _ \<Rightarrow> (case find_storage_server st i of
       None \<Rightarrow> ((0, 0, ''Never''), [])
     | Some ss \<Rightarrow>
         (let payload = fit 512 (''{'' @ json_fields [(''filename'', fr_filename r)] ''}'') in
          case exchange_with env ''localhost'' (si_client_port ss) OP_INFO_REQUEST 0 payload of
            None \<Rightarrow> ((0, 0, ''Never''), [])
          | Some x \<Rightarrow>
              (if ex_recv_header x = int PROTOCOL_HEADER_SIZE \<and> mh_opcode (ex_header x) \<noteq> opcode_code OP_ERROR
                  \<and> 0 < mh_payload_len (ex_header x) \<and> ex_recv_payload x = to_int32 (unat (mh_payload_len (ex_header x)))
               then (let body = c_str (ex_payload x); n = (\<lambda>k. case json_get_uint body k of None \<Rightarrow> 0 | Some v \<Rightarrow> v)
                     in (n ''word_count'', n ''char_count'',
                         if 0 < n ''last_accessed'' then fit 32 (ne_date env (int (n ''last_accessed''))) else ''Never''))
               else (0, 0, ''Never''),
               [request_to ''localhost'' (si_client_port ss) OP_INFO_REQUEST 0 payload]))))\<close>

definition bar :: string where "bar = [SP, CHR 0xE2, CHR 0x94, CHR 0x82, SP]"

definition view_row :: "file_record \<Rightarrow> nat \<times> nat \<times> string \<Rightarrow> string" where
  "view_row r info = (case info of (words, chars, time_str) \<Rightarrow>
     ''  '' @ pad_right 15 (fr_filename r) @ tl bar @ pad_left 5 (show_nat words) @ bar @ pad_left 5 (show_nat chars)
       @ bar @ pad_left 15 time_str @ bar @ pad_right 8 (fr_owner r) @ [LF])"

text \<open>The offset is not compared with the size of the buffer before a row is printed.\<close>

fun view_rows :: "nm_env \<Rightarrow> nm_state \<Rightarrow> string \<Rightarrow> bool \<Rightarrow> bool \<Rightarrow> file_record list \<Rightarrow> string \<times> nat
    \<Rightarrow> ((string \<times> nat) \<times> nm_out list) option" where
  "view_rows env st username show_all show_details [] p = Some (p, [])"
| "view_rows env st username show_all show_details (r # rs) p =
     (if \<not> file_record_check_access r username False \<and> \<not> show_all
      then view_rows env st username show_all show_details rs p
      else (let (text, sent) = (if show_details then (case view_info env st r of (i, s) \<Rightarrow> (view_row r i, s))
                                else (fr_filename r @ [LF], []))
            in case snprintf_at 8192 p text of
              None \<Rightarrow> None
            | Some p' \<Rightarrow> map_option (\<lambda>(q, s). (q, sent @ s)) (view_rows env st username show_all show_details rs p')))"

definition flag_set :: "string \<Rightarrow> string \<Rightarrow> bool" where
  \<open>flag_set payload key = (strstr payload (DQ # key @ DQ # '':true'') \<noteq> None \<or> strstr payload (DQ # key @ DQ # '':1'') \<noteq> None)\<close>

definition cmd_view :: "nm_env \<Rightarrow> nm_state \<Rightarrow> u32 \<Rightarrow> string \<Rightarrow> string \<Rightarrow> nm_result" where
  "cmd_view env st request_id payload username =
     (if file_index_get_all (nm_file_index st) = [] then
        Some (st, [nm_send OP_COMMAND_STATUS request_id ''(no files registered)''])
      else map_option (\<lambda>((response, offset), sent). (st, sent @ [nm_send OP_COMMAND_STATUS request_id
             (if offset = 0 then ''(no accessible files)'' else response)]))
           (view_rows env st username (flag_set payload ''show_all'') (flag_set payload ''show_details'')
             (all_records (nm_file_index st)) ([], 0)))"

fun list_rows :: "client_info list \<Rightarrow> string \<times> nat \<Rightarrow> (string \<times> nat) option" where
  "list_rows [] p = Some p"
| "list_rows (c # cs) p = (case snprintf_at 2048 p (''--> '' @ ci_username c @ [LF]) of
     None \<Rightarrow> None | Some p' \<Rightarrow> list_rows cs p')"

definition cmd_list :: "nm_state \<Rightarrow> u32 \<Rightarrow> nm_result" where
  "cmd_list st request_id = map_option (\<lambda>(response, offset). (st, [nm_send OP_COMMAND_STATUS request_id
     (if offset = 0 then ''(no users registered)'' else response)])) (list_rows (nm_clients st) ([], 0))"

section \<open>Execution\<close>

definition exec_content :: "string \<Rightarrow> string" where
  \<open>exec_content file_content = (case strstr file_content ''"content":"'' of
     None \<Rightarrow> []
   | Some p \<Rightarrow> (let start = drop 11 p in case strstr start ''"}'' of
       None \<Rightarrow> []
     | Some e \<Rightarrow> (let len = length start - length e in if len < 16384 then take len start else [])))\<close>

fun exec_output :: "string list \<Rightarrow> string \<Rightarrow> string" where
  "exec_output [] out = out"
| "exec_output (l # ls) out = (if 8191 \<le> length out then out
     else exec_output ls (if length out + length l < 8192 then out @ l else out))"

text \<open>The exit code is bits 8 to 15 of the status.\<close>

definition cmd_exec :: "nm_env \<Rightarrow> nm_state \<Rightarrow> u32 \<Rightarrow> string \<Rightarrow> string \<Rightarrow> nm_result" where
  \<open>cmd_exec env st request_id filename username = (case lookup_record st filename of
     None \<Rightarrow> Some (st, [send_error request_id ERR_FILE_NOT_FOUND ''File not found''])
   | Some (p, None) \<Rightarrow> None
   | Some (p, Some r) \<Rightarrow> Some (st,
       if \<not> file_record_check_access r username False then [send_error request_id ERR_NO_ACCESS ''No read access to file'']
       else case fr_ss_ids r of
         [] \<Rightarrow> [send_error request_id ERR_STORAGE_DOWN ''No storage server available'']
       | i # _ \<Rightarrow> (case find_storage_server st i of
           None \<Rightarrow> [send_error request_id ERR_STORAGE_DOWN ''Storage server unavailable'']
         | Some ss \<Rightarrow>
             (let read_req = fit 512 (''{'' @ json_fields [(''filename'', filename), (''username'', username)] ''}'');
                  req = request_to ''localhost'' (si_client_port ss) OP_DATA_REQUEST 0 read_req
              in case exchange_with env ''localhost'' (si_client_port ss) OP_DATA_REQUEST 0 read_req of
                None \<Rightarrow> [send_error request_id ERR_STORAGE_DOWN ''Cannot connect to storage server'']
              | Some x \<Rightarrow> [req,
                  if ex_send_header x \<noteq> int PROTOCOL_HEADER_SIZE \<or> ex_send_payload x \<noteq> int (length read_req) then
                    send_error request_id ERR_STORAGE_DOWN ''Failed to fetch file''
                  else if ex_recv_header x \<noteq> int PROTOCOL_HEADER_SIZE then
                    send_error request_id ERR_STORAGE_DOWN ''Failed to receive response''
                  else if mh_payload_len (ex_header x) = 0
                      \<or> ex_recv_payload x \<noteq> to_int32 (unat (mh_payload_len (ex_header x)))
                      \<or> mh_opcode (ex_header x) = opcode_code OP_ERROR then
                    send_error request_id ERR_STORAGE_DOWN ''Failed to read file''
                  else if exec_content (c_str (ex_payload x)) = [] then
                    send_error request_id ERR_EXECUTION_FAIL ''Empty file''
                  else (case ne_popen env (exec_content (c_str (ex_payload x))) of
                    None \<Rightarrow> send_error request_id ERR_EXECUTION_FAIL ''Failed to execute commands''
                  | Some (printed, status) \<Rightarrow>
                      (let out = exec_output (fgets_lines 1024 printed) [];
                           code = (if status = 0 then 0 else (status div 256) mod 256)
                       in nm_send OP_COMMAND_STATUS request_id (fit 10240 (''=== Execution Output ==='' @ [LF] @
                            (if out = [] then ''(no output)'' else out) @ [LF] @
                            ''=== Exit Code: '' @ show_int code @ '' ===''))))]))))\<close>

section \<open>Dispatch\<close>

definition handle_command_forward :: "nm_env \<Rightarrow> nm_state \<Rightarrow> u32 \<Rightarrow> string \<Rightarrow> nm_result" where
  "handle_command_forward env st request_id payload = (case json_get_string payload ''command'' 64 of
     None \<Rightarrow> Some (st, [send_error request_id ERR_PROTOCOL ''Missing command''])
   | Some command \<Rightarrow>
       (let username = json_field payload ''username'' MAX_USERNAME_LEN ''anonymous'';
            filename = json_field payload ''filename'' MAX_FILENAME_LEN []
        in if command = ''CREATE'' then cmd_create env st request_id filename username
        else if command = ''DELETE'' then cmd_delete env st request_id filename username
        else if command = ''ADDACCESS'' then cmd_addaccess env st request_id payload filename username
        else if command = ''REMACCESS'' then cmd_remaccess env st request_id payload filename username
        else if command = ''REQUESTACCESS'' then cmd_requestaccess env st request_id payload filename username
        else if command = ''LISTREQUESTS'' then cmd_listrequests env st request_id filename username
        else if command = ''APPROVEREQUEST'' then cmd_approverequest env st request_id payload filename username
        else if command = ''DENYREQUEST'' then cmd_denyrequest env st request_id payload filename username
        else if command = ''ACLINFO'' then cmd_aclinfo st request_id filename username
        else if command = ''CHECKPOINT'' then cmd_checkpoint env st request_id payload filename username
        else if command = ''LISTCHECKPOINTS'' then cmd_listcheckpoints env st request_id filename username
        else if command = ''VIEWCHECKPOINT'' then cmd_viewcheckpoint env st request_id payload filename username
        else if command = ''REVERTCHECKPOINT'' then cmd_revertcheckpoint env st request_id payload filename username
        else if command = ''VIEW'' then cmd_view env st request_id payload username
        else if command = ''LIST'' then cmd_list st request_id
        else if command = ''EXEC'' then cmd_exec env st request_id filename username
        else Some (st, [send_error request_id ERR_PROTOCOL ''Unknown command''])))"

end
