(* ===== verification/Nm_Main.thy ===== *)
theory Nm_Main
  imports Nm_Commands
begin

text \<open>
  The rest of \<open>name_server/src/main.c\<close>: the folder requests, which go to all storage servers, moving a
  file, the dispatch of a message, the reading of a message from a connection, and the start from the
  registry on disk.
\<close>

section \<open>Folders\<close>

definition first_error :: "string \<Rightarrow> string \<Rightarrow> string" where
  "first_error err message = (if err = [] then fit 256 message else err)"

definition error_text :: "string \<Rightarrow> string" where
  "error_text body = json_field body ''error'' 256 (json_field body ''message'' 256 [])"

record folder_tally =
  ft_success :: nat
  ft_exists :: nat
  ft_error :: string
  ft_sent :: "nm_out list"

definition createfolder_one :: "nm_env \<Rightarrow> u32 \<Rightarrow> string \<Rightarrow> storage_server_info \<Rightarrow> folder_tally \<Rightarrow> folder_tally" where
  "createfolder_one env request_id payload cur t =
     (case exchange_with env ''localhost'' (si_client_port cur) OP_CREATEFOLDER_REQUEST request_id payload of
        None \<Rightarrow> t\<lparr>ft_error := first_error (ft_error t) (''Failed to connect to storage server '' @ si_ss_id cur)\<rparr>
      | Some x \<Rightarrow>
          (let t1 = t\<lparr>ft_sent := ft_sent t @ [request_to ''localhost'' (si_client_port cur) OP_CREATEFOLDER_REQUEST request_id payload]\<rparr>;
               body = (if 0 < mh_payload_len (ex_header x) \<and> ex_recv_payload x = int (unat (mh_payload_len (ex_header x)))
                       then Some (c_str (ex_payload x)) else None)
           in if ex_send_header x \<noteq> int PROTOCOL_HEADER_SIZE \<or> ex_send_payload x \<noteq> int (length payload) then
                t1\<lparr>ft_error := first_error (ft_error t) (''Failed to send create request to '' @ si_ss_id cur)\<rparr>
              else if ex_recv_header x \<noteq> int PROTOCOL_HEADER_SIZE then
                t1\<lparr>ft_error := first_error (ft_error t) (''Failed to receive response from '' @ si_ss_id cur)\<rparr>
              else if mh_opcode (ex_header x) = opcode_code OP_COMMAND_STATUS then t1\<lparr>ft_success := ft_success t + 1\<rparr>
              else if mh_opcode (ex_header x) = opcode_code OP_ERROR
                   \<and> (case body of None \<Rightarrow> False | Some b \<Rightarrow> strstr b ''Folder already exists'' \<noteq> None)
                then t1\<lparr>ft_exists := ft_exists t + 1\<rparr>
              else t1\<lparr>ft_error := first_error (ft_error t) (case body of
                  None \<Rightarrow> ''Storage server '' @ si_ss_id cur @ '' returned an error''
                | Some b \<Rightarrow> if error_text b \<noteq> [] then error_text b else b)\<rparr>))"

definition handle_createfolder :: "nm_env \<Rightarrow> nm_state \<Rightarrow> u32 \<Rightarrow> string \<Rightarrow> nm_result" where
  \<open>handle_createfolder env st request_id payload = Some (st, case json_get_string payload ''foldername'' MAX_FILENAME_LEN of
     None \<Rightarrow> [send_error request_id ERR_PROTOCOL ''Missing foldername'']
   | Some foldername \<Rightarrow> (case json_get_string payload ''username'' 128 of
       None \<Rightarrow> [send_error request_id ERR_PROTOCOL ''Missing username'']
     | Some username \<Rightarrow>
         if nm_servers st = [] then [send_error request_id ERR_STORAGE_DOWN ''No storage servers available'']
         else
           (let t = fold (createfolder_one env request_id payload) (nm_servers st)
                      \<lparr>ft_success = 0, ft_exists = 0, ft_error = [], ft_sent = []\<rparr>
            in ft_sent t @ [if 0 < ft_success t then nm_send OP_COMMAND_STATUS request_id
                   (''{'' @ json_fields [(''status'', ''created'')] ('',"replicated":'' @ show_nat (ft_success t) @ ''}''))
                 else if ft_exists t = length (nm_servers st) then send_error request_id ERR_PROTOCOL ''Folder already exists''
                 else send_error request_id ERR_STORAGE_DOWN (first_error (ft_error t)
                   (''Unable to create folder '' @ CHR 0x27 # take 128 foldername @ CHR 0x27 # '' on any storage server''))])))\<close>

record view_tally =
  vt_files :: "string list"
  vt_folders :: "string list"
  vt_success :: nat
  vt_not_found :: nat
  vt_contacted :: nat
  vt_error :: string
  vt_sent :: "nm_out list"

definition contains :: "string \<Rightarrow> string \<Rightarrow> bool" where
  "contains text part = (strstr text part \<noteq> None)"

definition viewfolder_one :: "nm_env \<Rightarrow> u32 \<Rightarrow> string \<Rightarrow> storage_server_info \<Rightarrow> view_tally \<Rightarrow> view_tally" where
  "viewfolder_one env request_id payload cur t =
     (case exchange_with env ''localhost'' (si_client_port cur) OP_VIEWFOLDER_REQUEST request_id payload of
        None \<Rightarrow> t\<lparr>vt_error := first_error (vt_error t) (''Failed to connect to storage server '' @ si_ss_id cur)\<rparr>
      | Some x \<Rightarrow>
          (let t1 = t\<lparr>vt_contacted := vt_contacted t + 1,
                      vt_sent := vt_sent t @ [request_to ''localhost'' (si_client_port cur) OP_VIEWFOLDER_REQUEST request_id payload]\<rparr>;
               fail = (\<lambda>m. t1\<lparr>vt_error := first_error (vt_error t) (m @ si_ss_id cur)\<rparr>);
               body = c_str (ex_payload x)
           in if ex_send_header x \<noteq> int PROTOCOL_HEADER_SIZE \<or> ex_send_payload x \<noteq> int (length payload) then
                fail ''Failed to send view request to ''
              else if ex_recv_header x \<noteq> int PROTOCOL_HEADER_SIZE then fail ''Failed to receive response from ''
              else if 0 < mh_payload_len (ex_header x) \<and> ex_recv_payload x \<noteq> int (unat (mh_payload_len (ex_header x))) then
                fail ''Failed to read response payload from ''
              else if mh_opcode (ex_header x) = opcode_code OP_VIEWFOLDER_RESPONSE \<and> 0 < mh_payload_len (ex_header x) then
                t1\<lparr>vt_success := vt_success t + 1, vt_files := parse_json_string_array body ''files'' (vt_files t),
                   vt_folders := parse_json_string_array body ''folders'' (vt_folders t)\<rparr>
              else if mh_opcode (ex_header x) = opcode_code OP_ERROR then
                (let parsed = (if 0 < mh_payload_len (ex_header x) then error_text body else []);
                     err_text = (if parsed \<noteq> [] then parsed
                                 else if 0 < mh_payload_len (ex_header x) then body else ''Unknown error'')
                 in t1\<lparr>vt_not_found := vt_not_found t + (if contains err_text ''not found'' then 1 else 0),
                       vt_error := first_error (vt_error t) err_text\<rparr>)
              else fail ''Unexpected response from ''))"

text \<open>Literals into the response while two bytes are left; the offset is the length of the text.\<close>

fun folder_items :: "bool \<Rightarrow> string list \<Rightarrow> string \<times> nat \<Rightarrow> string \<times> nat" where
  "folder_items first [] p = p"
| "folder_items first (x # xs) p = (if 16384 - 2 \<le> snd p then p
     else (let b = append_json_string_literal 16384 x (if first then fst p else fst p @ '','')
           in folder_items False xs (b, length b)))"

definition folder_response :: "string list \<Rightarrow> string list \<Rightarrow> string option" where
  \<open>folder_response files folders =
     (case snprintf_at 16384 (folder_items True files (''{"files":['', 10)) ''],"folders":['' of
        None \<Rightarrow> None
      | Some p \<Rightarrow> map_option fst (snprintf_at 16384 (folder_items True folders p) '']}''))\<close>

definition handle_viewfolder :: "nm_env \<Rightarrow> nm_state \<Rightarrow> u32 \<Rightarrow> string \<Rightarrow> nm_result" where
  "handle_viewfolder env st request_id payload = (case json_get_string payload ''foldername'' MAX_FILENAME_LEN of
     None \<Rightarrow> Some (st, [send_error request_id ERR_PROTOCOL ''Missing foldername''])
   | Some foldername \<Rightarrow> (case json_get_string payload ''username'' 128 of
       None \<Rightarrow> Some (st, [send_error request_id ERR_PROTOCOL ''Missing username''])
     | Some username \<Rightarrow>
         if nm_servers st = [] then Some (st, [send_error request_id ERR_STORAGE_DOWN ''No storage servers available''])
         else
           (let t = fold (viewfolder_one env request_id payload) (nm_servers st)
                      \<lparr>vt_files = [], vt_folders = [], vt_success = 0, vt_not_found = 0, vt_contacted = 0, vt_error = [], vt_sent = []\<rparr>
            in if vt_success t = 0 then Some (st, vt_sent t @
                 [if vt_not_found t = vt_contacted t \<and> 0 < vt_contacted t then send_error request_id ERR_FILE_NOT_FOUND ''Folder not found''
                  else if vt_error t \<noteq> [] then send_error request_id ERR_EXECUTION_FAIL (vt_error t)
                  else send_error request_id ERR_STORAGE_DOWN ''Unable to list folder on any storage server''])
               else map_option (\<lambda>response. (st, vt_sent t @ [nm_send OP_VIEWFOLDER_RESPONSE request_id response]))
                 (folder_response (vt_files t) (vt_folders t)))))"

section \<open>Moving a file\<close>

definition move_target :: "string \<Rightarrow> string \<Rightarrow> string" where
  "move_target foldername filename = fit 512 (if foldername = [] \<or> foldername = ''/'' then filename
     else if last foldername = SLASH then foldername @ filename else foldername @ ''/'' @ filename)"

definition ignore_rename :: "io \<Rightarrow> string \<Rightarrow> string \<Rightarrow> fs \<Rightarrow> fs" where
  "ignore_rename w s t d = (case sys_rename w d s t of Inl _ \<Rightarrow> d | Inr d' \<Rightarrow> d')"

definition move_file_at :: "io \<Rightarrow> string option \<Rightarrow> string option \<Rightarrow> fs \<Rightarrow> fs" where
  "move_file_at w old new d = (case (old, new) of
     (Some s, Some t) \<Rightarrow> ignore_rename w s t (ensure_parent_dirs w t d) | _ \<Rightarrow> d)"

definition move_record :: "time_t \<Rightarrow> storage_server_info \<Rightarrow> string \<Rightarrow> string \<Rightarrow> file_record \<Rightarrow> file_index \<Rightarrow> file_index" where
  "move_record now ss filename new_path r ix =
     (let ix1 = file_index_add now new_path (fit MAX_USERNAME_LEN (fr_owner r))
            (case fr_ss_ids r of [] \<Rightarrow> si_ss_id ss | i # _ \<Rightarrow> fit 128 i) (index_drop filename ix);
          ix2 = fold (\<lambda>i x. case file_index_add_ss_replica new_path (fit 128 i) x of None \<Rightarrow> x | Some x' \<Rightarrow> x') (drop 1 (fr_ss_ids r)) ix1
      in case file_index_lookup ix2 new_path of
        None \<Rightarrow> ix2
      | Some p \<Rightarrow> update_record p (\<lambda>q. q\<lparr>fr_created_at := fr_created_at r, fr_modified_at := fr_modified_at r,
            fr_word_count := fr_word_count r, fr_char_count := fr_char_count r, fr_sentence_count := fr_sentence_count r,
            fr_acl := (if fr_acl r \<noteq> [] then fr_acl r else fr_acl q),
            fr_acl_capacity := (if fr_acl r \<noteq> [] then length (fr_acl r) else fr_acl_capacity q)\<rparr>) ix2)"

definition apply_move :: "nm_env \<Rightarrow> nm_state \<Rightarrow> storage_server_info \<Rightarrow> string \<Rightarrow> string \<Rightarrow> file_record \<Rightarrow> nm_state option" where
  "apply_move env st ss filename new_path r =
     (let dir = nm_data_dir st;
          d1 = move_file_at (ne_io env) (ns_acl_path PATH_MAX dir filename) (ns_acl_path PATH_MAX dir new_path) (nm_disk st);
          d2 = move_file_at (ne_io env) (ns_requests_path PATH_MAX dir filename) (ns_requests_path PATH_MAX dir new_path) d1
      in case lru_cache_invalidate filename (nm_cache st) of None \<Rightarrow> None
         | Some c1 \<Rightarrow> (case lru_cache_invalidate new_path c1 of None \<Rightarrow> None
           | Some c2 \<Rightarrow> Some (st\<lparr>nm_file_index := move_record (ne_now env) ss filename new_path r (nm_file_index st),
               nm_cache := c2, nm_disk := d2\<rparr>)))"

text \<open>The destination folder is created first; an error other than its existence ends the move.\<close>

definition prepare_folder :: "nm_env \<Rightarrow> storage_server_info \<Rightarrow> string \<Rightarrow> string \<Rightarrow> nm_out list \<times> string option" where
  \<open>prepare_folder env ss foldername username =
     (if foldername = [] \<or> foldername = ''/'' \<or> username = [] then ([], None)
      else (let payload = fit 1024 (''{'' @ json_fields [(''foldername'', foldername), (''username'', username)] ''}'');
                sent = (if ne_net env (server_host ss) (si_client_port ss) OP_CREATEFOLDER_REQUEST payload = None then []
                        else [request_to (server_host ss) (si_client_port ss) OP_CREATEFOLDER_REQUEST 0 payload])
            in (sent, case forward_storage_request env ss OP_CREATEFOLDER_REQUEST 0 payload of
                 None \<Rightarrow> None
               | Some (h, body) \<Rightarrow>
                   (let text = (case body of None \<Rightarrow> [] | Some b \<Rightarrow> c_str b) in
                    if mh_opcode h = opcode_code OP_ERROR \<and> \<not> (body \<noteq> None \<and> contains text ''already exists'')
                    then (let m = (case json_get_string text ''error'' 256 of Some m \<Rightarrow> m
                             | None \<Rightarrow> (case json_get_string text ''message'' 256 of Some m \<Rightarrow> m | None \<Rightarrow> fit 256 text))
                          in Some (if m \<noteq> [] then m else ''Unable to prepare destination folder''))
                    else None))))\<close>

text \<open>The request as it came goes to the storage server, its response to the client.\<close>

definition move_at :: "nm_env \<Rightarrow> nm_state \<Rightarrow> u32 \<Rightarrow> string \<Rightarrow> string \<Rightarrow> string \<Rightarrow> file_record option
    \<Rightarrow> storage_server_info \<Rightarrow> nm_out list \<Rightarrow> nm_result" where
  "move_at env st request_id payload filename foldername record ss sent =
     (case exchange_with env ''localhost'' (si_client_port ss) OP_MOVE_REQUEST request_id payload of
        None \<Rightarrow> Some (st, sent @ [send_error request_id ERR_STORAGE_DOWN ''Failed to connect to storage server''])
      | Some x \<Rightarrow>
          (let sent1 = sent @ [request_to ''localhost'' (si_client_port ss) OP_MOVE_REQUEST request_id payload];
               fail = (\<lambda>m. Some (st, sent1 @ [send_error request_id ERR_STORAGE_DOWN m]))
           in if ex_send_header x \<noteq> int PROTOCOL_HEADER_SIZE \<or> ex_send_payload x \<noteq> int (length payload) then
                fail ''Failed to send move request to storage server''
              else if ex_recv_header x \<noteq> int PROTOCOL_HEADER_SIZE then fail ''Failed to receive response from storage server''
              else if 0 < mh_payload_len (ex_header x) \<and> ex_recv_payload x \<noteq> int (unat (mh_payload_len (ex_header x))) then
                fail ''Failed to receive move response payload''
              else (let out = sent1 @ [(To_Client, ex_header x, ex_payload x)] in
                case record of
                  Some r \<Rightarrow> if mh_opcode (ex_header x) = opcode_code OP_COMMAND_STATUS
                    then map_option (\<lambda>st'. (st', out)) (apply_move env st ss filename (move_target foldername filename) r)
                    else Some (st, out)
                | None \<Rightarrow> Some (st, out))))"

definition move_holder :: "nm_state \<Rightarrow> file_record option \<Rightarrow> storage_server_info option" where
  "move_holder st record =
     (case (case record of Some r \<Rightarrow> (case fr_ss_ids r of [] \<Rightarrow> None | i # _ \<Rightarrow> find_storage_server st i) | None \<Rightarrow> None) of
        Some s \<Rightarrow> Some s
      | None \<Rightarrow> (case nm_servers st of [] \<Rightarrow> None | s # _ \<Rightarrow> Some s))"

definition handle_move :: "nm_env \<Rightarrow> nm_state \<Rightarrow> u32 \<Rightarrow> string \<Rightarrow> nm_result" where
  "handle_move env st request_id payload = (case json_get_string payload ''filename'' MAX_FILENAME_LEN of
     None \<Rightarrow> Some (st, [send_error request_id ERR_PROTOCOL ''Missing filename''])
   | Some filename \<Rightarrow>
       (let foldername = json_field payload ''foldername'' MAX_FILENAME_LEN [];
            username = json_field payload ''username'' MAX_USERNAME_LEN [];
            go = (\<lambda>record. case move_holder st record of
                None \<Rightarrow> Some (st, [send_error request_id ERR_STORAGE_DOWN ''Storage server not available''])
              | Some ss \<Rightarrow> (case prepare_folder env ss foldername username of
                  (sent, Some m) \<Rightarrow> Some (st, sent @ [send_error request_id ERR_EXECUTION_FAIL m])
                | (sent, None) \<Rightarrow> move_at env st request_id payload filename foldername record ss sent))
        in case lookup_record st filename of
          None \<Rightarrow> go None
        | Some (p, None) \<Rightarrow> None
        | Some (p, Some r) \<Rightarrow> go (Some r)))"

section \<open>Messages\<close>

definition handle_payload :: "nm_env \<Rightarrow> nm_state \<Rightarrow> int \<Rightarrow> message_header \<Rightarrow> string \<Rightarrow> nm_result" where
  "handle_payload env st fd h payload =
     (if mh_version h \<noteq> PROTOCOL_VERSION then
        Some (st, [send_error (mh_request_id h) ERR_PROTOCOL ''Unsupported protocol version''])
      else case opcode_of (mh_opcode h) of
        Some OP_REGISTER_SS \<Rightarrow> handle_register_ss env st fd (mh_request_id h) payload
      | Some OP_REGISTER_CLIENT \<Rightarrow> handle_register_client env st fd (mh_request_id h) payload
      | Some OP_HEARTBEAT \<Rightarrow> handle_heartbeat env st payload
      | Some OP_LOOKUP_FILE \<Rightarrow> handle_lookup_file env st (mh_request_id h) payload
      | Some OP_COMMAND_FORWARD \<Rightarrow> handle_command_forward env st (mh_request_id h) payload
      | Some OP_CREATEFOLDER_REQUEST \<Rightarrow> handle_createfolder env st (mh_request_id h) payload
      | Some OP_MOVE_REQUEST \<Rightarrow> handle_move env st (mh_request_id h) payload
      | Some OP_VIEWFOLDER_REQUEST \<Rightarrow> handle_viewfolder env st (mh_request_id h) payload
      | _ \<Rightarrow> Some (st, [send_error (mh_request_id h) ERR_PROTOCOL ''Unsupported opcode'']))"

text \<open>
  One message from a ready connection, read like any message; a connection that cannot deliver one
  is removed. \<open>junk\<close> is what the header buffer held before.
\<close>

definition handle_connection_data :: "nm_env \<Rightarrow> nm_state \<Rightarrow> int \<Rightarrow> (nat \<Rightarrow> u8) \<Rightarrow> recv_event list \<Rightarrow> nm_result" where
  "handle_connection_data env st fd junk evs = (case fst (recv_message (ne_big env) fd junk evs) of
     None \<Rightarrow> Some (remove_connection fd st, [])
   | Some (h, payload) \<Rightarrow> handle_payload env st fd h (case payload of None \<Rightarrow> [] | Some p \<Rightarrow> p))"

section \<open>Start\<close>

definition load_registry_line :: "nm_env \<Rightarrow> string \<Rightarrow> nm_state \<Rightarrow> nm_state" where
  \<open>load_registry_line env line st =
     (if contains line ''"type":"FILE_CREATE"'' then
        (case (json_get_string line ''filename'' 256, json_get_string line ''owner'' 128, json_get_string line ''ss_id'' 128) of
           (Some filename, Some owner, Some ss_id) \<Rightarrow>
             (let ix = file_index_add (ne_now env) filename owner ss_id (nm_file_index st);
                  acl = (case ns_acl_path PATH_MAX (nm_data_dir st) filename of None \<Rightarrow> None
                    | Some path \<Rightarrow> (case fopen_read env path (nm_disk st) of Inl _ \<Rightarrow> None | Inr text \<Rightarrow> Some text))
              in st\<lparr>nm_file_index := (case (acl, file_index_lookup ix filename) of
                     (Some text, Some p) \<Rightarrow> update_record p (load_acl owner text) ix | _ \<Rightarrow> ix)\<rparr>)
         | _ \<Rightarrow> st)
      else if contains line ''"type":"CLIENT_REGISTER"'' then
        (case json_get_string line ''username'' 128 of
           None \<Rightarrow> st
         | Some username \<Rightarrow> if find_client st username \<noteq> None then st
             else st\<lparr>nm_clients := \<lparr>ci_username = fit 128 username, ci_ip = [], ci_client_port = 0, ci_registered_at = 0\<rparr> # nm_clients st\<rparr>)
      else st)\<close>

definition nm_ensure_dir :: "io \<Rightarrow> string \<Rightarrow> fs \<Rightarrow> fs option" where
  "nm_ensure_dir w path d = (case sys_mkdir w d path of Inr d' \<Rightarrow> Some d' | Inl e \<Rightarrow> if e = EEXIST then Some d else None)"

fun prepare_subdirs :: "io \<Rightarrow> string \<Rightarrow> string list \<Rightarrow> fs \<Rightarrow> fs option" where
  "prepare_subdirs w data_dir [] d = Some d"
| "prepare_subdirs w data_dir (s # ss) d = (case write_path PATH_MAX (data_dir @ ''/'' @ s) of
     None \<Rightarrow> None
   | Some path \<Rightarrow> (case nm_ensure_dir w path d of None \<Rightarrow> None | Some d' \<Rightarrow> prepare_subdirs w data_dir ss d'))"

definition prepare_directories :: "io \<Rightarrow> string \<Rightarrow> fs \<Rightarrow> fs option" where
  "prepare_directories w data_dir d = (case nm_ensure_dir w data_dir d of
     None \<Rightarrow> None | Some d' \<Rightarrow> prepare_subdirs w data_dir [''acl'', ''cache'', ''logs'', ''requests''] d')"

definition nm_empty :: "string \<Rightarrow> fs \<Rightarrow> nm_state" where
  "nm_empty data_dir d = \<lparr>nm_connections = [], nm_servers = [], nm_clients = [], nm_session_seq = 0, nm_data_dir = data_dir,
     nm_file_index = file_index_init, nm_cache = the (lru_cache_init 128), nm_next_primary_index = 0, nm_disk = d\<rparr>"

text \<open>The path of the registry is used even when it was cut off.\<close>

definition load_registry :: "nm_env \<Rightarrow> nm_state \<Rightarrow> nm_state" where
  "load_registry env st = (case fopen_read env (fit PATH_MAX (nm_data_dir st @ ''/registry.jsonl'')) (nm_disk st) of
     Inl _ \<Rightarrow> st
   | Inr text \<Rightarrow> fold (load_registry_line env) (fgets_lines 1024 text) st)"

text \<open>The state with which \<open>main\<close> enters its loop, unless the directories cannot be made.\<close>

definition nm_start :: "nm_env \<Rightarrow> string \<Rightarrow> fs \<Rightarrow> nm_state option" where
  "nm_start env data_dir d = (let dir = fit PATH_MAX data_dir in
     map_option (\<lambda>d'. load_registry env (nm_empty dir d')) (prepare_directories (ne_io env) dir d))"

section \<open>The loop\<close>

text \<open>
  The runs of the server on one data directory: it starts from what is on disk, accepts connections,
  reads messages from the connections it has, and is stopped at any moment and started again on the
  disk it left. The surroundings may differ at every step.
\<close>

inductive nm_reachable :: "string \<Rightarrow> fs \<Rightarrow> nm_state \<Rightarrow> bool" for data_dir :: string and d :: fs where
  start: "nm_start env data_dir d = Some st \<Longrightarrow> nm_reachable data_dir d st"
| accept: "nm_reachable data_dir d st \<Longrightarrow> nm_reachable data_dir d (add_connection fd st)"
| data: "nm_reachable data_dir d st \<Longrightarrow> fd \<in> cn_fd ` set (nm_connections st)
    \<Longrightarrow> handle_connection_data env st fd junk evs = Some (st', out) \<Longrightarrow> nm_reachable data_dir d st'"
| restart: "nm_reachable data_dir d st \<Longrightarrow> nm_start env data_dir (nm_disk st) = Some st' \<Longrightarrow> nm_reachable data_dir d st'"

end
