(* ===== verification/Nm_Invariant.thy ===== *)
theory Nm_Invariant
  imports Nm_Main
begin

text \<open>
  The invariant of the name server: the index is well formed and the cache is in step with it. Every
  handler keeps it, and runs within defined behaviour except for the listings that print past their buffer.
\<close>

section \<open>Index operations of the handlers\<close>

lemma index_ok_set:
  assumes "index_ok ix" and "file_index_lookup ix n = Some p" and "record_ok n r"
  shows "index_ok (update_record p (\<lambda>_. r) ix)"
proof (rule index_okI)
  let ?jx = "update_record p (\<lambda>_. r) ix"
  note D = index_okD [OF assms(1)]
  have l: "file_index_lookup ?jx = file_index_lookup ix" by (rule ext) (rule update_record_lookup)
  have jx: "ix_next ?jx = ix_next ix" "ix_file_count ?jx = ix_file_count ix"
    "\<And>q. ix_heap ?jx q = (if q = p then map_option (\<lambda>_. r) (ix_heap ix p) else ix_heap ix q)"
    by (auto simp: update_record_def)
  show "q < ix_next ?jx" if "file_index_lookup ?jx m = Some q" for m q using that D(4) by (simp add: l jx)
  show "\<exists>r. ix_heap ?jx q = Some r \<and> record_ok m r" if "file_index_lookup ?jx m = Some q" for m q
    using that D(5) [of m q] index_ok_inj [OF assms(1,2), of m] assms(3) by (auto simp: l jx)
  show "m = k" if "file_index_lookup ?jx m = Some q" "file_index_lookup ?jx k = Some q" for m k q
    using that index_ok_inj [OF assms(1)] by (simp add: l)
  show "\<exists>m. file_index_lookup ?jx m = Some q" if "ix_heap ?jx q \<noteq> None" for q
    using that D(3) by (auto simp: l jx split: if_splits)
  show "finite {m. file_index_lookup ?jx m \<noteq> None}" using D(1) by (simp add: l)
  show "ix_file_count ?jx = card {m. file_index_lookup ?jx m \<noteq> None}" using D(2) by (simp add: l jx)
qed

lemma add_replica_lookup:
  "file_index_add_ss_replica n s ix = Some ix' \<Longrightarrow> file_index_lookup ix' m = file_index_lookup ix m"
  by (auto simp: file_index_add_ss_replica_def update_record_lookup split: option.splits if_splits)

lemma add_replica_ok: "index_ok ix \<Longrightarrow> file_index_add_ss_replica n s ix = Some ix' \<Longrightarrow> index_ok ix'"
  by (auto simp: file_index_add_ss_replica_def intro: index_ok_update record_ok_add_ss_id
      split: option.splits if_splits)

definition add_replica :: "string \<Rightarrow> string \<Rightarrow> file_index \<Rightarrow> file_index" where
  "add_replica n s ix = (case file_index_add_ss_replica n s ix of None \<Rightarrow> ix | Some ix' \<Rightarrow> ix')"

lemma add_replica_keeps:
  "index_ok ix \<Longrightarrow> index_ok (add_replica n s ix)"
  "file_index_lookup (add_replica n s ix) m = file_index_lookup ix m"
  by (auto simp: add_replica_def add_replica_lookup add_replica_ok split: option.splits)

lemma add_replicas_keep:
  "index_ok ix \<Longrightarrow> index_ok (fold (add_replica n) ss ix)"
  "file_index_lookup (fold (add_replica n) ss ix) m = file_index_lookup ix m"
  by (induction ss arbitrary: ix) (simp_all add: add_replica_keeps)

section \<open>The invariant\<close>

definition nm_ok :: "nm_state \<Rightarrow> bool" where
  "nm_ok st \<longleftrightarrow> index_ok (nm_file_index st) \<and> cache_ok (nm_file_index st) (nm_cache st)"

text \<open>A result within defined behaviour that keeps the invariant.\<close>

definition res_ok :: "nm_result \<Rightarrow> bool" where
  "res_ok res \<longleftrightarrow> (\<exists>st out. res = Some (st, out) \<and> nm_ok st)"

lemma res_ok_Some [simp]: "res_ok (Some (st, out)) \<longleftrightarrow> nm_ok st" "\<not> res_ok None"
  by (simp_all add: res_ok_def)

lemma res_ok_if: "(P \<Longrightarrow> res_ok a) \<Longrightarrow> (\<not> P \<Longrightarrow> res_ok b) \<Longrightarrow> res_ok (if P then a else b)"
  by simp

lemma nm_ok_fields [simp]:
  "nm_ok (st\<lparr>nm_servers := a\<rparr>) = nm_ok st" "nm_ok (st\<lparr>nm_clients := b\<rparr>) = nm_ok st"
  "nm_ok (st\<lparr>nm_connections := c\<rparr>) = nm_ok st" "nm_ok (st\<lparr>nm_disk := d\<rparr>) = nm_ok st"
  "nm_ok (st\<lparr>nm_session_seq := e\<rparr>) = nm_ok st" "nm_ok (st\<lparr>nm_next_primary_index := f\<rparr>) = nm_ok st"
  by (simp_all add: nm_ok_def)

lemma lookup_record_cases:
  assumes "nm_ok st"
  obtains "lookup_record st n = None"
  | p r where "lookup_record st n = Some (p, Some r)" and "file_index_lookup (nm_file_index st) n = Some p"
      and "ix_heap (nm_file_index st) p = Some r" and "record_ok n r"
proof (cases "file_index_lookup (nm_file_index st) n")
  case None
  then show thesis using that(1) by (simp add: lookup_record_def)
next
  case (Some p)
  moreover from assms Some obtain r where "ix_heap (nm_file_index st) p = Some r" "record_ok n r"
    unfolding nm_ok_def by (metis index_okD(5))
  ultimately show thesis using that(2) by (simp add: lookup_record_def)
qed

lemma nm_ok_invalidate:
  assumes "nm_ok st"
  obtains c where "lru_cache_invalidate n (nm_cache st) = Some c" and "cache_ok (nm_file_index st) c"
    and "cache_ok (index_drop n (nm_file_index st)) c"
  using cache_ok_invalidate [of "nm_file_index st" "nm_cache st" n] assms unfolding nm_ok_def by blast

lemma change_acl_ok:
  assumes "nm_ok st" and "file_index_lookup (nm_file_index st) n = Some p" and "record_ok n r"
  shows "\<exists>st'. change_acl env st n p r = Some st' \<and> nm_ok st'"
proof -
  obtain c where c: "lru_cache_invalidate n (nm_cache st) = Some c" "cache_ok (nm_file_index st) c"
    using nm_ok_invalidate [OF assms(1)] by blast
  have "index_ok (update_record p (\<lambda>_. r) (nm_file_index st))"
    using assms unfolding nm_ok_def by (intro index_ok_set) auto
  moreover have "cache_ok (update_record p (\<lambda>_. r) (nm_file_index st)) c"
    using c(2) cache_ok_cong [of "update_record p (\<lambda>_. r) (nm_file_index st)" "nm_file_index st" c]
    by (simp add: update_record_lookup)
  ultimately show ?thesis using c(1) by (simp add: change_acl_def nm_ok_def)
qed

lemma json_get_string_bound: "json_get_string j k n = Some v \<Longrightarrow> 0 < n \<Longrightarrow> length v < n"
  by (auto simp: json_get_string_def length_fit split: option.splits list.splits if_splits)

lemma json_field_bound: "length d < n \<Longrightarrow> length (json_field j k n d) < n"
  by (auto simp: json_field_def dest: json_get_string_bound split: option.splits)

section \<open>Every handler keeps it\<close>

lemma fold_add_ok:
  assumes "index_ok ix" and "cache_ok ix c"
  shows "index_ok (fold (\<lambda>n. file_index_add now n u s) ns ix) \<and> cache_ok (fold (\<lambda>n. file_index_add now n u s) ns ix) c"
  using assms by (induction ns arbitrary: ix) (simp_all add: index_ok_add cache_ok_add)

lemma set_connection_same [simp]:
  "nm_file_index (set_connection fd r i t st) = nm_file_index st" "nm_cache (set_connection fd r i t st) = nm_cache st"
  "nm_ok (set_connection fd r i t st) = nm_ok st"
  by (simp_all add: set_connection_def)

lemma register_ss_ok: "nm_ok st \<Longrightarrow> res_ok (handle_register_ss env st fd rid payload)"
  using fold_add_ok [of "nm_file_index st" "nm_cache st"]
  by (auto simp: handle_register_ss_def Let_def nm_ok_def res_ok_def split: option.splits)

lemma register_client_ok: "nm_ok st \<Longrightarrow> res_ok (handle_register_client env st fd rid payload)"
  by (auto simp: handle_register_client_def Let_def res_ok_def split: option.splits)

lemma heartbeat_ok: "nm_ok st \<Longrightarrow> res_ok (handle_heartbeat env st payload)"
  by (auto simp: handle_heartbeat_def res_ok_def split: option.splits)

lemma nm_get_ok:
  assumes "nm_ok st" and "length n < MAX_FILENAME_LEN"
  obtains c where "lru_cache_get now (nm_file_index st) n (nm_cache st) = Some (c, file_index_lookup (nm_file_index st) n)"
    and "nm_ok (st\<lparr>nm_cache := c\<rparr>)"
  using cache_ok_get [of "nm_file_index st" "nm_cache st" n now] assms unfolding nm_ok_def by auto

lemma lookup_ok:
  assumes "nm_ok st"
  shows "res_ok (handle_lookup_file env st rid payload)"
proof (cases "json_get_string payload ''filename'' MAX_FILENAME_LEN")
  case (Some n)
  then have "length n < MAX_FILENAME_LEN" by (rule json_get_string_bound) (simp add: MAX_FILENAME_LEN_def)
  then obtain c where c: "lru_cache_get (ne_now env) (nm_file_index st) n (nm_cache st) = Some (c, file_index_lookup (nm_file_index st) n)"
    "nm_ok (st\<lparr>nm_cache := c\<rparr>)" using nm_get_ok [OF assms] by blast
  from assms have "file_index_lookup (nm_file_index st) n = Some p \<Longrightarrow> ix_heap (nm_file_index st) p \<noteq> None" for p
    unfolding nm_ok_def using index_okD(5) by fastforce
  with Some c show ?thesis
    by (cases "file_index_lookup (nm_file_index st) n") (auto simp: handle_lookup_file_def Let_def)
qed (use assms in \<open>simp add: handle_lookup_file_def\<close>)

lemma create_ok:
  assumes "nm_ok st"
  shows "res_ok (cmd_create env st rid n u)"
proof -
  obtain c where c: "lru_cache_invalidate n (nm_cache st) = Some c" "cache_ok (nm_file_index st) c"
    using nm_ok_invalidate [OF assms] by blast
  have ix: "index_ok (file_index_add now n u s (nm_file_index st))" "cache_ok (file_index_add now n u s (nm_file_index st)) c" for now s
    using assms c(2) by (simp_all add: nm_ok_def index_ok_add cache_ok_add)
  have rep: "index_ok (add_replica n t (file_index_add now n u s (nm_file_index st)))"
    "cache_ok (add_replica n t (file_index_add now n u s (nm_file_index st))) c" for now s t
    using ix cache_ok_cong [of "add_replica n t (file_index_add now n u s (nm_file_index st))"]
    by (simp_all add: add_replica_keeps)
  show ?thesis using assms c(1) ix rep unfolding cmd_create_def Let_def add_replica_def [symmetric]
    by (auto simp: nm_ok_def res_ok_def split: option.splits prod.splits)
qed

lemma delete_ok:
  assumes "nm_ok st"
  shows "res_ok (cmd_delete env st rid n u)"
proof -
  obtain c where c: "lru_cache_invalidate n (nm_cache st) = Some c" "cache_ok (index_drop n (nm_file_index st)) c"
    using nm_ok_invalidate [OF assms] by blast
  have "index_ok (index_drop n (nm_file_index st))" using assms by (simp add: nm_ok_def index_drop_ok)
  with c assms show ?thesis
    by (cases rule: lookup_record_cases [OF assms, of n]) (simp_all add: cmd_delete_def nm_ok_def)
qed

lemma target_length: "json_get_string payload ''target_user'' MAX_USERNAME_LEN = Some u \<Longrightarrow> length u < MAX_USERNAME_LEN"
  by (rule json_get_string_bound) (auto simp: MAX_USERNAME_LEN_def)

lemma addaccess_ok:
  assumes "nm_ok st"
  shows "res_ok (cmd_addaccess env st rid payload n u)"
proof (cases rule: lookup_record_cases [OF assms, of n])
  case (2 p r)
  show ?thesis
  proof (cases "json_get_string payload ''target_user'' MAX_USERNAME_LEN")
    case (Some t)
    have "\<exists>st'. change_acl env st n p (file_record_add_acl t True (asks_write payload) r) = Some st' \<and> nm_ok st'"
      by (intro change_acl_ok [OF assms] record_ok_add_acl 2 target_length [OF Some])
    then obtain st' where "change_acl env st n p (file_record_add_acl t True (asks_write payload) r) = Some st'" "nm_ok st'"
      by blast
    with 2 Some assms show ?thesis by (simp add: cmd_addaccess_def)
  qed (use 2 assms in \<open>simp add: cmd_addaccess_def\<close>)
qed (use assms in \<open>simp add: cmd_addaccess_def\<close>)

lemma remaccess_ok:
  assumes "nm_ok st"
  shows "res_ok (cmd_remaccess env st rid payload n u)"
proof (cases rule: lookup_record_cases [OF assms, of n])
  case (2 p r)
  show ?thesis
  proof (cases "json_get_string payload ''target_user'' MAX_USERNAME_LEN")
    case (Some t)
    define q where "q = (case file_record_remove_acl t r of None \<Rightarrow> r | Some r' \<Rightarrow> r')"
    have "record_ok n q" using 2(4) by (auto simp: q_def dest: record_ok_remove_acl split: option.splits)
    then obtain st' where "change_acl env st n p q = Some st'" "nm_ok st'"
      using change_acl_ok [OF assms 2(2)] by blast
    with 2 Some assms show ?thesis by (simp add: cmd_remaccess_def q_def [symmetric])
  qed (use 2 assms in \<open>simp add: cmd_remaccess_def\<close>)
qed (use assms in \<open>simp add: cmd_remaccess_def\<close>)

lemma find_pending_cases:
  assumes "nm_ok st"
  obtains err where "find_pending env st rid payload n u m = Some (Inl err)"
  | t w p r rs i where "find_pending env st rid payload n u m = Some (Inr (t, w, p, r, rs, i))"
      and "length t < MAX_USERNAME_LEN" and "file_index_lookup (nm_file_index st) n = Some p"
      and "ix_heap (nm_file_index st) p = Some r" and "record_ok n r" and "fr_owner r = u"
      and "load_access_requests env (nm_data_dir st) n (nm_disk st) = Some rs"
      and "find_request_index rs t w = Some i"
      and "json_get_string payload ''target_user'' MAX_USERNAME_LEN = Some t"
      and "parse_access_mode (json_field payload ''mode'' 16 []) = Some w"
proof (cases rule: lookup_record_cases [OF assms, of n])
  case 1
  then have "\<exists>err. find_pending env st rid payload n u m = Some (Inl err)"
    unfolding find_pending_def by (simp split: option.split del: split_paired_Ex)
  then show thesis using that(1) by blast
next
  case (2 p r)
  show thesis
  proof (cases "\<exists>err. find_pending env st rid payload n u m = Some (Inl err)")
    case True
    then show thesis using that(1) by blast
  next
    case False
    then show thesis using that(2) [OF _ target_length 2(2-4)] 2(1) unfolding find_pending_def
      by (auto split: option.splits if_splits simp del: split_paired_Ex split_paired_All)
  qed
qed

lemma requestaccess_ok:
  assumes "nm_ok st"
  shows "res_ok (cmd_requestaccess env st rid payload n u)"
  using assms by (cases rule: lookup_record_cases [OF assms, of n])
    (simp_all add: cmd_requestaccess_def split: option.split prod.split)

lemma approverequest_ok:
  assumes "nm_ok st"
  shows "res_ok (cmd_approverequest env st rid payload n u)"
proof (cases rule: find_pending_cases [OF assms, of env rid payload n u "''Only the owner can approve requests''"])
  case (2 t w p r rs i)
  then obtain st' where "change_acl env st n p (file_record_add_acl t True w r) = Some st'" "nm_ok st'"
    using change_acl_ok [OF assms 2(3) record_ok_add_acl] by blast
  with 2(1) show ?thesis by (simp add: cmd_approverequest_def split: prod.split)
qed (use assms in \<open>simp add: cmd_approverequest_def\<close>)

lemma denyrequest_ok:
  assumes "nm_ok st"
  shows "res_ok (cmd_denyrequest env st rid payload n u)"
  using assms by (cases rule: find_pending_cases [OF assms, of env rid payload n u "''Only the owner can deny requests''"])
    (simp_all add: cmd_denyrequest_def split: prod.split)

section \<open>Listings\<close>

lemma request_rows_some [simp]: "request_rows env n as p \<noteq> None"
  by (induction as arbitrary: p) (auto simp: snprintf_at_def split: prod.split)

lemma owned_rows_some [simp]: "owned_rows env st u rs p \<noteq> None"
  by (induction rs arbitrary: p) (auto split: option.split)

lemma acl_rows_some [simp]: "acl_rows as p \<noteq> None"
  by (induction as arbitrary: p) (auto simp: snprintf_at_def split: prod.split)

lemma res_ok_map [simp]: "res_ok (map_option (\<lambda>(a, b). (st, g a b)) x) \<longleftrightarrow> x \<noteq> None \<and> nm_ok st"
  by (cases x) auto

lemma listrequests_ok:
  assumes "nm_ok st"
  shows "res_ok (cmd_listrequests env st rid n u)"
proof (cases "n = []")
  case False
  then show ?thesis using assms
    by (cases rule: lookup_record_cases [OF assms, of n])
      (simp_all add: cmd_listrequests_def split: option.split list.split del: request_rows.simps)
qed (use assms in \<open>simp add: cmd_listrequests_def\<close>)

lemma aclinfo_ok:
  assumes "nm_ok st"
  shows "res_ok (cmd_aclinfo st rid n u)"
  using assms by (cases rule: lookup_record_cases [OF assms, of n])
    (simp_all add: cmd_aclinfo_def snprintf_at_def)

lemma relay_state [simp]: "fst (relay env st rid r opc pl) = st"
  by (simp add: relay_def Let_def split: option.split prod.split)

lemma checked_relay_ok:
  assumes "nm_ok st"
  shows "res_ok (checked_relay env st rid n u w m opc pl)"
proof -
  have "res_ok (Some (relay env st rid r opc pl))" for r
    using assms relay_state [of env st rid r opc pl] by (metis prod.collapse res_ok_Some)
  then show ?thesis using assms
    by (cases rule: lookup_record_cases [OF assms, of n]) (simp_all add: checked_relay_def)
qed

lemma with_tag_ok: "nm_ok st \<Longrightarrow> (\<And>t. res_ok (go t)) \<Longrightarrow> res_ok (with_tag st rid payload n go)"
  by (simp add: with_tag_def split: option.split)

lemma checkpoints_ok:
  assumes "nm_ok st"
  shows "res_ok (cmd_checkpoint env st rid payload n u)" "res_ok (cmd_listcheckpoints env st rid n u)"
    "res_ok (cmd_viewcheckpoint env st rid payload n u)" "res_ok (cmd_revertcheckpoint env st rid payload n u)"
  unfolding cmd_checkpoint_def cmd_listcheckpoints_def cmd_viewcheckpoint_def cmd_revertcheckpoint_def
  using assms by (simp_all add: with_tag_ok checked_relay_ok)

lemma exec_ok:
  assumes "nm_ok st"
  shows "res_ok (cmd_exec env st rid n u)"
  using assms by (cases rule: lookup_record_cases [OF assms, of n]) (simp_all add: cmd_exec_def)

section \<open>Folders and moves\<close>

lemma createfolder_ok: "nm_ok st \<Longrightarrow> res_ok (handle_createfolder env st rid payload)"
  by (simp add: handle_createfolder_def)

lemma move_record_ok:
  assumes "index_ok ix" and "distinct (map ae_username (fr_acl r))" and "cache_ok (index_drop n ix) c"
  shows "index_ok (move_record now ss n m r ix) \<and> cache_ok (move_record now ss n m r ix) c"
proof -
  define jx where "jx = file_index_add now m (fit MAX_USERNAME_LEN (fr_owner r))
    (case fr_ss_ids r of [] \<Rightarrow> si_ss_id ss | i # _ \<Rightarrow> fit 128 i) (index_drop n ix)"
  define kx where "kx = fold (add_replica m) (map (fit 128) (drop 1 (fr_ss_ids r))) jx"
  have jx: "index_ok jx" "cache_ok jx c"
    unfolding jx_def using assms(1,3) by (simp_all add: index_drop_ok index_ok_add cache_ok_add)
  then have kx: "index_ok kx" "cache_ok kx c"
    unfolding kx_def using cache_ok_cong [of "fold (add_replica m) (map (fit 128) (drop 1 (fr_ss_ids r))) jx" jx c]
    by (simp_all add: add_replicas_keep)
  have eq: "fold (\<lambda>i x. case file_index_add_ss_replica m (fit 128 i) x of None \<Rightarrow> x | Some x' \<Rightarrow> x') (drop 1 (fr_ss_ids r)) jx = kx"
    by (simp add: kx_def fold_map comp_def add_replica_def [abs_def])
  have move: "move_record now ss n m r ix = (case file_index_lookup kx m of None \<Rightarrow> kx
      | Some p \<Rightarrow> update_record p (\<lambda>q. q\<lparr>fr_created_at := fr_created_at r, fr_modified_at := fr_modified_at r,
          fr_word_count := fr_word_count r, fr_char_count := fr_char_count r, fr_sentence_count := fr_sentence_count r,
          fr_acl := (if fr_acl r \<noteq> [] then fr_acl r else fr_acl q),
          fr_acl_capacity := (if fr_acl r \<noteq> [] then length (fr_acl r) else fr_acl_capacity q)\<rparr>) kx)"
    unfolding move_record_def Let_def jx_def [symmetric] eq by (rule refl)
  show ?thesis
  proof (cases "file_index_lookup kx m")
    case (Some p)
    have "index_ok (move_record now ss n m r ix)"
      unfolding move Some option.case by (rule index_ok_update [OF kx(1)]) (simp add: record_ok_def assms(2))
    moreover have "file_index_lookup (move_record now ss n m r ix) k = file_index_lookup kx k" for k
      unfolding move Some option.case by (rule update_record_lookup)
    ultimately show ?thesis using kx(2) cache_ok_cong by metis
  qed (use kx move in simp)
qed

lemma move_at_ok:
  assumes "nm_ok st" and "\<forall>r. record = Some r \<longrightarrow> distinct (map ae_username (fr_acl r))"
  shows "res_ok (move_at env st rid payload n folder record ss sent)"
proof -
  have "res_ok (map_option (\<lambda>st'. (st', out)) (apply_move env st ss n m r))" if r: "record = Some r" for m r out
  proof -
    obtain c1 where c1: "lru_cache_invalidate n (nm_cache st) = Some c1" "cache_ok (index_drop n (nm_file_index st)) c1"
      using nm_ok_invalidate [OF assms(1)] by blast
    obtain c2 where c2: "lru_cache_invalidate m c1 = Some c2" "cache_ok (index_drop n (nm_file_index st)) c2"
      using cache_ok_invalidate [OF c1(2)] by blast
    with c1 r move_record_ok [of "nm_file_index st" r n c2] assms show ?thesis
      by (simp add: apply_move_def Let_def nm_ok_def)
  qed
  then show ?thesis using assms(1) by (simp add: move_at_def Let_def split: option.split)
qed

lemma handle_move_ok:
  assumes "nm_ok st"
  shows "res_ok (handle_move env st rid payload)"
proof (cases "json_get_string payload ''filename'' MAX_FILENAME_LEN")
  case (Some n)
  show ?thesis
  proof (cases rule: lookup_record_cases [OF assms, of n])
    case 1
    with Some assms move_at_ok [OF assms] show ?thesis
      by (simp add: handle_move_def Let_def split: option.split prod.split)
  next
    case (2 p r)
    from 2(4) have "distinct (map ae_username (fr_acl r))" by (simp add: record_ok_def)
    with 2(1) Some assms move_at_ok [OF assms, of "Some r"] show ?thesis
      by (simp add: handle_move_def Let_def split: option.split prod.split)
  qed
qed (use assms in \<open>simp add: handle_move_def\<close>)

section \<open>Every message\<close>

text \<open>
  Three requests print a list without comparing the offset with the size of the buffer; the others
  stay within defined behaviour.
\<close>

definition unbounded_listing :: "message_header \<Rightarrow> string \<Rightarrow> bool" where
  "unbounded_listing h payload \<longleftrightarrow> opcode_of (mh_opcode h) = Some OP_VIEWFOLDER_REQUEST
     \<or> opcode_of (mh_opcode h) = Some OP_COMMAND_FORWARD
       \<and> (json_get_string payload ''command'' 64 = Some ''VIEW'' \<or> json_get_string payload ''command'' 64 = Some ''LIST'')"

lemma command_cases_ok:
  assumes "nm_ok st" and "json_get_string payload ''command'' 64 \<noteq> Some ''VIEW''"
    and "json_get_string payload ''command'' 64 \<noteq> Some ''LIST''"
  shows "res_ok (handle_command_forward env st rid payload)"
proof (cases "json_get_string payload ''command'' 64")
  case (Some c)
  note ok = create_ok [OF assms(1)] delete_ok [OF assms(1)] addaccess_ok [OF assms(1)] remaccess_ok [OF assms(1)]
    requestaccess_ok [OF assms(1)] listrequests_ok [OF assms(1)] approverequest_ok [OF assms(1)]
    denyrequest_ok [OF assms(1)] aclinfo_ok [OF assms(1)] checkpoints_ok [OF assms(1)] exec_ok [OF assms(1)]
  from assms(2,3) Some have v: "c = ''VIEW'' \<Longrightarrow> False" "c = ''LIST'' \<Longrightarrow> False" by blast+
  show ?thesis unfolding handle_command_forward_def Some option.case Let_def
    by (intro res_ok_if ok; (erule v [THEN FalseE] | simp only: res_ok_Some assms(1)))
qed (use assms(1) in \<open>simp add: handle_command_forward_def\<close>)

lemma listing_keeps:
  "cmd_view env st rid payload u = Some (st', out) \<Longrightarrow> st' = st"
  "cmd_list st rid = Some (st', out) \<Longrightarrow> st' = st"
  "handle_viewfolder env st rid payload = Some (st', out) \<Longrightarrow> st' = st"
  by (auto simp: cmd_view_def cmd_list_def handle_viewfolder_def Let_def split: if_splits option.splits)

lemma payload_ok:
  assumes "nm_ok st" and "\<not> unbounded_listing h payload"
  shows "res_ok (handle_payload env st fd h payload)"
  using assms unfolding handle_payload_def unbounded_listing_def
  by (auto simp: register_ss_ok register_client_ok heartbeat_ok lookup_ok command_cases_ok createfolder_ok handle_move_ok
      split: option.split protocol_opcode_t.split)

lemma payload_keeps:
  assumes "nm_ok st" and "handle_payload env st fd h payload = Some (st', out)"
  shows "nm_ok st'"
proof (cases "unbounded_listing h payload")
  case True
  then have "st' = st" using assms(2)
    by (auto simp: unbounded_listing_def handle_payload_def handle_command_forward_def Let_def
        dest: listing_keeps split: if_splits)
  with assms(1) show ?thesis by simp
next
  case False
  with payload_ok [OF assms(1), of h payload env fd] assms(2) show ?thesis by simp
qed

section \<open>Start and every run\<close>

lemma load_acl_line_ok: "record_ok n r \<Longrightarrow> record_ok n (load_acl_line owner line r)"
  by (auto simp: load_acl_line_def scan_not_def Let_def MAX_USERNAME_LEN_def intro!: record_ok_add_acl
      split: option.split)

lemma load_acl_ok: "record_ok n r \<Longrightarrow> record_ok n (load_acl owner text r)"
proof -
  have "record_ok n (fold (load_acl_line owner) ls r)" if "record_ok n r" for ls r
    using that by (induction ls arbitrary: r) (simp_all add: load_acl_line_ok)
  then show "record_ok n r \<Longrightarrow> record_ok n (load_acl owner text r)" by (simp add: load_acl_def)
qed

lemma load_registry_line_ok:
  assumes "nm_ok st"
  shows "nm_ok (load_registry_line env line st)"
proof -
  have ix: "index_ok (file_index_add now n u s (nm_file_index st))" for now n u s
    using assms by (simp add: nm_ok_def index_ok_add)
  have c: "cache_ok (file_index_add now n u s (nm_file_index st)) (nm_cache st)" for now n u s
    using assms by (simp add: nm_ok_def cache_ok_add)
  have ux: "index_ok (update_record p (load_acl u t) (file_index_add now n u s (nm_file_index st)))"
    "cache_ok (update_record p (load_acl u t) (file_index_add now n u s (nm_file_index st))) (nm_cache st)"
    for p t now n u s
    using index_ok_update [OF ix] load_acl_ok c cache_ok_cong [OF update_record_lookup] by auto
  show ?thesis unfolding load_registry_line_def Let_def
    using assms ix c ux by (auto simp: nm_ok_def split: option.split)
qed

lemma nm_empty_ok [simp]: "nm_ok (nm_empty dir d)"
  using cache_ok_init [of 128] by (simp add: nm_ok_def nm_empty_def index_ok_init lru_cache_init_def)

lemma start_ok: "nm_start env data_dir d = Some st \<Longrightarrow> nm_ok st"
proof -
  assume "nm_start env data_dir d = Some st"
  then obtain dir d' where st: "st = load_registry env (nm_empty dir d')" by (auto simp: nm_start_def Let_def)
  have "nm_ok (fold (load_registry_line env) ls q)" if "nm_ok q" for ls q
    using that by (induction ls arbitrary: q) (simp_all add: load_registry_line_ok)
  then show "nm_ok st" unfolding st load_registry_def by (auto split: sum.split)
qed

lemma connection_data_keeps:
  assumes "nm_ok st" and "handle_connection_data env st fd junk evs = Some (st', out)"
  shows "nm_ok st'"
  using assms payload_keeps [OF assms(1)]
  by (auto simp: handle_connection_data_def remove_connection_def split: option.splits prod.splits)

lemma reachable_ok: "nm_reachable data_dir d st \<Longrightarrow> nm_ok st"
  by (induction rule: nm_reachable.induct) (auto simp: start_ok add_connection_def intro: connection_data_keeps)

end
