(* ===== verification/Nm_Rights.thy ===== *)
theory Nm_Rights
  imports Nm_Invariant
begin

text \<open>
  Who may do what: the owner and the access list of a file as the index holds them, and which
  operations of the name server change them.
\<close>

section \<open>Owner and access list of a name\<close>

definition ix_record :: "file_index \<Rightarrow> string \<Rightarrow> file_record option" where
  "ix_record ix n = Option.bind (file_index_lookup ix n) (ix_heap ix)"

definition rights_of :: "file_record \<Rightarrow> string \<times> acl_entry list" where
  "rights_of r = (fr_owner r, fr_acl r)"

definition rights :: "nm_state \<Rightarrow> string \<Rightarrow> (string \<times> acl_entry list) option" where
  "rights st n = map_option rights_of (ix_record (nm_file_index st) n)"

lemma rights_fields [simp]:
  "rights (st\<lparr>nm_servers := a\<rparr>) = rights st" "rights (st\<lparr>nm_clients := b\<rparr>) = rights st"
  "rights (st\<lparr>nm_connections := c\<rparr>) = rights st" "rights (st\<lparr>nm_disk := d\<rparr>) = rights st"
  "rights (st\<lparr>nm_session_seq := e\<rparr>) = rights st" "rights (st\<lparr>nm_next_primary_index := f\<rparr>) = rights st"
  "rights (st\<lparr>nm_cache := g\<rparr>) = rights st" "rights (set_connection fd r i t st) = rights st"
  by (simp_all add: rights_def set_connection_def fun_eq_iff)

lemma ix_record_update:
  assumes "index_ok ix" and "file_index_lookup ix m = Some p"
  shows "ix_record (update_record p f ix) n = (if n = m then map_option f (ix_record ix n) else ix_record ix n)"
proof -
  have "ix_heap (update_record p f ix) = (ix_heap ix)(p := map_option f (ix_heap ix p))" by (simp add: update_record_def)
  then show ?thesis using assms index_ok_inj [OF assms(1), of n p m]
    by (cases "file_index_lookup ix n") (auto simp: ix_record_def update_record_lookup)
qed

lemma ix_record_add:
  assumes "index_ok ix"
  shows "ix_record (file_index_add now m u s ix) n =
    (if n = m then Some (add_ss_id s (case ix_record ix m of Some r \<Rightarrow> r | None \<Rightarrow> new_record now m u)) else ix_record ix n)"
proof (cases "file_index_lookup ix m")
  case (Some p)
  then have "file_index_add now m u s ix = update_record p (add_ss_id s) ix"
    by (simp add: file_index_add_def file_index_lookup_def)
  moreover obtain r where "ix_record ix m = Some r"
    using index_ok_lookup [OF assms Some] Some by (auto simp: ix_record_def)
  ultimately show ?thesis using ix_record_update [OF assms Some] by simp
next
  case None
  have "file_index_lookup ix k \<noteq> Some (ix_next ix)" for k using index_okD(4) [OF assms] by (metis less_irrefl)
  with None show ?thesis
    by (cases "file_index_lookup ix n")
      (auto simp: ix_record_def file_index_add_def file_index_lookup_def Let_def update_record_def trie_lookup_put)
qed

lemma ix_record_drop:
  assumes "index_ok ix"
  shows "ix_record (index_drop m ix) n = (if n = m then None else ix_record ix n)"
proof (cases "file_index_remove m ix")
  case None
  moreover from None have "file_index_lookup ix m = None" by (simp add: file_index_remove_None)
  ultimately show ?thesis by (auto simp: index_drop_def ix_record_def)
next
  case (Some jx)
  then obtain p where p: "file_index_lookup ix m = Some p" "ix_heap jx = (ix_heap ix)(p := None)"
    by (auto simp: file_index_remove_def file_index_lookup_def split: option.splits)
  have "file_index_lookup ix n \<noteq> Some p" if "n \<noteq> m" using that index_ok_inj [OF assms p(1)] by metis
  then show ?thesis using Some p
    by (cases "file_index_lookup ix n") (auto simp: index_drop_def ix_record_def file_index_lookup_remove [OF Some])
qed

lemma ix_record_replica:
  assumes "index_ok ix"
  shows "ix_record (add_replica m s ix) n = (if n = m then map_option (add_ss_id s) (ix_record ix n) else ix_record ix n)"
proof (cases "file_index_lookup ix m")
  case None
  then show ?thesis by (auto simp: add_replica_def file_index_add_ss_replica_def ix_record_def)
next
  case (Some p)
  obtain r where r: "ix_heap ix p = Some r" using index_ok_lookup [OF assms Some] .
  show ?thesis
  proof (cases "MAX_SS_PER_FILE \<le> length (fr_ss_ids r)")
    case True
    with Some r show ?thesis by (simp add: add_replica_def file_index_add_ss_replica_def ix_record_def add_ss_id_def)
  next
    case False
    with Some r have "add_replica m s ix = update_record p (add_ss_id s) ix"
      by (simp add: add_replica_def file_index_add_ss_replica_def)
    then show ?thesis by (simp add: ix_record_update [OF assms Some])
  qed
qed

lemma ix_record_replicas:
  "index_ok ix \<Longrightarrow> ix_record (fold (add_replica m) ss ix) n =
     (if n = m then map_option (fold add_ss_id ss) (ix_record ix n) else ix_record ix n)"
  by (induction ss arbitrary: ix) (simp_all add: ix_record_replica add_replica_keeps option.map_comp comp_def option.map_id)

lemma add_ss_ids:
  assumes "distinct (fr_ss_ids q @ ss)" and "list_all (\<lambda>i. length i < 128) ss" and "length (fr_ss_ids q @ ss) \<le> MAX_SS_PER_FILE"
  shows "fold add_ss_id ss q = q\<lparr>fr_ss_ids := fr_ss_ids q @ ss\<rparr>"
  using assms
proof (induction ss arbitrary: q)
  case (Cons s ss)
  then have "add_ss_id s q = q\<lparr>fr_ss_ids := fr_ss_ids q @ [s]\<rparr>" by (simp add: add_ss_id_def fit_id)
  with Cons show ?case by simp
qed simp

lemma ix_record_add_replica:
  assumes "index_ok ix"
  shows "map_option rights_of (ix_record (add_replica m s ix) n) = map_option rights_of (ix_record ix n)"
proof -
  have "rights_of (add_ss_id s r) = rights_of r" for r by (simp add: rights_of_def index_simps)
  then show ?thesis by (simp add: ix_record_replica [OF assms] option.map_comp comp_def)
qed

lemma rights_add:
  assumes "index_ok ix" and "ix_record ix n \<noteq> None"
  shows "map_option rights_of (ix_record (file_index_add now m u s ix) n) = map_option rights_of (ix_record ix n)"
  using assms(2) by (auto simp: ix_record_add [OF assms(1)] rights_of_def index_simps)

lemma rights_adds:
  assumes "index_ok ix" and "ix_record ix n \<noteq> None"
  shows "map_option rights_of (ix_record (fold (\<lambda>m. file_index_add now m u s) ms ix) n) = map_option rights_of (ix_record ix n)"
  using assms
proof (induction ms arbitrary: ix)
  case (Cons m ms)
  have "ix_record (file_index_add now m u s ix) n \<noteq> None"
    using Cons.prems by (auto simp: ix_record_add)
  with Cons show ?case by (simp add: index_ok_add rights_add)
qed simp

lemma rights_Some: "rights st n = Some x \<Longrightarrow> ix_record (nm_file_index st) n \<noteq> None"
  by (auto simp: rights_def)

section \<open>Only the owner's commands change them\<close>

definition keeps_rights :: "nm_state \<Rightarrow> string \<Rightarrow> nm_result \<Rightarrow> bool" where
  "keeps_rights st n res \<longleftrightarrow> (\<forall>st' out. res = Some (st', out) \<longrightarrow> rights st' n = rights st n)"

lemma keeps_simps [simp]:
  "keeps_rights st n (Some (st', out)) \<longleftrightarrow> rights st' n = rights st n" "keeps_rights st n None"
  by (simp_all add: keeps_rights_def)

lemma keeps_map [simp]: "keeps_rights st n (map_option (\<lambda>(a, b). (st, g a b)) x)"
  by (cases x) auto

lemma keeps_if: "(P \<Longrightarrow> keeps_rights st n a) \<Longrightarrow> (\<not> P \<Longrightarrow> keeps_rights st n b) \<Longrightarrow> keeps_rights st n (if P then a else b)"
  by simp

lemma rights_lookup:
  assumes "lookup_record st m = Some (p, Some r)"
  shows "rights st m = Some (fr_owner r, fr_acl r)"
  using assms by (auto simp: lookup_record_def rights_def ix_record_def rights_of_def)

lemma create_rights:
  assumes "nm_ok st" and "rights st n = Some x"
  shows "keeps_rights st n (cmd_create env st rid m u)"
proof -
  have "index_ok (nm_file_index st)" using assms(1) by (simp add: nm_ok_def)
  note add = index_ok_add [OF this] rights_add [OF this rights_Some [OF assms(2)]]
  have rep: "map_option rights_of (ix_record (add_replica m t (file_index_add now m u s (nm_file_index st))) n) =
      map_option rights_of (ix_record (nm_file_index st) n)" for t now s
    using ix_record_add_replica [OF add(1)] add(2) by simp
  show ?thesis unfolding cmd_create_def Let_def add_replica_def [symmetric]
    by (simp add: rights_def add(2) rep split: option.split prod.split)
qed

lemma change_acl_rights:
  assumes "nm_ok st" and "file_index_lookup (nm_file_index st) m = Some p" and "change_acl env st m p r = Some st'"
  shows "rights st' n = (if n = m then Some (rights_of r) else rights st n)"
proof -
  have ix: "index_ok (nm_file_index st)" using assms(1) by (simp add: nm_ok_def)
  obtain q where q: "ix_record (nm_file_index st) m = Some q"
    using index_ok_lookup [OF ix assms(2)] assms(2) by (auto simp: ix_record_def)
  show ?thesis using assms(3) q
    by (auto simp: change_acl_def rights_def ix_record_update [OF ix assms(2)] split: option.splits)
qed

lemma delete_rights:
  assumes "nm_ok st" and "rights st n = Some (owner, acl)" and "u \<noteq> owner"
  shows "keeps_rights st n (cmd_delete env st rid m u)"
proof -
  have ix: "index_ok (nm_file_index st)" using assms(1) by (simp add: nm_ok_def)
  show ?thesis
  proof (cases rule: lookup_record_cases [OF assms(1), of m])
    case (2 p r)
    from rights_lookup [OF 2(1)] assms(2,3) have "fr_owner r = u \<Longrightarrow> n \<noteq> m" by auto
    with 2(1) show ?thesis
      by (auto simp: cmd_delete_def rights_def ix_record_drop [OF ix] split: option.split)
  qed (simp add: cmd_delete_def)
qed

lemma addaccess_rights:
  assumes "nm_ok st" and "rights st n = Some (owner, acl)" and "u \<noteq> owner"
  shows "keeps_rights st n (cmd_addaccess env st rid payload m u)"
proof (cases rule: lookup_record_cases [OF assms(1), of m])
  case (2 p r)
  from rights_lookup [OF 2(1)] assms(2,3) have "fr_owner r = u \<Longrightarrow> n \<noteq> m" by auto
  with 2(1) show ?thesis
    by (simp add: cmd_addaccess_def keeps_rights_def change_acl_rights [OF assms(1) 2(2)] split: option.split)
qed (simp add: cmd_addaccess_def)

lemma remaccess_rights:
  assumes "nm_ok st" and "rights st n = Some (owner, acl)" and "u \<noteq> owner"
  shows "keeps_rights st n (cmd_remaccess env st rid payload m u)"
proof (cases rule: lookup_record_cases [OF assms(1), of m])
  case (2 p r)
  from rights_lookup [OF 2(1)] assms(2,3) have "fr_owner r = u \<Longrightarrow> n \<noteq> m" by auto
  with 2(1) show ?thesis
    by (simp add: cmd_remaccess_def keeps_rights_def change_acl_rights [OF assms(1) 2(2)] split: option.split)
qed (simp add: cmd_remaccess_def)

lemma approverequest_rights:
  assumes "nm_ok st" and "rights st n = Some (owner, acl)" and "u \<noteq> owner"
  shows "keeps_rights st n (cmd_approverequest env st rid payload m u)"
proof (cases rule: find_pending_cases [OF assms(1), of env rid payload m u "''Only the owner can approve requests''"])
  case (2 t w p r rs i)
  have "rights st m = Some (fr_owner r, fr_acl r)"
    using 2(3,4) by (simp add: rights_def ix_record_def rights_of_def)
  with assms(2,3) 2(6) have "n \<noteq> m" by auto
  with 2(1) show ?thesis
    by (auto simp: cmd_approverequest_def keeps_rights_def change_acl_rights [OF assms(1) 2(3)] split: option.splits prod.splits)
qed (simp add: cmd_approverequest_def)

lemma denyrequest_rights:
  assumes "nm_ok st"
  shows "keeps_rights st n (cmd_denyrequest env st rid payload m u)"
  by (cases rule: find_pending_cases [OF assms, of env rid payload m u "''Only the owner can deny requests''"])
    (simp_all add: cmd_denyrequest_def split: prod.split)

lemma requestaccess_rights: "keeps_rights st n (cmd_requestaccess env st rid payload m u)"
  by (simp add: cmd_requestaccess_def split: option.split prod.split)

text \<open>The other commands return the state they were given.\<close>

lemma checked_relay_rights: "keeps_rights st n (checked_relay env st rid m u w t opc pl)"
proof -
  have "keeps_rights st n (Some (relay env st rid r opc pl))" for r
    using relay_state [of env st rid r opc pl] by (metis keeps_simps(1) prod.collapse)
  then show ?thesis by (simp add: checked_relay_def split: option.split)
qed

lemma checkpoint_rights:
  "keeps_rights st n (cmd_checkpoint env st rid payload m u)" "keeps_rights st n (cmd_listcheckpoints env st rid m u)"
  "keeps_rights st n (cmd_viewcheckpoint env st rid payload m u)" "keeps_rights st n (cmd_revertcheckpoint env st rid payload m u)"
  unfolding cmd_checkpoint_def cmd_listcheckpoints_def cmd_viewcheckpoint_def cmd_revertcheckpoint_def with_tag_def
  by (simp_all add: checked_relay_rights split: option.split)

lemma reading_rights:
  "keeps_rights st n (cmd_aclinfo st rid m u)" "keeps_rights st n (cmd_exec env st rid m u)"
  by (simp_all add: cmd_aclinfo_def cmd_exec_def split: option.split)

lemma listing_rights:
  "keeps_rights st n (cmd_listrequests env st rid m u)" "keeps_rights st n (cmd_view env st rid payload u)"
  "keeps_rights st n (cmd_list st rid)"
  by (auto simp: cmd_listrequests_def cmd_view_def cmd_list_def keeps_rights_def split: option.split list.split)

lemma command_rights:
  assumes "nm_ok st" and "rights st n = Some (owner, acl)"
    and "json_field payload ''username'' MAX_USERNAME_LEN ''anonymous'' \<noteq> owner"
  shows "keeps_rights st n (handle_command_forward env st rid payload)"
proof (cases "json_get_string payload ''command'' 64")
  case (Some c)
  note k = create_rights [OF assms(1,2)] delete_rights [OF assms] addaccess_rights [OF assms] remaccess_rights [OF assms]
    requestaccess_rights approverequest_rights [OF assms] denyrequest_rights [OF assms(1)] checkpoint_rights
    reading_rights listing_rights
  show ?thesis unfolding handle_command_forward_def Some option.case Let_def
    by (intro keeps_if k; simp only: keeps_simps)
qed (simp add: handle_command_forward_def)

section \<open>A moved record\<close>

text \<open>What is copied from the old record to the new one.\<close>

definition moved :: "string \<Rightarrow> file_record \<Rightarrow> file_record" where
  "moved m r = r\<lparr>fr_filename := fit MAX_FILENAME_LEN m, fr_acl_capacity := length (fr_acl r)\<rparr>"

lemma move_record_record:
  assumes "index_ok ix" and "ix_record ix n = Some r" and "ix_record ix m = None" and "fr_ss_ids r \<noteq> []"
    and "record_ok n r" and "length (fr_owner r) < MAX_USERNAME_LEN"
    and "distinct (fr_ss_ids r)" and "list_all (\<lambda>i. length i < 128) (fr_ss_ids r)"
  shows "ix_record (move_record now ss n m r ix) k = (if k = n then None else if k = m then Some (moved m r) else ix_record ix k)"
proof -
  obtain i js where i: "fr_ss_ids r = i # js" using assms(4) by (cases "fr_ss_ids r") auto
  have nm: "n \<noteq> m" using assms(2,3) by auto
  define jx where "jx = file_index_add now m (fr_owner r) i (index_drop n ix)"
  define q where "q = add_ss_id i (new_record now m (fr_owner r))"
  have fits: "fit MAX_USERNAME_LEN (fr_owner r) = fr_owner r" "fit 128 i = i" "map (fit 128) js = js"
    using assms(6,8) i by (auto simp: fit_id list_all_iff intro!: map_idI)
  have jx: "index_ok jx" "ix_record jx l = (if l = n then None else if l = m then Some q else ix_record ix l)" for l
    using assms(1,3) nm by (auto simp: jx_def q_def index_ok_add index_drop_ok ix_record_add ix_record_drop)
  define kx where "kx = fold (add_replica m) js jx"
  have q: "fold add_ss_id js q = (new_record now m (fr_owner r))\<lparr>fr_ss_ids := fr_ss_ids r\<rparr>"
    using assms(5,7,8) fits i by (subst add_ss_ids) (auto simp: q_def add_ss_id_def new_record_def record_ok_def MAX_SS_PER_FILE_def)
  have kx: "index_ok kx" "ix_record kx l = (if l = n then None else if l = m then Some ((new_record now m (fr_owner r))\<lparr>fr_ss_ids := fr_ss_ids r\<rparr>)
      else ix_record ix l)" for l
    unfolding kx_def using jx by (simp_all add: add_replicas_keep ix_record_replicas q)
  obtain p where p: "file_index_lookup kx m = Some p"
    using kx(2) [of m] nm by (cases "file_index_lookup kx m") (auto simp: ix_record_def)
  have "fold (\<lambda>i x. case file_index_add_ss_replica m (fit 128 i) x of None \<Rightarrow> x | Some x' \<Rightarrow> x') js jx = kx"
    using fun_cong [OF fold_map [of "add_replica m" "fit 128" js], of jx] fits(3)
    by (simp add: kx_def comp_def add_replica_def [abs_def])
  then have "move_record now ss n m r ix = update_record p (\<lambda>q. q\<lparr>fr_created_at := fr_created_at r, fr_modified_at := fr_modified_at r,
      fr_word_count := fr_word_count r, fr_char_count := fr_char_count r, fr_sentence_count := fr_sentence_count r,
      fr_acl := (if fr_acl r \<noteq> [] then fr_acl r else fr_acl q),
      fr_acl_capacity := (if fr_acl r \<noteq> [] then length (fr_acl r) else fr_acl_capacity q)\<rparr>) kx"
    by (simp add: move_record_def Let_def i fits jx_def [symmetric] p)
  then show ?thesis using nm fits(1)
    by (simp add: ix_record_update [OF kx(1) p] kx(2) moved_def new_record_def)
qed

end
