(* ===== verification/Links.thy ===== *)
theory Links
  imports Nm_Rights Storage_Server
begin

text \<open>
  What passes between the programs: the storage server reads the fields the name server writes, and an
  exchange of the name server with a peer that answers gives this answer.
\<close>

section \<open>Fields\<close>

lemma ss_get_field:
  assumes "json_key key" and "\<forall>(k, x)\<in>set fs. plain k \<and> plain x \<and> k \<noteq> key \<and> x \<noteq> key" and "plain pre" and "plain v"
  shows "ss_json_get_string (pre @ json_fields (fs @ (key, v) # gs) rest) key n = Some (fit n v)"
proof -
  let ?h = "pre @ json_fields (fs @ (key, v) # gs) rest"
  have "strstr ?h ((DQ # key @ [DQ]) @ [CHR '':'', DQ]) = Some (json_fields ((key, v) # gs) rest)"
    by (rule strstr_longer [OF strstr_field [OF assms(1-3)]]) simp
  moreover have "fit 128 (DQ # key @ DQ # [CHR '':'', DQ]) = DQ # key @ DQ # [CHR '':'', DQ]"
    using assms(1) by (simp add: fit_id json_key_def)
  moreover note takeWhile_plain [OF assms(4)]
  moreover have "strchr (v @ DQ # r) DQ = Some (DQ # r)" for r
    using assms(4) by (simp add: strchr_append plain_def)
  ultimately show ?thesis by (simp add: ss_json_get_string_def Let_def)
qed

interpretation ss_fields: field_reader ss_json_get_string
  by unfold_locales (rule ss_get_field)

text \<open>A key behind string fields: neither the keys nor the values in front of it stop the search.\<close>

definition apart :: "string \<Rightarrow> (string \<times> string) list \<Rightarrow> bool" where
  "apart key fs \<longleftrightarrow> list_all (\<lambda>(k, v). plain k \<and> plain v \<and> k \<noteq> key \<and> v \<noteq> key) fs"

lemma apart_simps [simp]:
  "apart key []" "apart key ((k, v) # fs) \<longleftrightarrow> plain k \<and> plain v \<and> k \<noteq> key \<and> v \<noteq> key \<and> apart key fs"
  by (simp_all add: apart_def)

lemma strstr_behind:
  assumes "json_key key" and "fs \<noteq> []" and "apart key fs"
  shows "strstr (json_fields fs (CHR '','' # DQ # r)) (DQ # key @ [DQ]) = strstr (DQ # r) (DQ # key @ [DQ])"
  using assms(2,3)
proof (induction fs)
  case (Cons f fs)
  obtain k v where f: "f = (k, v)" by (cases f)
  have p: "plain k" "plain v" "k \<noteq> key" "v \<noteq> key" using Cons.prems by (simp_all add: f)
  obtain r' where r': "(if fs = [] then CHR '','' # DQ # r else CHR '','' # json_fields fs (CHR '','' # DQ # r)) = CHR '','' # DQ # r'"
    "strstr (DQ # r') (DQ # key @ [DQ]) = strstr (DQ # r) (DQ # key @ [DQ])"
  proof (cases "fs = []")
    case False
    then obtain r' where "json_fields fs (CHR '','' # DQ # r) = DQ # r'" by (cases fs) auto
    with that [of r'] Cons False show thesis by (simp add: f)
  qed (use that in simp)
  then show ?case using assms(1) p
    by (simp add: f strstr_token strstr_between json_key_def del: strstr.simps)
qed simp

lemma json_after_colon_behind:
  assumes "json_key key" and "fs \<noteq> []" and "apart key fs" and "plain pre"
  shows "json_after_colon (pre @ json_fields fs (CHR '','' # DQ # key @ DQ # CHR '':'' # r)) key
    = Some (dropWhile (\<lambda>c. c = SP \<or> c = TAB) r)"
proof -
  have "fit 128 (DQ # key @ [DQ]) = DQ # key @ [DQ]" using assms(1) by (simp add: json_key_def fit_id)
  moreover have "strstr (pre @ json_fields fs (CHR '','' # DQ # key @ DQ # CHR '':'' # r)) (DQ # key @ [DQ])
      = Some (DQ # key @ DQ # CHR '':'' # r)"
    using assms(4) strstr_behind [OF assms(1-3)]
    by (subst strstr_hd_absent [OF refl]) (auto simp: plain_def prefix_def intro!: strstr_prefix simp del: strstr.simps)
  ultimately show ?thesis by (simp add: json_after_colon_def Let_def)
qed

lemma show_nat_no_blank: "dropWhile (\<lambda>c. c = SP \<or> c = TAB) (show_nat n @ r) = show_nat n @ r"
  by (rule show_nat_Cons [of n]) (auto dest: is_digit_not_sign simp: is_space_def)

lemma json_get_uint_behind:
  assumes "json_key key" and "fs \<noteq> []" and "apart key fs" and "plain pre"
    and "n \<le> ULONG_MAX" and "r = [] \<or> \<not> is_digit (hd r)"
  shows "json_get_uint (pre @ json_fields fs (CHR '','' # DQ # key @ DQ # CHR '':'' # show_nat n @ r)) key = Some n"
proof -
  have "r \<noteq> show_nat n @ r" using show_nat_nonempty by simp
  then show ?thesis
    by (simp add: json_get_uint_def json_after_colon_behind [OF assms(1-4)] show_nat_no_blank strtoul_show_nat [OF assms(5,6)])
qed

lemma show_nat_chars: "SP \<notin> set (show_nat n)" "DQ \<notin> set (show_nat n)" "NUL \<notin> set (show_nat n)" "LF \<notin> set (show_nat n)"
  using show_nat_digits [of n] by (auto simp: is_digit_def)

text \<open>A number field in front does not hide a key.\<close>

lemma strstr_number:
  assumes "json_key key" and "plain k" and "k \<noteq> key"
  shows "strstr (DQ # k @ DQ # CHR '':'' # show_nat i @ CHR '','' # DQ # r) (DQ # key @ [DQ]) = strstr (DQ # r) (DQ # key @ [DQ])"
proof -
  let ?r = "CHR '':'' # show_nat i @ CHR '','' # DQ # r"
  have "plain key" "CHR '':'' \<notin> set key" using assms(1) by (simp_all add: json_key_def)
  then have "strstr (DQ # k @ DQ # ?r) (DQ # key @ [DQ]) = strstr (DQ # ?r) (DQ # key @ [DQ])"
    by (rule_tac strstr_token [OF _ assms(2,3)])
  also have "\<dots> = strstr ?r (DQ # key @ [DQ])"
    using \<open>CHR '':'' \<notin> set key\<close> by (intro strstr_not_here) (cases key; auto)
  also have "\<dots> = strstr (DQ # r) (DQ # key @ [DQ])"
    using strstr_hd_absent [OF refl, of DQ "CHR '':'' # show_nat i @ '',''" "DQ # r" "key @ [DQ]"] show_nat_chars(2) [of i]
    by (simp del: strstr.simps)
  finally show ?thesis .
qed

lemma ss_ulong_found:
  assumes "strstr j (DQ # key @ [DQ]) = Some (DQ # key @ DQ # CHR '':'' # show_nat i @ r)" and "length key < 124"
    and "i \<le> ULONG_MAX" and "r = [] \<or> \<not> is_digit (hd r)"
  shows "ss_json_get_ulong j key = i"
proof -
  have "strstr j ((DQ # key @ [DQ]) @ '':'') = Some (DQ # key @ DQ # CHR '':'' # show_nat i @ r)"
    by (rule strstr_longer [OF assms(1)]) simp
  moreover have "fit 128 (DQ # key @ DQ # '':'') = DQ # key @ DQ # '':''" using assms(2) by (simp add: fit_id)
  ultimately show ?thesis by (simp add: ss_json_get_ulong_def Let_def show_nat_no_blank strtoul_show_nat [OF assms(3,4)])
qed

lemma ss_field_found:
  assumes "strstr j (DQ # key @ [DQ]) = Some (DQ # key @ DQ # CHR '':'' # DQ # v @ DQ # r)" and "length key < 124"
    and "plain v" and "length v < n"
  shows "ss_field j key n dflt = v"
proof -
  have "strstr j ((DQ # key @ [DQ]) @ [CHR '':'', DQ]) = Some (DQ # key @ DQ # CHR '':'' # DQ # v @ DQ # r)"
    by (rule strstr_longer [OF assms(1)]) simp
  moreover have "fit 128 (DQ # key @ DQ # [CHR '':'', DQ]) = DQ # key @ DQ # [CHR '':'', DQ]" using assms(2) by (simp add: fit_id)
  moreover have "strchr (v @ DQ # r) DQ = Some (DQ # r)" using assms(3) by (simp add: strchr_append plain_def)
  ultimately show ?thesis using assms(4) by (simp add: ss_field_def ss_json_get_string_def Let_def takeWhile_plain [OF assms(3)] fit_id)
qed

section \<open>Exchanges\<close>

text \<open>A message as it arrives, in any fragmentation.\<close>

definition arrives :: "bool \<Rightarrow> protocol_opcode_t \<Rightarrow> u32 \<Rightarrow> string \<Rightarrow> recv_event list \<Rightarrow> bool" where
  "arrives big opcode request_id body evs \<longleftrightarrow> length body < 2 ^ 31 \<and> (\<exists>hb rest.
     protocol_encode_header big (Some (message_for (opcode_code opcode) request_id (Some body))) = Some hb
     \<and> stream evs = hb @ map byte_of_char body @ rest)"

lemma to_int32_small: "n < 2 ^ 31 \<Longrightarrow> to_int32 n = int n"
  by (simp add: to_int32_def)

lemma exchange_reply:
  assumes net: "ne_net env host port opcode payload = Some ([], revs)" and "length payload < 2 ^ 31"
    and "arrives big opc rid' body revs"
  shows "exchange_with env host port opcode rid payload = Some \<lparr>ex_send_header = int PROTOCOL_HEADER_SIZE,
    ex_send_payload = int (length payload), ex_recv_header = int PROTOCOL_HEADER_SIZE,
    ex_header = message_for (opcode_code opc) rid' (Some body), ex_recv_payload = int (length body), ex_payload = body\<rparr>"
proof -
  define m where "m = message_for (opcode_code opc) rid' (Some body)"
  from assms(3) obtain hb rest where hb: "protocol_encode_header big (Some m) = Some hb"
    and st: "stream revs = hb @ map byte_of_char body @ rest" and lb: "length body < 2 ^ 31"
    unfolding arrives_def m_def by blast
  have lhb: "length hb = PROTOCOL_HEADER_SIZE" using hb by (rule wire.enc_length)
  obtain qb where qb: "protocol_encode_header (ne_big env) (Some (message_for (opcode_code opcode) rid (Some payload))) = Some qb"
    using wire.enc_total by blast
  have lqb: "length qb = PROTOCOL_HEADER_SIZE" using qb by (rule wire.enc_length)
  have u: "unat (word_of_nat (length p) :: u32) = length p" if "length p < 2 ^ 31" for p :: string
    using that by (simp add: unat_of_nat take_bit_nat_eq_self)
  obtain revs1 where r1: "recv_all 3 PROTOCOL_HEADER_SIZE revs = (int PROTOCOL_HEADER_SIZE, hb, revs1)"
    and s1: "stream revs1 = map byte_of_char body @ rest"
    using recv_all_enough [of 3 PROTOCOL_HEADER_SIZE revs] st lhb by (auto simp: to_int32_small PROTOCOL_HEADER_SIZE_def)
  obtain revs2 where r2: "recv_all 3 (length body) revs1 = (int (length body), map byte_of_char body, revs2)"
    using recv_all_enough [of 3 "length body" revs1] s1 lb by (auto simp: to_int32_small)
  have dec: "protocol_decode_header (ne_big env) (Some hb) = Some m" using hb by (rule wire.dec_enc)
  have ml: "unat (mh_payload_len m) = length body" "unat (mh_payload_len (message_for (opcode_code opcode) rid (Some payload))) = length payload"
    by (simp_all add: m_def message_for_def u [OF lb] u [OF assms(2)])
  have sent: "send_all 3 qb [] = (int PROTOCOL_HEADER_SIZE, qb, [])" "send_all 3 (map byte_of_char payload) [] = (int (length payload), map byte_of_char payload, [])"
    using assms(2) lqb by (simp_all add: send_all_def to_int32_small PROTOCOL_HEADER_SIZE_def)
  have "map char_of_byte (map byte_of_char body) = body" by (simp add: map_idI)
  then show ?thesis unfolding exchange_with_def m_def [symmetric]
    by (simp add: net qb lqb lhb r1 r2 dec ml sent Let_def del: map_map)
qed

lemma error_reply_length: "0 < length (snd (error_reply m c)) \<and> length (snd (error_reply m c)) < 256"
  unfolding error_reply_def snd_conv by (simp add: length_fit) (simp add: fit_def)

lemma announced_length: "0 < length body \<Longrightarrow> length body < 256 \<Longrightarrow> 0 < (word_of_nat (length body) :: u32)"
  by (simp add: word_less_nat_alt unat_of_nat take_bit_nat_eq_self)

lemma arrives_whole:
  assumes "length body < 2 ^ 31"
  shows "arrives big opc rid body [RData (the (protocol_encode_header big (Some (message_for (opcode_code opc) rid (Some body)))) @ map byte_of_char body)]"
proof -
  obtain hb where hb: "protocol_encode_header big (Some (message_for (opcode_code opc) rid (Some body))) = Some hb"
    using wire.enc_total by blast
  then have "hb \<noteq> []" using wire.enc_length [OF hb] by (auto simp: PROTOCOL_HEADER_SIZE_def)
  with hb assms show ?thesis unfolding arrives_def by (intro conjI exI [of _ hb] exI [of _ "[]"]) simp_all
qed

end
