(* ===== verification/Nm_Properties.thy ===== *)
theory Nm_Properties
  imports Links Engine_Properties
begin

text \<open>
  The properties of the name server over all its messages: the invariant of every run, who may change
  the rights on a file, how a lookup is answered, and what survives a restart. The concrete instances
  use a server with the data directory \<open>n\<close> on a disk without faults.
\<close>

section \<open>A concrete name server\<close>

definition nm_env0 :: nm_env where
  "nm_env0 = \<lparr>ne_big = False, ne_now = 100, ne_io = io_fine, ne_fopen = (\<lambda>_. True), ne_written = (\<lambda>_ n. n),
     ne_net = (\<lambda>_ _ _ _. None), ne_popen = (\<lambda>_. None), ne_date = (\<lambda>_. [])\<rparr>"

definition nm_disk0 :: fs where
  "nm_disk0 = \<lparr>fs_cwd = [], fs_nodes = [([''n''], Dir), ([''n'', ''acl''], Dir), ([''n'', ''cache''], Dir),
     ([''n'', ''logs''], Dir), ([''n'', ''requests''], Dir)]\<rparr>"

text \<open>User \<open>u\<close> owns the file \<open>a\<close>, held by two live servers with different load; \<open>v\<close> is another user.\<close>

definition nm_server :: "string \<Rightarrow> u16 \<Rightarrow> u32 \<Rightarrow> storage_server_info" where
  "nm_server i port readers = \<lparr>si_ss_id = i, si_ip = ''h'', si_client_port = port, si_active_readers = readers,
     si_active_writers = 0, si_last_heartbeat = 100\<rparr>"

definition nm0 :: nm_state where
  "nm0 = (nm_empty ''n'' nm_disk0)\<lparr>nm_servers := [nm_server ''s'' 7 5, nm_server ''t'' 8 2],
     nm_clients := [\<lparr>ci_username = ''v'', ci_ip = [], ci_client_port = 0, ci_registered_at = 0\<rparr>],
     nm_file_index := file_index_add 100 ''a'' ''u'' ''t'' (file_index_add 100 ''a'' ''u'' ''s'' file_index_init)\<rparr>"

lemmas nm_eval = nm_env0_def nm_disk0_def io_fine_def resolve_def tokens_cons path_step_def node_at_def fs_put_def
  fs_del_def sys_stat_def sys_mkdir_def fit_def Let_def PATH_MAX_def write_path_def

lemma nm_start0: "nm_start nm_env0 ''n'' nm_disk0 = Some (nm_empty ''n'' nm_disk0)"
  by (simp add: nm_start_def prepare_directories_def nm_ensure_dir_def nm_eval load_registry_def fopen_read_def nm_empty_def)

lemma nm_empty0_reachable: "nm_reachable ''n'' nm_disk0 (nm_empty ''n'' nm_disk0)"
  by (rule nm_reachable.start [OF nm_start0])

lemma nm_ok0: "nm_ok nm0"
  using cache_ok_init [of 128]
  by (simp add: nm_ok_def nm0_def nm_empty_def index_ok_add index_ok_init lru_cache_init_def)

lemma nm0_record: "ix_record (nm_file_index nm0) ''a'' =
    Some (add_ss_id ''t'' (add_ss_id ''s'' (new_record 100 ''a'' ''u'')))"
  by (simp add: nm0_def ix_record_add index_ok_add index_ok_init)
    (simp add: ix_record_def file_index_lookup_def file_index_init_def)

section \<open>Every run\<close>



section \<open>Rights\<close>

lemma payload_rights:
  assumes "nm_ok st" and "rights st n = Some (owner, acl)"
    and "json_field payload ''username'' MAX_USERNAME_LEN ''anonymous'' \<noteq> owner"
    and "opcode_of (mh_opcode h) \<noteq> Some OP_MOVE_REQUEST"
  shows "keeps_rights st n (handle_payload env st fd h payload)"
proof -
  have ix: "index_ok (nm_file_index st)" using assms(1) by (simp add: nm_ok_def)
  have "keeps_rights st n (handle_register_ss env st fd rid payload)" for rid
    using rights_adds [OF ix rights_Some [OF assms(2)]]
    by (auto simp: handle_register_ss_def Let_def rights_def split: option.split)
  moreover have "keeps_rights st n (handle_register_client env st fd rid payload)"
    "keeps_rights st n (handle_heartbeat env st payload)" "keeps_rights st n (handle_lookup_file env st rid payload)"
    "keeps_rights st n (handle_createfolder env st rid payload)" "keeps_rights st n (handle_viewfolder env st rid payload)" for rid
    by (auto simp: handle_register_client_def handle_heartbeat_def handle_lookup_file_def handle_createfolder_def
        handle_viewfolder_def Let_def keeps_rights_def split: option.splits if_splits)
  ultimately show ?thesis using command_rights [OF assms(1-3)] assms(4)
    by (auto simp: handle_payload_def split: option.split protocol_opcode_t.split)
qed

text \<open>
  C4: Only its owner changes the rights on a file: whatever a message asks for, except moving a file, when it comes
  from another user (or from a storage server), the file stays in the index with its owner and its access list.
\<close>
theorem only_owner_changes_rights:
  assumes "nm_ok st" and "rights st n = Some (owner, acl)"
    and "json_field payload ''username'' MAX_USERNAME_LEN ''anonymous'' \<noteq> owner"
    and "opcode_of (mh_opcode h) \<noteq> Some OP_MOVE_REQUEST"
    and "handle_payload env st fd h payload = Some (st', out)"
  shows "rights st' n = Some (owner, acl)"
  using payload_rights [OF assms(1-4), of env fd] assms(2,5) by simp

definition delete_by_v :: string where
  "delete_by_v = ''{'' @ json_fields [(''command'', ''DELETE''), (''username'', ''v''), (''filename'', ''a'')] ''}''"

lemma delete_by_v_fields:
  "json_field delete_by_v ''username'' MAX_USERNAME_LEN ''anonymous'' = ''v''"
  "json_field delete_by_v ''filename'' MAX_FILENAME_LEN [] = ''a''"
  "json_get_string delete_by_v ''command'' 64 = Some ''DELETE''"
  by (code_simp, code_simp, code_simp)

lemma nm0_lookup: "\<exists>p. lookup_record nm0 ''a'' = Some (p, Some (add_ss_id ''t'' (add_ss_id ''s'' (new_record 100 ''a'' ''u''))))"
  using nm0_record by (cases "file_index_lookup (nm_file_index nm0) ''a''") (auto simp: lookup_record_def ix_record_def)

lemma nm0_rights: "rights nm0 ''a'' = Some (''u'', [])"
  by (simp add: rights_def nm0_record rights_of_def index_simps new_record_def fit_def MAX_USERNAME_LEN_def)

theorem only_owner_changes_rights_witness:
  "\<exists>out st'. handle_payload nm_env0 nm0 5 (message_for (opcode_code OP_COMMAND_FORWARD) 1 (Some delete_by_v)) delete_by_v = Some (st', out)
     \<and> rights st' ''a'' = Some (''u'', [])"
proof -
  define h where "h = message_for (opcode_code OP_COMMAND_FORWARD) 1 (Some delete_by_v)"
  have op: "opcode_of (mh_opcode h) = Some OP_COMMAND_FORWARD"
    by (simp add: h_def message_for_def del: opcode_code.simps)
  obtain st' out where r: "handle_payload nm_env0 nm0 5 h delete_by_v = Some (st', out)"
    using payload_ok [OF nm_ok0, of h delete_by_v nm_env0 5] op
    by (auto simp: res_ok_def unbounded_listing_def delete_by_v_fields)
  then show ?thesis
    using only_owner_changes_rights [OF nm_ok0 nm0_rights, of delete_by_v h nm_env0 5 st' out] op
    unfolding h_def [symmetric] by (auto simp: delete_by_v_fields)
qed

section \<open>Lookup\<close>

text \<open>The storage servers of a record that have sent a heartbeat in the last 15 seconds.\<close>

definition live_holder :: "time_t \<Rightarrow> nm_state \<Rightarrow> string \<Rightarrow> storage_server_info option" where
  "live_holder now st i = (case find_storage_server st i of
     None \<Rightarrow> None | Some s \<Rightarrow> if server_alive now s then Some s else None)"

definition live_holders :: "time_t \<Rightarrow> nm_state \<Rightarrow> file_record \<Rightarrow> storage_server_info list" where
  "live_holders now st r = List.map_filter (live_holder now st) (fr_ss_ids r)"

lemma best_loop_Cons:
  "best_loop now st (s # ids) i m b = (case live_holder now st s of
     None \<Rightarrow> best_loop now st ids (i + 1) m b
   | Some c \<Rightarrow> if server_load c < m then best_loop now st ids (i + 1) (server_load c) (Some i) else best_loop now st ids (i + 1) m b)"
  by (simp add: live_holder_def split: option.split)

lemma best_loop_spec:
  "(best_loop now st ids i m b = b \<and> (\<forall>s\<in>set (List.map_filter (live_holder now st) ids). m \<le> server_load s))
   \<or> (\<exists>k s. best_loop now st ids i m b = Some (i + k) \<and> k < length ids \<and> live_holder now st (ids ! k) = Some s
        \<and> server_load s < m \<and> (\<forall>t\<in>set (List.map_filter (live_holder now st) ids). server_load s \<le> server_load t))"
proof (induction ids arbitrary: i m b)
  case (Cons x ids)
  let ?L = "\<lambda>xs. set (List.map_filter (live_holder now st) xs)"
  have keep: ?case if same: "best_loop now st (x # ids) i m b = best_loop now st ids (i + 1) m b"
    and high: "\<And>c. live_holder now st x = Some c \<Longrightarrow> m \<le> server_load c"
    using Cons [of "i + 1" m b]
  proof (elim disjE exE conjE)
    assume "best_loop now st ids (i + 1) m b = b" "\<forall>s\<in>?L ids. m \<le> server_load s"
    with same high show ?thesis by (intro disjI1) (auto simp: List.map_filter_simps split: option.splits)
  next
    fix k s
    assume "best_loop now st ids (i + 1) m b = Some (i + 1 + k)" "k < length ids"
      "live_holder now st (ids ! k) = Some s" "server_load s < m" "\<forall>t\<in>?L ids. server_load s \<le> server_load t"
    with same high show ?thesis
      by (intro disjI2 exI [of _ "Suc k"] exI [of _ s])
        (auto simp: List.map_filter_simps split: option.splits intro: less_imp_le less_le_trans)
  qed
  show ?case
  proof (cases "\<exists>c. live_holder now st x = Some c \<and> server_load c < m")
    case False
    then show ?thesis by (intro keep) (auto simp: best_loop_Cons not_less simp del: best_loop.simps split: option.split)
  next
    case True
    then obtain c where c: "live_holder now st x = Some c" "server_load c < m" by blast
    then have step: "best_loop now st (x # ids) i m b = best_loop now st ids (i + 1) (server_load c) (Some i)"
      by (simp add: best_loop_Cons del: best_loop.simps)
    from Cons [of "i + 1" "server_load c" "Some i"] show ?thesis
    proof (elim disjE exE conjE)
      assume "best_loop now st ids (i + 1) (server_load c) (Some i) = Some i" "\<forall>s\<in>?L ids. server_load c \<le> server_load s"
      with c step show ?thesis by (intro disjI2 exI [of _ 0] exI [of _ c]) (simp add: List.map_filter_simps)
    next
      fix k s
      assume "best_loop now st ids (i + 1) (server_load c) (Some i) = Some (i + 1 + k)" "k < length ids"
        "live_holder now st (ids ! k) = Some s" "server_load s < server_load c" "\<forall>t\<in>?L ids. server_load s \<le> server_load t"
      with c step show ?thesis
        by (intro disjI2 exI [of _ "Suc k"] exI [of _ s]) (auto simp: List.map_filter_simps)
    qed
  qed
qed (simp add: List.map_filter_simps)

text \<open>What a lookup sends for a record.\<close>

definition lookup_reply :: "nm_env \<Rightarrow> nm_state \<Rightarrow> u32 \<Rightarrow> string \<Rightarrow> file_record \<Rightarrow> string \<Rightarrow> bool \<Rightarrow> nm_out \<Rightarrow> bool" where
  \<open>lookup_reply env st rid n r user write msg \<longleftrightarrow>
     (let live = live_holders (ne_now env) st r in
      if \<not> file_record_check_access r user write then msg = send_error rid ERR_NO_ACCESS ''Access denied''
      else if \<forall>s\<in>set live. server_load s = 0xFFFFFFFF then (\<exists>m. msg = send_error rid ERR_STORAGE_DOWN m)
      else (\<exists>s rest. s \<in> set live \<and> (\<forall>t\<in>set live. server_load s \<le> server_load t) \<and>
        msg = nm_send OP_LOOKUP_RESP rid (fit 2048 (''{'' @ json_fields [(''filename'', n), (''ss_ip'', si_ip s)]
          ('',"ss_port":'' @ show_nat (unat (si_client_port s)) @ '','' @ rest)))))\<close>

lemma u32_max_le: "0xFFFFFFFF \<le> (w :: u32) \<longleftrightarrow> w = 0xFFFFFFFF"
proof -
  have "(0xFFFFFFFF :: u32) = - 1" by simp
  then show ?thesis by (metis word_order.extremum word_order.extremum_unique)
qed

lemma map_filter_nth:
  assumes "k < length xs" and "f (xs ! k) = Some y"
  shows "y \<in> set (List.map_filter f xs)"
  using assms by (induction xs arbitrary: k) (auto simp: List.map_filter_simps nth_Cons split: nat.splits option.splits)

lemma lookup_replies:
  assumes "nm_ok st" and "json_get_string payload ''filename'' MAX_FILENAME_LEN = Some n"
    and "ix_record (nm_file_index st) n = Some r"
  shows "\<exists>c msg. handle_lookup_file env st rid payload = Some (st\<lparr>nm_cache := c\<rparr>, [msg])
    \<and> lookup_reply env st rid n r (json_field payload ''username'' MAX_USERNAME_LEN ''anonymous'') (wants_write payload) msg"
proof -
  have "length n < MAX_FILENAME_LEN" using assms(2) by (rule json_get_string_bound) (simp add: MAX_FILENAME_LEN_def)
  then obtain c where c: "lru_cache_get (ne_now env) (nm_file_index st) n (nm_cache st) =
      Some (c, file_index_lookup (nm_file_index st) n)" using nm_get_ok [OF assms(1)] by blast
  obtain p where p: "file_index_lookup (nm_file_index st) n = Some p" "ix_heap (nm_file_index st) p = Some r"
    using assms(3) by (cases "file_index_lookup (nm_file_index st) n") (auto simp: ix_record_def)
  define live where "live = live_holders (ne_now env) st r"
  consider (none) "best_loop (ne_now env) st (fr_ss_ids r) 0 0xFFFFFFFF None = None" "\<forall>s\<in>set live. server_load s = 0xFFFFFFFF"
    | (some) k s where "best_loop (ne_now env) st (fr_ss_ids r) 0 0xFFFFFFFF None = Some k" "s \<in> set live"
        "find_storage_server st (fr_ss_ids r ! k) = Some s" "server_load s < 0xFFFFFFFF" "\<forall>t\<in>set live. server_load s \<le> server_load t"
    using best_loop_spec [of "ne_now env" st "fr_ss_ids r" 0 "0xFFFFFFFF" None] unfolding u32_max_le add_0
  proof (elim disjE exE conjE)
    fix k s
    assume k: "best_loop (ne_now env) st (fr_ss_ids r) 0 0xFFFFFFFF None = Some k" "k < length (fr_ss_ids r)"
      "live_holder (ne_now env) st (fr_ss_ids r ! k) = Some s" "server_load s < 0xFFFFFFFF"
      "\<forall>t\<in>set (List.map_filter (live_holder (ne_now env) st) (fr_ss_ids r)). server_load s \<le> server_load t"
    from k(3) have "find_storage_server st (fr_ss_ids r ! k) = Some s"
      by (auto simp: live_holder_def split: option.splits if_splits)
    with k map_filter_nth [of k "fr_ss_ids r" "live_holder (ne_now env) st" s] that(2) show thesis by (simp add: live_def live_holders_def)
  qed (use that(1) in \<open>simp add: live_def live_holders_def\<close>)
  then show ?thesis
  proof cases
    case none
    then show ?thesis using assms(2) c p
      by (simp add: handle_lookup_file_def Let_def lookup_reply_def live_def [symmetric]) blast
  next
    case (some k s)
    from some(4,2) have n: "\<not> (\<forall>s\<in>set live. server_load s = 0xFFFFFFFF)" by (metis less_irrefl)
    from some(1) have "fr_ss_ids r \<noteq> []" by auto
    with some c p assms(2) n show ?thesis
      by (auto simp: handle_lookup_file_def Let_def lookup_reply_def live_def [symmetric])
  qed
qed

text \<open>
  C8: A lookup of a file that exists is answered with one message: a refusal when the user lacks the right; an
  error when no holder of the file is alive (or all count the highest load); and otherwise address
  and port of a storage server that holds the file, was heard of in the last 15 seconds and has the
  least load of all that do.
\<close>
theorem lookup_answer:
  assumes "nm_ok st" and "json_get_string payload ''filename'' MAX_FILENAME_LEN = Some n"
    and "ix_record (nm_file_index st) n = Some r"
  shows "\<exists>c msg. handle_lookup_file env st rid payload = Some (st\<lparr>nm_cache := c\<rparr>, [msg])
    \<and> lookup_reply env st rid n r (json_field payload ''username'' MAX_USERNAME_LEN ''anonymous'') (wants_write payload) msg"
  by (rule lookup_replies [OF assms])

text \<open>A read by the owner is sent to the second server, which has less load.\<close>

definition lookup_by_u :: string where
  "lookup_by_u = ''{'' @ json_fields [(''filename'', ''a''), (''username'', ''u''), (''operation'', ''read'')] ''}''"

lemma lookup_by_u_fields:
  "json_get_string lookup_by_u ''filename'' MAX_FILENAME_LEN = Some ''a''"
  "json_field lookup_by_u ''username'' MAX_USERNAME_LEN ''anonymous'' = ''u''" "\<not> wants_write lookup_by_u"
  by (code_simp, code_simp, code_simp)

lemma nm0_live: "live_holders 100 nm0 (add_ss_id ''t'' (add_ss_id ''s'' (new_record 100 ''a'' ''u''))) =
    [nm_server ''s'' 7 5, nm_server ''t'' 8 2]"
  by (simp add: live_holders_def live_holder_def find_storage_server_def nm0_def nm_server_def server_alive_def
      add_ss_id_def new_record_def MAX_SS_PER_FILE_def List.map_filter_simps fit_def)

theorem lookup_answer_witness:
  "\<exists>c rest. handle_lookup_file nm_env0 nm0 1 lookup_by_u = Some (nm0\<lparr>nm_cache := c\<rparr>, [nm_send OP_LOOKUP_RESP 1 (fit 2048 (''{'' @
     json_fields [(''filename'', ''a''), (''ss_ip'', ''h'')] (CHR '','' # DQ # ''ss_port'' @ DQ # '':'' @ show_nat 8 @ '','' @ rest)))])"
proof -
  obtain c msg where m: "handle_lookup_file nm_env0 nm0 1 lookup_by_u = Some (nm0\<lparr>nm_cache := c\<rparr>, [msg])"
    "lookup_reply nm_env0 nm0 1 ''a'' (add_ss_id ''t'' (add_ss_id ''s'' (new_record 100 ''a'' ''u''))) ''u'' False msg"
    using lookup_answer [OF nm_ok0 lookup_by_u_fields(1) nm0_record, of nm_env0 1] by (auto simp: lookup_by_u_fields)
  have now: "ne_now nm_env0 = 100" by (simp add: nm_env0_def)
  have "file_record_check_access (add_ss_id ''t'' (add_ss_id ''s'' (new_record 100 ''a'' ''u''))) ''u'' False"
    by (simp add: file_record_check_access_def index_simps new_record_def fit_def MAX_USERNAME_LEN_def)
  then show ?thesis using m
    by (auto simp: lookup_reply_def now nm0_live nm_server_def server_load_def)
qed

section \<open>What is saved is read back\<close>

text \<open>The surroundings write a file completely and can open it again.\<close>

definition stores :: "nm_env \<Rightarrow> string \<Rightarrow> bool" where
  "stores env path \<longleftrightarrow> ne_fopen env path \<and> (\<forall>n. ne_written env path n = n)"

lemma write_read:
  assumes "stores env path" and "fopen_write env path t d = Some d'"
  shows "fopen_read env path d' = Inr t"
proof -
  from assms obtain p where p: "resolve d path = Inr p" "node_at d p \<noteq> Some Dir" "d' = fs_put p (Reg t) d"
    by (auto simp: fopen_write_def stores_def split: sum.splits if_splits)
  from p(2) have "p \<noteq> []" by auto
  then have n: "node_at d' q = (if q = p then Some (Reg t) else node_at d q)" for q
    using p(3) by (simp add: node_at_put)
  have "resolve d' path = Inr p"
    by (rule resolve_mono [OF _ _ p(1)]) (use n p in auto)
  then show ?thesis using assms(1) n by (simp add: fopen_read_def stores_def sys_stat_def)
qed

lemma saved_requests:
  assumes "save_access_requests env data_dir n rs d = (True, d')" and "list_all request_ok rs"
    and "ns_requests_path PATH_MAX data_dir n = Some path" and "stores env path"
  shows "load_access_requests env data_dir n d' = Some rs"
proof -
  from assms(1,3) have "\<exists>d1. fopen_write env path (concat (map request_line rs)) d1 = Some d'"
    by (auto simp: save_access_requests_def Let_def split: option.splits)
  with write_read [OF assms(4)] have "fopen_read env path d' = Inr (concat (map request_line rs))" by blast
  then show ?thesis using assms(3) requests_text_roundtrip [OF assms(2)] by (simp add: load_access_requests_def)
qed

text \<open>
  C33: Pending access requests that were stored are loaded again exactly as they were, in order, for user names without
  line breaks and the separators of the format.
\<close>
theorem requests_survive:
  assumes "save_access_requests env data_dir n rs d = (True, d')" and "list_all request_ok rs"
    and "ns_requests_path PATH_MAX data_dir n = Some path" and "stores env path"
  shows "load_access_requests env data_dir n d' = Some rs"
  by (rule saved_requests [OF assms])

definition request_v :: access_request where
  "request_v = \<lparr>ar_username = ''v'', ar_can_write = True, ar_requested_at = 90\<rparr>"

lemma nm_paths0: "ns_requests_path PATH_MAX ''n'' ''a'' = Some ''n/requests/a.requests.json''" "ns_acl_path PATH_MAX ''n'' ''a'' = Some ''n/acl/a.acl.json''"
  by (simp_all add: ns_requests_path_def ns_acl_path_def write_path_def PATH_MAX_def)

lemma nm_stores0: "stores nm_env0 path"
  by (simp add: stores_def nm_env0_def)

lemma nm_saved0: "\<exists>d'. save_access_requests nm_env0 ''n'' ''a'' [request_v] nm_disk0 = (True, d')"
  unfolding save_access_requests_def nm_paths0
  by (simp add: ensure_parent_dirs_def strrchr_def slash_prefixes_def ignore_mkdir_def fopen_write_def nm_eval upt_rec)

lemma request_v_ok: "list_all request_ok [request_v]"
  by (simp add: request_v_def request_ok_def file_user_def LLONG_MAX_def)

theorem requests_survive_witness:
  "\<exists>d'. save_access_requests nm_env0 ''n'' ''a'' [request_v] nm_disk0 = (True, d')
     \<and> load_access_requests nm_env0 ''n'' ''a'' d' = Some [request_v]"
  using nm_saved0 requests_survive [OF _ request_v_ok nm_paths0(1) nm_stores0] by blast

section \<open>Requests for access\<close>

lemma pending_found:
  assumes "nm_ok st" and "n \<noteq> []" and "ix_record (nm_file_index st) n = Some r"
    and "json_get_string payload ''target_user'' MAX_USERNAME_LEN = Some t"
    and "parse_access_mode (json_field payload ''mode'' 16 []) = Some w"
    and "load_access_requests env (nm_data_dir st) n (nm_disk st) = Some rs" and "find_request_index rs t w = Some i"
  obtains p where "file_index_lookup (nm_file_index st) n = Some p" and "record_ok n r"
    and "find_pending env st rid payload n (fr_owner r) m = Some (Inr (t, w, p, r, rs, i))"
proof (cases rule: lookup_record_cases [OF assms(1), of n])
  case (2 p q)
  then have "q = r" using assms(3) by (simp add: ix_record_def)
  with 2 assms that show thesis by (simp add: find_pending_def)
qed (use assms(3) in \<open>auto simp: lookup_record_def ix_record_def\<close>)


definition approve_v :: string where
  "approve_v = ''{'' @ json_fields [(''command'', ''APPROVEREQUEST''), (''target_user'', ''v''), (''mode'', ''write'')] ''}''"

lemma approve_v_fields:
  "json_get_string approve_v ''target_user'' MAX_USERNAME_LEN = Some ''v''"
  "parse_access_mode (json_field approve_v ''mode'' 16 []) = Some True"
  by (code_simp, code_simp)


section \<open>Restart\<close>

text \<open>
  Values that the registry can hold: no quotes, within the buffers, and not one of the
  keys that are searched for behind them.
\<close>

definition entry_ok :: "time_t \<Rightarrow> string \<Rightarrow> string \<Rightarrow> string \<Rightarrow> string \<Rightarrow> bool" where
  "entry_ok now n owner s1 s2 \<longleftrightarrow> plain n \<and> plain owner \<and> plain s1 \<and> length n < 256 \<and> length owner < 128 \<and> length s1 < 128
     \<and> length s2 < 128 \<and> n \<notin> {''owner'', ''ss_id''} \<and> owner \<noteq> ''ss_id'' \<and> 0 \<le> now \<and> now \<le> LLONG_MAX"

lemma show_time_length: "0 \<le> now \<Longrightarrow> now \<le> LLONG_MAX \<Longrightarrow> length (show_int now) \<le> 19"
  using show_nat_length [of "nat now" 19] by (simp add: show_int_def LLONG_MAX_def)

abbreviation entry_fields :: "string \<Rightarrow> string \<Rightarrow> string \<Rightarrow> string \<Rightarrow> (string \<times> string) list" where
  "entry_fields n owner s1 s2 \<equiv> [(''type'', ''FILE_CREATE''), (''filename'', n), (''owner'', owner), (''ss_id'', s1), (''replica_ss_id'', s2)]"

lemma file_entry_text:
  assumes "entry_ok now n owner s1 s2"
  shows "\<exists>rest. file_entry now n owner s1 s2 = ''{'' @ json_fields (entry_fields n owner s1 s2) rest"
proof -
  have "length (show_int now) \<le> 19" using assms by (simp add: entry_ok_def show_time_length)
  with assms show ?thesis unfolding file_entry_def by (intro fit_fields) (simp add: entry_ok_def)
qed

lemma file_entry_fields:
  assumes "entry_ok now n owner s1 s2"
  shows "contains (file_entry now n owner s1 s2 @ [LF]) (DQ # ''type'' @ DQ # CHR '':'' # DQ # ''FILE_CREATE'' @ [DQ])"
    and "json_get_string (file_entry now n owner s1 s2 @ [LF]) ''filename'' 256 = Some n"
    and "json_get_string (file_entry now n owner s1 s2 @ [LF]) ''owner'' 128 = Some owner"
    and "json_get_string (file_entry now n owner s1 s2 @ [LF]) ''ss_id'' 128 = Some s1"
proof -
  obtain rest where "file_entry now n owner s1 s2 = ''{'' @ json_fields (entry_fields n owner s1 s2) rest"
    using file_entry_text [OF assms] ..
  then have rest: "file_entry now n owner s1 s2 @ [LF] = ''{'' @ json_fields (entry_fields n owner s1 s2) (rest @ [LF])"
    by (simp only: append_assoc json_fields_append)
  note e = assms [unfolded entry_ok_def]
  have key: "json_key ''filename''" "json_key ''owner''" "json_key ''ss_id''" "plain ''{''"
    by (simp_all add: json_key_def plain_def)
  show "contains (file_entry now n owner s1 s2 @ [LF]) (DQ # ''type'' @ DQ # CHR '':'' # DQ # ''FILE_CREATE'' @ [DQ])"
    unfolding contains_def strstr_None not_not rest sublist_def
    by (intro exI [of _ "''{''"] exI [of _ "CHR '','' # json_fields (tl (entry_fields n owner s1 s2)) (rest @ [LF])"]) simp
  have get: "json_get_string (file_entry now n owner s1 s2 @ [LF]) key len = Some (fit len v)"
    if "json_key key" "entry_fields n owner s1 s2 ! i = (key, v)" "i < 5" "plain v"
      "\<forall>(k, x)\<in>set (take i (entry_fields n owner s1 s2)). plain k \<and> plain x \<and> k \<noteq> key \<and> x \<noteq> key" for i key v len
    unfolding rest using that by (intro nm_fields.get_nth) (auto simp: plain_def)
  show "json_get_string (file_entry now n owner s1 s2 @ [LF]) ''filename'' 256 = Some n"
    using get [OF key(1), of 1 n 256] e by (simp add: plain_def fit_id)
  show "json_get_string (file_entry now n owner s1 s2 @ [LF]) ''owner'' 128 = Some owner"
    using get [OF key(2), of 2 owner 128] e by (simp add: plain_def fit_id)
  show "json_get_string (file_entry now n owner s1 s2 @ [LF]) ''ss_id'' 128 = Some s1"
    using get [OF key(3), of 3 s1 128] e by (simp add: plain_def fit_id)
qed

lemma load_acl_fields: "fr_owner (load_acl ow t r) = fr_owner r \<and> fr_ss_ids (load_acl ow t r) = fr_ss_ids r"
proof -
  have "fr_owner (load_acl_line ow l r) = fr_owner r \<and> fr_ss_ids (load_acl_line ow l r) = fr_ss_ids r" for l r
    by (simp add: load_acl_line_def file_record_add_acl_def split: option.split)
  then have "fr_owner (fold (load_acl_line ow) ls r) = fr_owner r \<and> fr_ss_ids (fold (load_acl_line ow) ls r) = fr_ss_ids r" for ls r
    by (induction ls arbitrary: r) simp_all
  then show ?thesis by (simp add: load_acl_def)
qed

text \<open>
  C9: Rights survive a restart: when the access list of a file was saved, a server that starts on
  this disk and meets the registry line with which the file was created has the file again, with its owner and its
  first storage server (and no other), and grants every user what was granted before.
\<close>
theorem restart_keeps_rights:
  assumes "persist_acl_file env (nm_data_dir st) r d = (True, nm_disk st)" and "acl_ok r"
    and "ns_acl_path PATH_MAX (nm_data_dir st) (fr_filename r) = Some path" and "stores env path"
    and "entry_ok now (fr_filename r) (fr_owner r) s1 s2"
    and "index_ok (nm_file_index st)" and "ix_record (nm_file_index st) (fr_filename r) = None"
  shows "\<exists>q. ix_record (nm_file_index (load_registry_line env (file_entry now (fr_filename r) (fr_owner r) s1 s2 @ [LF]) st)) (fr_filename r) = Some q
    \<and> fr_owner q = fr_owner r \<and> fr_ss_ids q = [s1]
    \<and> (\<forall>u w. file_record_check_access q u w = file_record_check_access r u w)"
proof -
  define ix where "ix = file_index_add (ne_now env) (fr_filename r) (fr_owner r) s1 (nm_file_index st)"
  define q where "q = add_ss_id s1 (new_record (ne_now env) (fr_filename r) (fr_owner r))"
  have q: "fr_owner q = fr_owner r" "fr_acl q = []" "fr_ss_ids q = [s1]"
    using assms(5) by (simp_all add: q_def index_simps new_record_def add_ss_id_def entry_ok_def fit_id MAX_USERNAME_LEN_def MAX_SS_PER_FILE_def)
  have ix: "index_ok ix" "ix_record ix (fr_filename r) = Some q"
    using assms(6,7) by (simp_all add: ix_def q_def index_ok_add ix_record_add)
  then obtain p where p: "file_index_lookup ix (fr_filename r) = Some p"
    by (cases "file_index_lookup ix (fr_filename r)") (auto simp: ix_record_def)
  from assms(1,3) have "\<exists>d1. fopen_write env path (acl_text r) d1 = Some (nm_disk st)"
    by (auto simp: persist_acl_file_def Let_def split: option.splits)
  with write_read [OF assms(4)] have acl: "fopen_read env path (nm_disk st) = Inr (acl_text r)" by blast
  have "nm_file_index (load_registry_line env (file_entry now (fr_filename r) (fr_owner r) s1 s2 @ [LF]) st)
      = update_record p (load_acl (fr_owner r) (acl_text r)) ix"
    using file_entry_fields [OF assms(5)] assms(3) acl p unfolding load_registry_line_def
    by (simp add: ix_def Let_def del: strstr.simps)
  then have "ix_record (nm_file_index (load_registry_line env (file_entry now (fr_filename r) (fr_owner r) s1 s2 @ [LF]) st)) (fr_filename r)
      = Some (load_acl (fr_owner r) (acl_text r) q)"
    using ix by (simp add: ix_record_update [OF ix(1) p])
  then show ?thesis using reload_access [OF assms(2) q(2,1)] load_acl_fields q by auto
qed

definition record_a :: file_record where
  "record_a = file_record_add_acl ''v'' True False (new_record 0 ''a'' ''u'')"

theorem restart_keeps_rights_witness:
  "\<exists>d q. persist_acl_file nm_env0 ''n'' record_a nm_disk0 = (True, d)
     \<and> ix_record (nm_file_index (load_registry_line nm_env0 (file_entry 0 ''a'' ''u'' ''s'' [] @ [LF]) (nm_empty ''n'' d))) ''a'' = Some q
     \<and> file_record_check_access q ''v'' False \<and> \<not> file_record_check_access q ''v'' True"
proof -
  have r: "fr_filename record_a = ''a''" "fr_owner record_a = ''u''" "fr_acl record_a = [\<lparr>ae_username = ''v'', ae_can_read = True, ae_can_write = False\<rparr>]"
    by (simp_all add: record_a_def file_record_add_acl_def new_record_def fit_def MAX_FILENAME_LEN_def MAX_USERNAME_LEN_def)
  have "\<exists>d. persist_acl_file nm_env0 ''n'' record_a nm_disk0 = (True, d)"
    unfolding persist_acl_file_def r nm_paths0
    by (simp add: ensure_parent_dirs_def strrchr_def slash_prefixes_def ignore_mkdir_def fopen_write_def nm_eval upt_rec)
  then obtain d where d: "persist_acl_file nm_env0 ''n'' record_a nm_disk0 = (True, d)" ..
  have e: "nm_data_dir (nm_empty ''n'' d) = ''n''" "nm_disk (nm_empty ''n'' d) = d" "nm_file_index (nm_empty ''n'' d) = file_index_init"
    by (simp_all add: nm_empty_def)
  have ok: "acl_ok record_a" "entry_ok 0 ''a'' ''u'' ''s'' []"
    by (simp_all add: acl_ok_def r file_user_def entry_ok_def plain_def LLONG_MAX_def)
  have none: "ix_record file_index_init ''a'' = None"
    by (simp add: ix_record_def file_index_lookup_def file_index_init_def)
  obtain q where "ix_record (nm_file_index (load_registry_line nm_env0 (file_entry 0 ''a'' ''u'' ''s'' [] @ [LF]) (nm_empty ''n'' d))) ''a'' = Some q"
    "\<forall>u w. file_record_check_access q u w = file_record_check_access record_a u w"
    using restart_keeps_rights [of nm_env0 "nm_empty ''n'' d" record_a nm_disk0 "''n/acl/a.acl.json''" 0 "''s''" "[]"]
      d ok none nm_paths0(2) nm_stores0 index_ok_init unfolding e r by blast
  with d show ?thesis by (auto simp: file_record_check_access_def file_record_find_acl_def r)
qed

section \<open>Choice of storage servers\<close>

text \<open>The choices of successive creations while the same servers are alive.\<close>

fun pick_all :: "storage_server_info list \<Rightarrow> u32 \<Rightarrow> nat \<Rightarrow> (storage_server_info \<times> storage_server_info option) list" where
  "pick_all active idx 0 = []"
| "pick_all active idx (Suc k) = (case pick_servers active idx of (p, r, idx') \<Rightarrow> (p, r) # pick_all active idx' k)"

lemma pick_all_turns:
  "1 < length active \<Longrightarrow> j + 2 * k < 2 ^ 32 \<Longrightarrow> pick_all active (word_of_nat j) k =
     map (\<lambda>i. (active ! ((j + 2 * i) mod length active), Some (active ! ((j + 2 * i + 1) mod length active)))) [0..<k]"
proof (induction k arbitrary: j)
  case (Suc k)
  have u: "unat (word_of_nat m :: u32) = m" if "m < 2 ^ 32" for m
    using that by (simp add: unat_of_nat take_bit_nat_eq_self)
  have "unat (word_of_nat j :: u32) = j" "unat (word_of_nat (j + 1) :: u32) = j + 1"
    using Suc.prems(2) by (intro u; simp)+
  moreover have "(word_of_nat j :: u32) + 1 = word_of_nat (j + 1)" "(word_of_nat j :: u32) + 1 + 1 = word_of_nat (j + 2)" by simp_all
  ultimately have "pick_servers active (word_of_nat j) = (active ! (j mod length active), Some (active ! ((j + 1) mod length active)), word_of_nat (j + 2))"
    using Suc.prems(1) by (simp only: pick_servers_def Let_def if_True)
  moreover have "pick_all active (word_of_nat (j + 2)) k =
      map (\<lambda>i. (active ! ((j + 2 * Suc i) mod length active), Some (active ! ((j + 2 * Suc i + 1) mod length active)))) [0..<k]"
    using Suc.IH [of "j + 2"] Suc.prems by simp
  ultimately show ?case
    by (simp add: upt_conv_Cons map_Suc_upt [symmetric] comp_def del: upt_Suc of_nat_add)
qed simp



section \<open>Listing the users\<close>

text \<open>
  C35: LIST leaves its 2048-byte buffer exactly when the lines before the last already need more than that: each user takes
  the length of the name and five bytes more, so that up to sixteen users are always listed safely.
\<close>
theorem list_users_bound:
  "(cmd_list st rid = None \<longleftrightarrow> 2048 < sum_list (map (\<lambda>c. length (ci_username c) + 5) (butlast (nm_clients st))))
   \<and> (list_all (\<lambda>c. length (ci_username c) < 128) (nm_clients st) \<longrightarrow> length (nm_clients st) \<le> 16 \<longrightarrow> cmd_list st rid \<noteq> None)"
proof -
  have rows: "list_rows cs (b, n) = None \<longleftrightarrow> cs \<noteq> [] \<and> 2048 < n + sum_list (map (\<lambda>c. length (ci_username c) + 5) (butlast cs))" for cs b n
    by (induction cs arbitrary: b n) (auto simp: snprintf_at_def ac_simps)
  have "sum_list (map (\<lambda>c. length (ci_username c) + 5) cs) \<le> 132 * length cs"
    if "list_all (\<lambda>c. length (ci_username c) < 128) cs" for cs
    using that by (induction cs) auto
  from this [of "butlast (nm_clients st)"]
  have "sum_list (map (\<lambda>c. length (ci_username c) + 5) (butlast (nm_clients st))) \<le> 132 * (length (nm_clients st) - 1)"
    if "list_all (\<lambda>c. length (ci_username c) < 128) (nm_clients st)"
    using that by (simp add: list_all_iff in_set_butlastD)
  then have "sum_list (map (\<lambda>c. length (ci_username c) + 5) (butlast (nm_clients st))) \<le> 2048"
    if "list_all (\<lambda>c. length (ci_username c) < 128) (nm_clients st)" "length (nm_clients st) \<le> 16"
    using that by fastforce
  then show ?thesis using rows [of "nm_clients st" "[]" 0] by (auto simp: cmd_list_def)
qed

theorem list_users_bound_witness:
  "cmd_list (nm0\<lparr>nm_clients := replicate 17 \<lparr>ci_username = replicate 127 (CHR ''x''), ci_ip = [], ci_client_port = 0, ci_registered_at = 0\<rparr>\<rparr>) 1 = None
   \<and> cmd_list nm0 1 \<noteq> None"
proof -
  have b: "butlast (replicate 17 x) = replicate 16 x" for x :: client_info by (simp add: butlast_conv_take)
  show ?thesis
    using list_users_bound [of "nm0\<lparr>nm_clients := replicate 17 \<lparr>ci_username = replicate 127 (CHR ''x''), ci_ip = [], ci_client_port = 0, ci_registered_at = 0\<rparr>\<rparr>" 1]
      list_users_bound [of nm0 1]
    by (simp add: b sum_list_replicate) (simp add: nm0_def)
qed

section \<open>Moving a file\<close>

text \<open>A record as registration and creation make it: at least one server, none twice, names within their buffers.\<close>

definition held :: "file_record \<Rightarrow> bool" where
  "held r \<longleftrightarrow> fr_ss_ids r \<noteq> [] \<and> distinct (fr_ss_ids r) \<and> list_all (\<lambda>i. length i < 128) (fr_ss_ids r)
     \<and> length (fr_owner r) < MAX_USERNAME_LEN"

text \<open>
  C11: When the storage server confirms a move, the file is found under the new name with its owner, access list,
  storage servers, times and counts, no longer under the old one, and every other file is as it was. No right of the
  user who asks enters: the server does not look at it.
\<close>
theorem move_carries_record:
  assumes "nm_ok st" and "json_get_string payload ''filename'' MAX_FILENAME_LEN = Some n"
    and "m = move_target (json_field payload ''foldername'' MAX_FILENAME_LEN []) n"
    and "ix_record (nm_file_index st) n = Some r" and "ix_record (nm_file_index st) m = None" and "held r"
    and "move_holder st (Some r) = Some ss"
    and "prepare_folder env ss (json_field payload ''foldername'' MAX_FILENAME_LEN []) (json_field payload ''username'' MAX_USERNAME_LEN []) = (sent, None)"
    and "ne_net env ''localhost'' (si_client_port ss) OP_MOVE_REQUEST payload = Some ([], revs)" and "length payload < 2 ^ 31"
    and "arrives big OP_COMMAND_STATUS rid' body revs"
  shows "\<exists>st' out. handle_move env st rid payload = Some (st', out)
    \<and> last out = (To_Client, message_for (opcode_code OP_COMMAND_STATUS) rid' (Some body), body)
    \<and> ix_record (nm_file_index st') k = (if k = n then None else if k = m then Some (moved m r) else ix_record (nm_file_index st) k)"
proof (cases rule: lookup_record_cases [OF assms(1), of n])
  case 1
  with assms(4) show ?thesis by (auto simp: lookup_record_def ix_record_def)
next
  case (2 p q)
  then have q: "q = r" using assms(4) by (simp add: ix_record_def)
  define h where "h = message_for (opcode_code OP_COMMAND_STATUS) rid' (Some body)"
  have op: "mh_opcode h = opcode_code OP_COMMAND_STATUS" by (simp add: h_def message_for_def)
  have len: "unat (mh_payload_len h) = length body" using assms(11)
    by (simp add: h_def message_for_def arrives_def unat_of_nat take_bit_nat_eq_self)
  note x = exchange_reply [OF assms(9-11), of rid, folded h_def]
  have ix: "index_ok (nm_file_index st)" using assms(1) by (simp add: nm_ok_def)
  obtain c1 where c1: "lru_cache_invalidate n (nm_cache st) = Some c1" "cache_ok (nm_file_index st) c1"
    using nm_ok_invalidate [OF assms(1)] by blast
  obtain c2 where c2: "lru_cache_invalidate m c1 = Some c2" using cache_ok_invalidate [OF c1(2)] by blast
  obtain st' where st': "apply_move env st ss n m r = Some st'"
    "nm_file_index st' = move_record (ne_now env) ss n m r (nm_file_index st)"
    using c1(1) c2 by (simp add: apply_move_def Let_def)
  have "handle_move env st rid payload = Some (st', sent @ [request_to ''localhost'' (si_client_port ss) OP_MOVE_REQUEST rid payload] @ [(To_Client, h, body)])"
    using assms(2,7,8) 2(1) q x st'(1) op len unfolding assms(3)
    by (simp add: handle_move_def Let_def move_at_def del: opcode_code.simps)
  moreover have "ix_record (nm_file_index st') k = (if k = n then None else if k = m then Some (moved m r) else ix_record (nm_file_index st) k)"
    using move_record_record [OF ix assms(4,5)] assms(6) 2(4) q by (simp add: st'(2) held_def)
  ultimately show ?thesis by (simp add: h_def)
qed

definition move_a :: string where
  "move_a = ''{'' @ json_fields [(''filename'', ''a''), (''foldername'', ''f'')] ''}''"

lemma move_a_fields:
  "json_get_string move_a ''filename'' MAX_FILENAME_LEN = Some ''a''" "json_field move_a ''foldername'' MAX_FILENAME_LEN [] = ''f''"
  "json_field move_a ''username'' MAX_USERNAME_LEN [] = []" "length move_a < 2 ^ 31"
  by (code_simp, code_simp, code_simp, simp add: move_a_def)

text \<open>Surroundings in which every request is confirmed.\<close>

definition net_yes :: nm_env where
  "net_yes = nm_env0\<lparr>ne_net := \<lambda>_ _ _ _. Some ([], [RData (the (protocol_encode_header False
     (Some (message_for (opcode_code OP_COMMAND_STATUS) 0 (Some ''ok'')))) @ map byte_of_char ''ok'')])\<rparr>"

theorem move_carries_record_witness:
  "\<exists>st' out r. handle_move net_yes nm0 1 move_a = Some (st', out) \<and> ix_record (nm_file_index st') ''f/a'' = Some r \<and> fr_owner r = ''u''"
proof -
  let ?r = "add_ss_id ''t'' (add_ss_id ''s'' (new_record 100 ''a'' ''u''))"
  have m: "''f/a'' = move_target (json_field move_a ''foldername'' MAX_FILENAME_LEN []) ''a''"
    by (simp add: move_a_fields move_target_def fit_def)
  have none: "ix_record (nm_file_index nm0) ''f/a'' = None"
    by (simp add: nm0_def ix_record_add index_ok_add index_ok_init) (simp add: ix_record_def file_index_lookup_def file_index_init_def)
  have held: "held ?r" "fr_owner ?r = ''u''"
    by (simp_all add: held_def add_ss_id_def new_record_def fit_def MAX_SS_PER_FILE_def MAX_USERNAME_LEN_def)
  have ss: "move_holder nm0 (Some ?r) = Some (nm_server ''s'' 7 5)"
    by (simp add: move_holder_def add_ss_id_def new_record_def fit_def MAX_SS_PER_FILE_def find_storage_server_def nm0_def nm_server_def)
  have prep: "prepare_folder net_yes (nm_server ''s'' 7 5) (json_field move_a ''foldername'' MAX_FILENAME_LEN []) (json_field move_a ''username'' MAX_USERNAME_LEN []) = ([], None)"
    by (simp add: prepare_folder_def move_a_fields)
  have net: "ne_net net_yes ''localhost'' (si_client_port (nm_server ''s'' 7 5)) OP_MOVE_REQUEST move_a = Some ([], [RData (the (protocol_encode_header False
      (Some (message_for (opcode_code OP_COMMAND_STATUS) 0 (Some ''ok'')))) @ map byte_of_char ''ok'')])" by (simp add: net_yes_def)
  have arr: "arrives False OP_COMMAND_STATUS 0 ''ok'' [RData (the (protocol_encode_header False
      (Some (message_for (opcode_code OP_COMMAND_STATUS) 0 (Some ''ok'')))) @ map byte_of_char ''ok'')]" by (rule arrives_whole) simp
  from move_carries_record [OF nm_ok0 move_a_fields(1) m nm0_record none held(1) ss prep net move_a_fields(4) arr, of 1 "''f/a''"]
  show ?thesis using held(2) by (auto simp: moved_def)
qed

end
