(* ===== verification/Client_Io.thy ===== *)
theory Client_Io
  imports Json Net
begin

text \<open>
  The client of \<open>client/\<close>: its surroundings and the helpers at the top of \<open>client/src/commands.c\<close>. The client runs
  alone and talks to one peer at a time; the outcomes of its calls of \<open>tcp_connect\<close>, in order, and what it
  reads from standard input are scripts in its state, and the state logs what it does: connections tried,
  messages sent, messages shown to the user. Shown messages are constructors with the values they
  print; colours, frames and symbols are left out.
\<close>

section \<open>State\<close>

record client_context =
  cc_nm_host :: string
  cc_nm_port :: u16
  cc_username :: string
  cc_client_port :: u16
  cc_session_token :: string

datatype error_details = No_Details | Numbered string int | Coded string

record info_box =
  ib_filename :: string
  ib_owner :: string
  ib_created :: string
  ib_modified :: string
  ib_accessed :: string
  ib_words :: nat
  ib_chars :: nat
  ib_sentences :: nat
  ib_access :: "string list"

datatype outcome = File_Created | File_Deleted | File_Undone | Access_Granted | Access_Removed | Request_Submitted
  | Request_Approved | Request_Denied | Checkpoint_Made | Checkpoint_Restored | Folder_Created | File_Moved

datatype listing = Files bool | Users | Requests | Execution

text \<open>What is shown during a WRITE.\<close>

datatype write_msg =
    Lock_Acquired string nat
  | Replicating nat
  | Word_Count nat
  | Prompt
  | Update_Queued nat string
  | Out_Of_Range nat
  | No_Updates
  | Committed string
  | Not_Saved
  | Aborted

datatype shell_msg = Connected_As string | Registration_Error string | Help | Unknown_Command string | Goodbye

datatype cl_msg =
    Usage string
  | Warn string
  | Unknown_Error
  | Error_Shown string error_details
  | Failover nat string nat
  | Replica_Connected
  | Document string string
  | Done outcome "string list"
  | Listing listing string
  | Writing write_msg
  | Info_Shown info_box
  | Streaming string
  | Streamed string
  | Stream_Complete
  | Checkpoints string "string list"
  | Checkpoint_View string string string
  | Folder_View string "string list option" "string list option"
  | Shell shell_msg
  | Out_Of_Bounds

datatype cl_event = Dial string u16 bool | Sent protocol_opcode_t u32 string bool | Show cl_msg

datatype stdin_item = Ch char | Rd_Err

type_synonym link = "send_event list \<times> recv_event list"

text \<open>
  \<open>cw_date\<close> is \<open>localtime_r\<close> with \<open>strftime\<close>; \<open>cw_junk\<close> what the stack holds where a header is read to.
\<close>

record cl_world =
  cw_big :: bool
  cw_junk :: "nat \<Rightarrow> u8"
  cw_date :: "nat \<Rightarrow> string option"
  cw_conns :: "link option list"
  cw_stdin :: "stdin_item list"
  cw_log :: "cl_event list"

definition note_event :: "cl_event \<Rightarrow> cl_world \<Rightarrow> cl_world" where
  "note_event e w = w\<lparr>cw_log := cw_log w @ [e]\<rparr>"

definition say :: "cl_msg \<Rightarrow> cl_world \<Rightarrow> cl_world" where
  "say m = note_event (Show m)"

section \<open>Standard input\<close>

text \<open>
  \<open>fgets\<close> with \<open>n\<close> places left for characters: up to a newline, until the buffer is full or the input ends; a read
  error gives a null pointer also when characters were read.
\<close>

datatype input = Got string | At_Eof | Read_Error

fun fgets_in :: "nat \<Rightarrow> stdin_item list \<Rightarrow> string \<Rightarrow> input \<times> stdin_item list" where
  "fgets_in 0 xs acc = (Got acc, xs)"
| "fgets_in (Suc n) [] acc = (if acc = [] then At_Eof else Got acc, [])"
| "fgets_in (Suc n) (Rd_Err # xs) acc = (Read_Error, xs)"
| "fgets_in (Suc n) (Ch c # xs) acc =
     (if c = LF then (Got (acc @ [c]), xs) else fgets_in n xs (acc @ [c]))"

text \<open>The line as a C string, and without its newline.\<close>

definition chomp :: "string \<Rightarrow> string" where
  "chomp line = (let s = c_str line in if s \<noteq> [] \<and> last s = LF then butlast s else s)"

section \<open>Messages\<close>

definition dial :: "string \<Rightarrow> u16 \<Rightarrow> cl_world \<Rightarrow> link option \<times> cl_world" where
  "dial host port w = (let r = (case cw_conns w of [] \<Rightarrow> None | c # _ \<Rightarrow> c) in
     (r, note_event (Dial host port (r \<noteq> None)) (w\<lparr>cw_conns := tl (cw_conns w)\<rparr>)))"

text \<open>
  \<open>send_message\<close> and \<open>recv_message\<close> are, statement by statement, those of the storage server (\<open>Net\<close>); the client keeps the
  opcode and the payload.
\<close>

definition cl_send_message :: "protocol_opcode_t \<Rightarrow> u32 \<Rightarrow> string \<Rightarrow> link \<Rightarrow> cl_world \<Rightarrow> bool \<times> link \<times> cl_world" where
  "cl_send_message opcode request_id payload l w =
     (case send_message (cw_big w) 3 (opcode_code opcode) request_id (Some payload) (fst l) of
        (rc, _, sevs) \<Rightarrow> (rc = 0, (sevs, snd l), note_event (Sent opcode request_id payload (rc = 0)) w))"

definition cl_recv_message :: "link \<Rightarrow> cl_world \<Rightarrow> (u16 \<times> string option) option \<times> link" where
  "cl_recv_message l w = (case recv_message (cw_big w) 3 (cw_junk w) (snd l) of
     (r, revs) \<Rightarrow> (map_option (\<lambda>(h, p). (mh_opcode h, p)) r, (fst l, revs)))"

text \<open>Connect, send, receive, close: the common beginning of the commands.\<close>

datatype cl_answer = Cl_No_Connection | Cl_Not_Sent | Cl_Not_Received | Cl_Answer u16 "string option"

definition cl_ask_on :: "protocol_opcode_t \<Rightarrow> u32 \<Rightarrow> string \<Rightarrow> link \<Rightarrow> cl_world \<Rightarrow> cl_answer \<times> cl_world" where
  "cl_ask_on opcode request_id payload l w = (case cl_send_message opcode request_id payload l w of
     (sent, l1, w1) \<Rightarrow> if \<not> sent then (Cl_Not_Sent, w1)
       else (case fst (cl_recv_message l1 w1) of
           None \<Rightarrow> (Cl_Not_Received, w1)
         | Some (opc, resp) \<Rightarrow> (Cl_Answer opc resp, w1)))"

definition cl_ask :: "string \<Rightarrow> u16 \<Rightarrow> protocol_opcode_t \<Rightarrow> u32 \<Rightarrow> string \<Rightarrow> cl_world \<Rightarrow> cl_answer \<times> cl_world" where
  "cl_ask host port opcode request_id payload w = (case dial host port w of
     (None, w1) \<Rightarrow> (Cl_No_Connection, w1)
   | (Some l, w1) \<Rightarrow> cl_ask_on opcode request_id payload l w1)"

definition nm_ask :: "client_context \<Rightarrow> protocol_opcode_t \<Rightarrow> u32 \<Rightarrow> string \<Rightarrow> cl_world \<Rightarrow> cl_answer \<times> cl_world" where
  "nm_ask ctx = cl_ask (cc_nm_host ctx) (cc_nm_port ctx)"

section \<open>JSON\<close>

text \<open>
  The readers of strings and of unsigned numbers search as those of the name server do (\<open>Json\<close>); a null pointer is an error. The buffers of the callers are never
  empty.
\<close>

definition cl_json_get_string :: "string option \<Rightarrow> string \<Rightarrow> nat \<Rightarrow> string option" where
  "cl_json_get_string json key out_len = (case json of None \<Rightarrow> None | Some j \<Rightarrow> json_get_string j key out_len)"

definition cl_json_get_uint :: "string option \<Rightarrow> string \<Rightarrow> nat option" where
  "cl_json_get_uint json key = (case json of None \<Rightarrow> None | Some j \<Rightarrow> json_get_uint j key)"

text \<open>\<open>strtol\<close> in base 10 on a 64-bit \<open>long\<close>: value, rest and whether it was out of range.\<close>

definition strtol :: "string \<Rightarrow> int \<times> string \<times> bool" where
  "strtol s = (let t = dropWhile is_space s;
       neg = (case t of c # _ \<Rightarrow> c = CHR ''-'' | [] \<Rightarrow> False);
       u = (case t of c # r \<Rightarrow> if c = CHR ''-'' \<or> c = CHR ''+'' then r else t | [] \<Rightarrow> []);
       ds = takeWhile is_digit u;
       v = int (digits_val 0 ds)
     in if ds = [] then (0, s, False)
        else if neg then (if LLONG_MAX + 1 < v then (- LLONG_MAX - 1, dropWhile is_digit u, True) else (- v, dropWhile is_digit u, False))
        else (if LLONG_MAX < v then (LLONG_MAX, dropWhile is_digit u, True) else (v, dropWhile is_digit u, False)))"

definition cl_json_get_int :: "string option \<Rightarrow> string \<Rightarrow> int option" where
  "cl_json_get_int json key = (case json of None \<Rightarrow> None
     | Some j \<Rightarrow> (case json_after_colon j key of None \<Rightarrow> None
         | Some v \<Rightarrow> (case strtol v of (value, rest, overflow) \<Rightarrow> if rest = v \<or> overflow then None else Some value)))"

text \<open>A field read into a buffer or variable that holds a default.\<close>

definition cl_field :: "string option \<Rightarrow> string \<Rightarrow> nat \<Rightarrow> string" where
  "cl_field json key out_len = (case cl_json_get_string json key out_len of None \<Rightarrow> [] | Some v \<Rightarrow> v)"

definition cl_uint :: "string option \<Rightarrow> string \<Rightarrow> nat" where
  "cl_uint json key = (case cl_json_get_uint json key of None \<Rightarrow> 0 | Some v \<Rightarrow> v)"

section \<open>Errors\<close>

definition get_error_message :: "int \<Rightarrow> string" where
  "get_error_message code = (if code = 0 then ''Success''
     else if code = -1 then ''File not found''
     else if code = -2 then ''Invalid operation (check word/sentence indices)''
     else if code = -3 then ''Sentence is locked by another user''
     else if code = -4 then ''I/O error while accessing file''
     else ''Unknown error'')"

definition error_msg :: "string option \<Rightarrow> cl_msg" where
  "error_msg json = (case json of None \<Rightarrow> Unknown_Error
   | Some _ \<Rightarrow>
     (let msg = cl_field json ''error'' 512;
          message = cl_field json ''message'' 512;
          code_str = cl_field json ''code'' 128;
          code = (case cl_json_get_int json ''code'' of None \<Rightarrow> 0 | Some c \<Rightarrow> c)
      in Error_Shown (if msg \<noteq> [] then msg else if message \<noteq> [] then message else ''Operation failed'')
           (if code \<noteq> 0 then Numbered (get_error_message code) code
            else if code_str \<noteq> [] then Coded code_str else No_Details)))"

definition display_error :: "string option \<Rightarrow> cl_world \<Rightarrow> cl_world" where
  "display_error json = say (error_msg json)"

section \<open>Lists in answers\<close>

text \<open>The next name: a backslash is dropped and the character behind it kept; at most 255 characters are stored.\<close>

definition store_char :: "string \<Rightarrow> char \<Rightarrow> string" where
  "store_char name c = (if length name < 255 then name @ [c] else name)"

fun section_name :: "string \<Rightarrow> string \<Rightarrow> string \<times> string" where
  "section_name name [] = (name, [])"
| "section_name name [c] = (if c = DQ then name else store_char name c, [])"
| "section_name name (c # d # ds) =
     (if c = DQ then (name, d # ds)
      else if c = BSL then section_name (store_char name d) ds
      else section_name (store_char name c) (d # ds))"

lemma section_name_shorter: "length (snd (section_name name cs)) \<le> length cs"
  by (induction name cs rule: section_name.induct) auto

function section_names :: "string \<Rightarrow> string list" where
  "section_names [] = []"
| "section_names (c # cs) = (if c = CHR '']'' then []
     else if c = DQ then (case section_name [] cs of (name, rest) \<Rightarrow> (if name \<noteq> [] then [name] else []) @ section_names rest)
     else section_names cs)"
  by pat_completeness auto
termination
  by (relation "measure length") (auto simp: le_imp_less_Suc dest!: arg_cong [where f = "\<lambda>p. length (snd p)"]
      intro: le_less_trans [OF section_name_shorter])

text \<open>One section of a folder view: the names shown, or nothing when the field is missing.\<close>

definition print_viewfolder_section :: "string option \<Rightarrow> string \<Rightarrow> string list option" where
  "print_viewfolder_section json field = (case json of None \<Rightarrow> None
     | Some j \<Rightarrow> (let pattern = fit 64 (DQ # field @ DQ # '':['') in
         map_option (\<lambda>p. section_names (drop (length pattern) p)) (strstr j pattern)))"

text \<open>
  The tags of a checkpoint list, cut to 255 characters. A quote that is not closed takes the loop behind the end of
  the payload: \<open>None\<close>.
\<close>

function checkpoint_tags :: "string \<Rightarrow> string list option" where
  "checkpoint_tags [] = Some []"
| "checkpoint_tags (c # cs) = (if c = CHR '']'' then Some []
     else if c = DQ then
       (let tag = takeWhile (\<lambda>x. x \<noteq> DQ) cs in
        case dropWhile (\<lambda>x. x \<noteq> DQ) cs of
          [] \<Rightarrow> None
        | _ # rest \<Rightarrow> map_option (\<lambda>ts. (if tag \<noteq> [] then [fit 256 tag] else []) @ ts) (checkpoint_tags rest))
     else checkpoint_tags cs)"
  by pat_completeness auto
termination
proof (relation "measure length")
  fix c d :: char and cs tag rest :: string
  assume "dropWhile (\<lambda>x. x \<noteq> DQ) cs = d # rest"
  then show "(rest, c # cs) \<in> measure length" using length_dropWhile_le [of "\<lambda>x. x \<noteq> DQ" cs] by simp
qed simp_all

section \<open>Arguments\<close>

definition parse_mode_argument :: "string option \<Rightarrow> string \<Rightarrow> nat \<Rightarrow> string option" where
  "parse_mode_argument arg default_mode out_len =
     (let source = (case arg of Some a \<Rightarrow> if a \<noteq> [] then a else default_mode | None \<Rightarrow> default_mode);
          lower = map tolower (fit 16 source)
      in if out_len = 0 then None
         else if lower = ''r'' \<or> lower = ''read'' then Some (fit out_len ''read'')
         else if lower = ''w'' \<or> lower = ''write'' then Some (fit out_len ''write'')
         else None)"

definition format_timestamp :: "cl_world \<Rightarrow> nat \<Rightarrow> nat \<Rightarrow> string" where
  "format_timestamp w epoch out_len = (if epoch = 0 then fit out_len ''unknown''
     else case cw_date w epoch of None \<Rightarrow> fit out_len ''unknown'' | Some t \<Rightarrow> t)"

end
