(* ===== verification/Client_Commands.thy ===== *)
theory Client_Commands
  imports Client_Io
begin

text \<open>
  The commands of the client (\<open>client/src/commands.c\<close>), one definition each. Every command returns 0 and so changes
  nothing but the client's world. \<open>argv\<close> is the list of tokens of the line; \<open>argc\<close> is its length.
\<close>

section \<open>Commands the name server answers\<close>

text \<open>
  The common shape: ask the name server, show its error or go on. Commands with a name say what failed, the
  others return silently when sending or receiving fails.
\<close>

definition nm_command :: "client_context \<Rightarrow> string option \<Rightarrow> protocol_opcode_t \<Rightarrow> u32 \<Rightarrow> string
    \<Rightarrow> (string option \<Rightarrow> cl_world \<Rightarrow> cl_world) \<Rightarrow> cl_world \<Rightarrow> cl_world" where
  "nm_command ctx name opcode request_id payload finish w = (case nm_ask ctx opcode request_id payload w of
     (Cl_No_Connection, w1) \<Rightarrow> say (Warn ''Failed to connect to Name Server'') w1
   | (Cl_Not_Sent, w1) \<Rightarrow> (case name of None \<Rightarrow> w1 | Some n \<Rightarrow> say (Warn (''Failed to send '' @ n @ '' command'')) w1)
   | (Cl_Not_Received, w1) \<Rightarrow> (case name of None \<Rightarrow> w1 | Some _ \<Rightarrow> say (Warn ''Failed to receive response'') w1)
   | (Cl_Answer opc resp, w1) \<Rightarrow> if opc = opcode_code OP_ERROR then display_error resp w1 else finish resp w1)"

definition user_field :: "client_context \<Rightarrow> string \<times> string" where
  "user_field ctx = (''username'', cc_username ctx)"

definition request_text :: "(string \<times> string) list \<Rightarrow> string" where
  "request_text fs = fit 512 (''{'' @ json_fields fs ''}'')"

definition or_text :: "string option \<Rightarrow> string \<Rightarrow> string" where
  "or_text s dflt = (case s of None \<Rightarrow> dflt | Some t \<Rightarrow> t)"

definition cl_cmd_view :: "client_context \<Rightarrow> string list \<Rightarrow> cl_world \<Rightarrow> cl_world" where
  \<open>cl_cmd_view ctx argv w =
     (let show_all = list_ex (\<lambda>a. a = ''-a'' \<or> a = ''-al'' \<or> a = ''-la'') (tl argv);
          show_details = list_ex (\<lambda>a. a = ''-l'' \<or> a = ''-al'' \<or> a = ''-la'') (tl argv)
      in nm_command ctx None OP_COMMAND_FORWARD 0
           (fit 512 (''{'' @ json_fields [(''command'', ''VIEW''), user_field ctx]
              ('',"show_all":'' @ show_nat (of_bool show_all) @ '',"show_details":'' @ show_nat (of_bool show_details) @ ''}'')))
           (\<lambda>resp. say (Listing (Files show_details) (or_text resp ''(no files)''))) w)\<close>

definition cl_cmd_create :: "client_context \<Rightarrow> string list \<Rightarrow> cl_world \<Rightarrow> cl_world" where
  "cl_cmd_create ctx argv w = (if length argv < 2 then say (Usage ''CREATE <filename>'') w
     else let filename = argv ! 1 in
       nm_command ctx (Some ''CREATE'') OP_COMMAND_FORWARD 3
         (request_text [(''filename'', filename), user_field ctx, (''command'', ''CREATE'')])
         (\<lambda>_. say (Done File_Created [filename])) w)"

definition cl_cmd_delete :: "client_context \<Rightarrow> string list \<Rightarrow> cl_world \<Rightarrow> cl_world" where
  "cl_cmd_delete ctx argv w = (if length argv < 2 then say (Usage ''DELETE <filename>'') w
     else let filename = argv ! 1 in
       nm_command ctx (Some ''DELETE'') OP_COMMAND_FORWARD 4
         (request_text [(''filename'', filename), user_field ctx, (''command'', ''DELETE'')])
         (\<lambda>_. say (Done File_Deleted [filename])) w)"

definition cl_cmd_list :: "client_context \<Rightarrow> string list \<Rightarrow> cl_world \<Rightarrow> cl_world" where
  "cl_cmd_list ctx argv w = nm_command ctx None OP_COMMAND_FORWARD 0 (fit 256 (''{'' @ json_fields [(''command'', ''LIST'')] ''}''))
     (\<lambda>resp. say (Listing Users (or_text resp ''(no users)''))) w"

definition cl_cmd_addaccess :: "client_context \<Rightarrow> string list \<Rightarrow> cl_world \<Rightarrow> cl_world" where
  "cl_cmd_addaccess ctx argv w = (if length argv < 4 then say (Usage ''ADDACCESS -R|-W <filename> <username>'') w
     else let is_write = (argv ! 1 = ''-W''); filename = argv ! 2; target_user = argv ! 3 in
       nm_command ctx (Some ''ADDACCESS'') OP_COMMAND_FORWARD 5
         (request_text [(''filename'', filename), user_field ctx, (''command'', ''ADDACCESS''), (''target_user'', target_user),
            (''mode'', if is_write then ''write'' else ''read'')])
         (\<lambda>_. say (Done Access_Granted [target_user, filename])) w)"

definition cl_cmd_remaccess :: "client_context \<Rightarrow> string list \<Rightarrow> cl_world \<Rightarrow> cl_world" where
  "cl_cmd_remaccess ctx argv w = (if length argv < 3 then say (Usage ''REMACCESS <filename> <username>'') w
     else let filename = argv ! 1; target_user = argv ! 2 in
       nm_command ctx (Some ''REMACCESS'') OP_COMMAND_FORWARD 6
         (request_text [(''filename'', filename), user_field ctx, (''command'', ''REMACCESS''), (''target_user'', target_user)])
         (\<lambda>_. say (Done Access_Removed [target_user, filename])) w)"

definition cl_cmd_requestaccess :: "client_context \<Rightarrow> string list \<Rightarrow> cl_world \<Rightarrow> cl_world" where
  "cl_cmd_requestaccess ctx argv w = (if length argv < 2 then say (Usage ''REQUESTACCESS <filename> [read|write]'') w
     else let filename = argv ! 1 in
       case parse_mode_argument (if 3 \<le> length argv then Some (argv ! 2) else None) ''read'' 16 of
         None \<Rightarrow> say (Warn ''Mode must be read or write'') w
       | Some mode \<Rightarrow> nm_command ctx (Some ''REQUESTACCESS'') OP_COMMAND_FORWARD 10
           (request_text [(''filename'', filename), user_field ctx, (''command'', ''REQUESTACCESS''), (''mode'', mode)])
           (\<lambda>_. say (Done Request_Submitted [filename, mode])) w)"

definition cl_cmd_listrequests :: "client_context \<Rightarrow> string list \<Rightarrow> cl_world \<Rightarrow> cl_world" where
  "cl_cmd_listrequests ctx argv w =
     nm_command ctx (Some ''LISTREQUESTS'') OP_COMMAND_FORWARD 11
       (if 2 \<le> length argv \<and> argv ! 1 \<noteq> []
        then request_text [(''filename'', argv ! 1), user_field ctx, (''command'', ''LISTREQUESTS'')]
        else request_text [user_field ctx, (''command'', ''LISTREQUESTS'')])
       (\<lambda>resp. say (Listing Requests (or_text resp ''(none)''))) w"

text \<open>APPROVEREQUEST and DENYREQUEST differ in the name, the request id and what is shown.\<close>

definition decide_request :: "client_context \<Rightarrow> string \<Rightarrow> u32 \<Rightarrow> outcome \<Rightarrow> string list \<Rightarrow> cl_world \<Rightarrow> cl_world" where
  "decide_request ctx name request_id shown argv w =
     (if length argv < 4 then say (Usage (name @ '' <filename> <username> <read|write>'')) w
      else let filename = argv ! 1; target_user = argv ! 2 in
        case parse_mode_argument (Some (argv ! 3)) ''read'' 16 of
          None \<Rightarrow> say (Warn ''Mode must be read or write'') w
        | Some mode \<Rightarrow> nm_command ctx (Some name) OP_COMMAND_FORWARD request_id
            (request_text [(''filename'', filename), user_field ctx, (''command'', name), (''target_user'', target_user), (''mode'', mode)])
            (\<lambda>_. say (Done shown [mode, target_user])) w)"

definition cl_cmd_approverequest :: "client_context \<Rightarrow> string list \<Rightarrow> cl_world \<Rightarrow> cl_world" where
  "cl_cmd_approverequest ctx = decide_request ctx ''APPROVEREQUEST'' 12 Request_Approved"

definition cl_cmd_denyrequest :: "client_context \<Rightarrow> string list \<Rightarrow> cl_world \<Rightarrow> cl_world" where
  "cl_cmd_denyrequest ctx = decide_request ctx ''DENYREQUEST'' 13 Request_Denied"

section \<open>Checkpoints, scripts and folders\<close>

text \<open>The three commands with a tag send the same fields.\<close>

definition tag_command :: "client_context \<Rightarrow> string \<Rightarrow> u32 \<Rightarrow> (string \<Rightarrow> string \<Rightarrow> string option \<Rightarrow> cl_msg) \<Rightarrow> string list \<Rightarrow> cl_world \<Rightarrow> cl_world" where
  "tag_command ctx name request_id shown argv w =
     (if length argv < 3 then say (Usage (name @ '' <filename> <tag>'')) w
      else let filename = argv ! 1; tag = argv ! 2 in
        nm_command ctx (Some name) OP_COMMAND_FORWARD request_id
          (request_text [(''filename'', filename), (''tag'', tag), user_field ctx, (''command'', name)])
          (\<lambda>resp. say (shown filename tag resp)) w)"

definition cl_cmd_checkpoint :: "client_context \<Rightarrow> string list \<Rightarrow> cl_world \<Rightarrow> cl_world" where
  "cl_cmd_checkpoint ctx = tag_command ctx ''CHECKPOINT'' 14 (\<lambda>filename tag _. Done Checkpoint_Made [tag, filename])"

definition cl_cmd_viewcheckpoint :: "client_context \<Rightarrow> string list \<Rightarrow> cl_world \<Rightarrow> cl_world" where
  "cl_cmd_viewcheckpoint ctx = tag_command ctx ''VIEWCHECKPOINT'' 16
     (\<lambda>filename tag resp. Checkpoint_View tag filename
        (case cl_json_get_string resp ''content'' 4096 of Some content \<Rightarrow> content | None \<Rightarrow> or_text resp ''(empty checkpoint)''))"

definition cl_cmd_revertcheckpoint :: "client_context \<Rightarrow> string list \<Rightarrow> cl_world \<Rightarrow> cl_world" where
  "cl_cmd_revertcheckpoint ctx = tag_command ctx ''REVERTCHECKPOINT'' 17 (\<lambda>filename tag _. Done Checkpoint_Restored [filename, tag])"

text \<open>The tags in an answer; \<open>None\<close> is a read behind its end.\<close>

definition shown_tags :: "string option \<Rightarrow> string list option" where
  \<open>shown_tags resp = (case resp of None \<Rightarrow> Some []
     | Some r \<Rightarrow> (case strstr r ''"checkpoints":['' of None \<Rightarrow> Some [] | Some p \<Rightarrow> checkpoint_tags (drop 15 p)))\<close>

text \<open>The log of a run that leaves the payload says \<open>Out_Of_Bounds\<close>: what it prints from there on is unknown.\<close>

definition cl_cmd_listcheckpoints :: "client_context \<Rightarrow> string list \<Rightarrow> cl_world \<Rightarrow> cl_world" where
  "cl_cmd_listcheckpoints ctx argv w = (if length argv < 2 then say (Usage ''LISTCHECKPOINTS <filename>'') w
     else let filename = argv ! 1 in
       nm_command ctx (Some ''LISTCHECKPOINTS'') OP_COMMAND_FORWARD 15
         (request_text [(''filename'', filename), user_field ctx, (''command'', ''LISTCHECKPOINTS'')])
         (\<lambda>resp. case shown_tags resp of Some tags \<Rightarrow> say (Checkpoints filename tags) | None \<Rightarrow> say Out_Of_Bounds) w)"

definition cl_cmd_exec :: "client_context \<Rightarrow> string list \<Rightarrow> cl_world \<Rightarrow> cl_world" where
  "cl_cmd_exec ctx argv w = (if length argv < 2 then say (Usage ''EXEC <filename>'') w
     else nm_command ctx None OP_COMMAND_FORWARD 0
         (request_text [(''command'', ''EXEC''), (''filename'', argv ! 1), user_field ctx])
         (\<lambda>resp. say (Listing Execution (or_text resp ''(no output)''))) w)"

definition cl_cmd_createfolder :: "client_context \<Rightarrow> string list \<Rightarrow> cl_world \<Rightarrow> cl_world" where
  "cl_cmd_createfolder ctx argv w = (if length argv < 2 then say (Usage ''CREATEFOLDER <foldername>'') w
     else let foldername = argv ! 1 in
       nm_command ctx (Some ''CREATEFOLDER'') OP_CREATEFOLDER_REQUEST 7
         (request_text [(''foldername'', foldername), user_field ctx, (''command'', ''CREATEFOLDER'')])
         (\<lambda>_. say (Done Folder_Created [foldername])) w)"

definition cl_cmd_move :: "client_context \<Rightarrow> string list \<Rightarrow> cl_world \<Rightarrow> cl_world" where
  "cl_cmd_move ctx argv w = (if length argv < 3 then say (Usage ''MOVE <filename> <foldername>'') w
     else let filename = argv ! 1; foldername = argv ! 2 in
       nm_command ctx (Some ''MOVE'') OP_MOVE_REQUEST 8
         (request_text [(''filename'', filename), (''foldername'', foldername), user_field ctx, (''command'', ''MOVE'')])
         (\<lambda>_. say (Done File_Moved [filename, foldername])) w)"

definition cl_cmd_viewfolder :: "client_context \<Rightarrow> string list \<Rightarrow> cl_world \<Rightarrow> cl_world" where
  "cl_cmd_viewfolder ctx argv w =
     (let foldername = (if 2 \<le> length argv then argv ! 1 else ''/'') in
      nm_command ctx (Some ''VIEWFOLDER'') OP_VIEWFOLDER_REQUEST 9
        (request_text [(''foldername'', foldername), user_field ctx, (''command'', ''VIEWFOLDER'')])
        (\<lambda>resp. say (Folder_View foldername (print_viewfolder_section resp ''folders'') (print_viewfolder_section resp ''files''))) w)"

section \<open>Finding the storage server\<close>

definition lookup_text :: "client_context \<Rightarrow> string \<Rightarrow> string option \<Rightarrow> string" where
  "lookup_text ctx filename operation = request_text ([(''filename'', filename), user_field ctx]
     @ (case operation of None \<Rightarrow> [] | Some op \<Rightarrow> [(''operation'', op)]))"

definition found_server :: "string option \<Rightarrow> string \<times> nat" where
  "found_server resp = (cl_field resp ''ss_ip'' 256, cl_uint resp ''ss_port'')"

text \<open>
  The replicas of a lookup answer: at every opening brace the next address and the next port are taken. The descriptor of
  a replica starts as \<open>-1\<close>, here no link.
\<close>

record replica =
  rp_ip :: string
  rp_port :: nat
  rp_link :: "link option"

definition replica_at :: "string \<Rightarrow> replica list" where
  \<open>replica_at ptr =
     (let ip = (case strstr ptr ''"ip":"'' of None \<Rightarrow> []
          | Some p \<Rightarrow> (case strchr (drop 6 p) DQ of None \<Rightarrow> []
              | Some _ \<Rightarrow> (let v = takeWhile (\<lambda>c. c \<noteq> DQ) (drop 6 p) in if length v < 64 then v else [])));
          port = (case strstr ptr ''"port":'' of None \<Rightarrow> 0 | Some p \<Rightarrow> fst (strtoul (drop 7 p)))
      in if ip \<noteq> [] \<and> 0 < port then [\<lparr>rp_ip = ip, rp_port = port, rp_link = None\<rparr>] else [])\<close>

fun replica_loop :: "string \<Rightarrow> replica list \<Rightarrow> replica list" where
  "replica_loop [] reps = reps"
| "replica_loop (c # cs) reps = (if c = CHR '']'' \<or> 8 \<le> length reps then reps
     else replica_loop cs (if c = CHR ''{'' then reps @ replica_at (c # cs) else reps))"

definition found_replicas :: "string option \<Rightarrow> replica list" where
  \<open>found_replicas resp = (case resp of None \<Rightarrow> []
     | Some r \<Rightarrow> (case strstr r ''"replicas":['' of None \<Rightarrow> [] | Some p \<Rightarrow> replica_loop (drop 12 p) []))\<close>

text \<open>The storage server itself, then its replicas one after the other.\<close>

fun failover :: "nat \<Rightarrow> replica list \<Rightarrow> cl_world \<Rightarrow> link option \<times> cl_world" where
  "failover i [] w = (None, w)"
| "failover i (r # rs) w = (case dial (rp_ip r) (word_of_nat (rp_port r)) (say (Failover i (rp_ip r) (rp_port r)) w) of
     (Some l, w1) \<Rightarrow> (Some l, say Replica_Connected w1)
   | (None, w1) \<Rightarrow> failover (i + 1) rs w1)"

definition connect_storage :: "string \<Rightarrow> string \<Rightarrow> nat \<Rightarrow> replica list \<Rightarrow> cl_world \<Rightarrow> link option \<times> cl_world" where
  "connect_storage name host port reps w = (case dial host (word_of_nat port) w of
     (Some l, w1) \<Rightarrow> (Some l, w1)
   | (None, w1) \<Rightarrow> (case failover 1 reps (say (Warn (''Failed to connect to '' @ name @ '' at '' @ host @ '':'' @ show_nat port)) w1) of
       (Some l, w2) \<Rightarrow> (Some l, w2)
     | (None, w2) \<Rightarrow> (None, say (Warn ''Failed to connect to any Storage Server (Primary or Replicas)'') w2)))"

section \<open>READ\<close>

definition document_text :: "string \<Rightarrow> string" where
  "document_text resp = (case json_get_string resp ''content'' 8192 of Some content \<Rightarrow> content | None \<Rightarrow> resp)"

definition read_from :: "client_context \<Rightarrow> string \<Rightarrow> link \<Rightarrow> cl_world \<Rightarrow> cl_world" where
  "read_from ctx filename l w =
     (case cl_ask_on OP_DATA_REQUEST 2 (request_text [(''filename'', filename), (''operation'', ''read''), user_field ctx]) l w of
        (Cl_Answer opc resp, w1) \<Rightarrow>
          if opc = opcode_code OP_ERROR then display_error resp w1
          else (case resp of None \<Rightarrow> w1 | Some r \<Rightarrow> say (Document filename (document_text r)) w1)
      | (Cl_Not_Received, w1) \<Rightarrow> say (Warn ''Failed to receive data from Storage Server'') w1
      | (_, w1) \<Rightarrow> say (Warn ''Failed to send read request to Storage Server'') w1)"

definition cl_cmd_read :: "client_context \<Rightarrow> string list \<Rightarrow> cl_world \<Rightarrow> cl_world" where
  "cl_cmd_read ctx argv w = (if length argv < 2 then say (Usage ''READ <filename>'') w
     else let filename = argv ! 1 in
       case nm_ask ctx OP_LOOKUP_FILE 1 (lookup_text ctx filename (Some ''read'')) w of
         (Cl_No_Connection, w1) \<Rightarrow> say (Warn ''Failed to connect to Name Server'') w1
       | (Cl_Not_Sent, w1) \<Rightarrow> say (Warn ''Failed to send lookup request'') w1
       | (Cl_Not_Received, w1) \<Rightarrow> say (Warn ''Failed to receive lookup response'') w1
       | (Cl_Answer opc resp, w1) \<Rightarrow>
           if opc = opcode_code OP_ERROR then display_error resp w1
           else if opc \<noteq> opcode_code OP_LOOKUP_RESP then say (Warn ''Unexpected response from Name Server'') w1
           else (case found_server resp of (ss_host, ss_port) \<Rightarrow>
             if ss_port = 0 then say (Warn ''Invalid storage server information from lookup'') w1
             else (case connect_storage ''Primary Storage Server'' ss_host ss_port (found_replicas resp) w1 of
                 (None, w2) \<Rightarrow> w2
               | (Some l, w2) \<Rightarrow> read_from ctx filename l w2)))"

end
