(* ===== verification/Client_Session.thy ===== *)
theory Client_Session
  imports Client_Commands
begin

text \<open>
  The commands of \<open>client/src/commands.c\<close> that talk to a storage server in more than one step: WRITE with the loop that
  reads the updates, UNDO, INFO and STREAM with the loop that receives the words. Both loops end: the first uses up
  input, the second what the socket delivers.
\<close>

section \<open>How much input and how much of a socket is left\<close>

lemma fgets_in_rest: "length (snd (fgets_in n xs acc)) \<le> length xs"
  by (induction n xs acc rule: fgets_in.induct) auto

lemma fgets_in_uses: "fgets_in n xs [] = (r, rest) \<Longrightarrow> r \<noteq> At_Eof \<Longrightarrow> 0 < n \<Longrightarrow> length rest < length xs"
  using fgets_in_rest [of "n - 1" "tl xs"]
  by (cases n; cases xs rule: list.exhaust; cases "hd xs") (auto split: if_splits simp: less_Suc_eq_le, metis snd_conv)

fun script_size :: "recv_event list \<Rightarrow> nat" where
  "script_size [] = 0"
| "script_size (RData bs # es) = Suc (length bs) + script_size es"
| "script_size (_ # es) = Suc (script_size es)"

lemma recv_loop_steps:
  "\<not> length out < len \<Longrightarrow> recv_loop len out evs = (to_int32 (length out), out, evs)"
  "length out < len \<Longrightarrow> recv_loop len out [] = (to_int32 (length out), out, [])"
  "length out < len \<Longrightarrow> recv_loop len out (REintr # es) = recv_loop len out es"
  "length out < len \<Longrightarrow> recv_loop len out (RErr # es) = (-1, out, es)"
  "length out < len \<Longrightarrow> recv_loop len out (RData [] # es) = (to_int32 (length out), out, es)"
  "length out < len \<Longrightarrow> bs \<noteq> [] \<Longrightarrow> recv_loop len out (RData bs # es) = recv_loop len (out @ take (len - length out) bs)
     (if length bs \<le> len - length out then es else RData (drop (len - length out) bs) # es)"
  by (subst recv_loop.simps; simp add: Let_def)+

lemma recv_loop_result:
  "recv_loop len out evs = (rc, got, evs') \<Longrightarrow>
   script_size evs' + length got \<le> script_size evs + length out \<and> (rc = -1 \<or> rc = to_int32 (length got))"
proof (induction len out evs rule: recv_loop.induct)
  case (1 len out evs)
  show ?case
  proof (cases "length out < len \<and> evs \<noteq> []")
    case False
    with "1.prems" show ?thesis by (cases "length out < len") (auto simp: recv_loop_steps)
  next
    case True
    then obtain e es where len: "length out < len" and e: "evs = e # es" by (cases evs) auto
    show ?thesis
    proof (cases e)
      case (RData bs)
      with "1.prems" len e "1.IH"(1) [OF len e RData _ refl] show ?thesis
        by (cases "bs = []") (auto simp: recv_loop_steps split: if_splits)
    qed (use "1.prems" len e "1.IH"(2) [OF len e] in \<open>auto simp: recv_loop_steps\<close>)
  qed
qed

lemma recv_all_size: "recv_all fd len evs = (rc, got, evs') \<Longrightarrow> script_size evs' + length got \<le> script_size evs"
  using recv_loop_result [of len "[]" evs] by (auto simp: recv_all_def split: if_splits)

lemma recv_message_uses:
  assumes "recv_message big fd junk evs = (Some m, evs')"
  shows "script_size evs' < script_size evs"
proof -
  obtain rc got evs1 where r: "recv_all fd PROTOCOL_HEADER_SIZE evs = (rc, got, evs1)" by (metis prod_cases3)
  have "0 < rc" using assms r by (auto simp: recv_message_def split: if_splits)
  then have "got \<noteq> []" using r recv_loop_result [of PROTOCOL_HEADER_SIZE "[]" evs rc got evs1]
    by (auto simp: recv_all_def to_int32_def split: if_splits)
  with recv_all_size [OF r] have "script_size evs1 < script_size evs" by (cases got) auto
  moreover have "script_size evs' \<le> script_size evs1"
    using assms r by (auto simp: recv_message_def split: if_splits option.splits prod.splits dest!: recv_all_size)
  ultimately show ?thesis by simp
qed

lemma cl_recv_uses: "cl_recv_message l w = (Some m, l') \<Longrightarrow> script_size (snd l') < script_size (snd l)"
  by (auto simp: cl_recv_message_def dest: recv_message_uses split: prod.splits)

section \<open>WRITE\<close>

text \<open>Messages to the replicas go to those with a descriptor.\<close>

fun send_replicas :: "protocol_opcode_t \<Rightarrow> string \<Rightarrow> replica list \<Rightarrow> cl_world \<Rightarrow> replica list \<times> cl_world" where
  "send_replicas opcode payload [] w = ([], w)"
| "send_replicas opcode payload (r # rs) w = (case rp_link r of
     None \<Rightarrow> (case send_replicas opcode payload rs w of (rs', w') \<Rightarrow> (r # rs', w'))
   | Some l \<Rightarrow> (case cl_send_message opcode 0 payload l w of (_, l1, w1) \<Rightarrow>
       (case send_replicas opcode payload rs w1 of (rs', w') \<Rightarrow> (r\<lparr>rp_link := Some l1\<rparr> # rs', w'))))"

definition commit_session :: "replica list \<Rightarrow> link \<Rightarrow> cl_world \<Rightarrow> bool \<times> cl_world" where
  "commit_session reps l w = (case cl_send_message OP_WRITE_COMMIT 0 ''{}'' l w of
     (sent, l1, w1) \<Rightarrow> if \<not> sent then (False, say (Warn ''Failed to send commit message to server'') w1)
       else let w2 = snd (send_replicas OP_WRITE_COMMIT ''{}'' reps w1) in
         case fst (cl_recv_message l1 w2) of
           None \<Rightarrow> (False, say (Warn ''Failed to receive commit response from server'') w2)
         | Some (opc, resp) \<Rightarrow>
             if opc = opcode_code OP_WRITE_ACK then (True, say (Writing (Committed (cl_field resp ''undo_token'' 64))) w2)
             else (False, say (Writing Not_Saved) (display_error resp w2)))"

definition client_sep :: "char \<Rightarrow> bool" where
  "client_sep c = (c = SP \<or> c = TAB \<or> c = LF)"

definition update_text :: "nat \<Rightarrow> string \<Rightarrow> string" where
  \<open>update_text word_idx content = fit 1024 (''{"word_index":'' @ show_nat word_idx @ '',"content":"'' @ content @ ''"}'')\<close>

text \<open>
  One line of the user: the session stops, committed or not, or goes on with the replicas, the expected number of words,
  the number of updates sent and the connection.
\<close>

datatype write_next = W_Stop bool | W_Go "replica list" nat nat link

definition write_line :: "replica list \<Rightarrow> nat \<Rightarrow> nat \<Rightarrow> link \<Rightarrow> string \<Rightarrow> cl_world \<Rightarrow> write_next \<times> cl_world" where
  "write_line reps count sent l line w =
     (if line = ''ETIRW'' then
        if sent = 0 then (W_Stop False, say (Writing No_Updates) w)
        else (case commit_session reps l w of (committed, w1) \<Rightarrow> (W_Stop committed, w1))
      else if line = [] then (W_Go reps count sent l, w)
      else case strchr line SP of
          None \<Rightarrow> (W_Go reps count sent l, say (Warn ''Invalid format. Expected: <word_index> <content>'') w)
        | Some rest \<Rightarrow>
            (let digits = takeWhile (\<lambda>c. c \<noteq> SP) line; content = tl rest in
             case strtoul digits of (word_idx, endptr, _) \<Rightarrow>
               if endptr = digits \<or> endptr \<noteq> [] then
                 (W_Go reps count sent l, say (Warn (''Invalid word index '' @ digits @ ''. Must be a number.'')) w)
               else if count < word_idx then (W_Go reps count sent l, say (Writing (Out_Of_Range count)) w)
               else (case cl_send_message OP_WRITE_UPDATE 0 (update_text word_idx content) l w of
                 (ok, l1, w1) \<Rightarrow>
                   if \<not> ok then (W_Stop False, say (Warn ''Write session terminated - changes NOT saved'')
                       (say (Warn ''Failed to send word update (connection issue)'') w1))
                   else (case send_replicas OP_WRITE_UPDATE (update_text word_idx content) reps w1 of
                     (reps', w2) \<Rightarrow>
                       (W_Go reps' ((count + length (tokens client_sep (fit 1024 content))) mod 2 ^ 64) (sent + 1) l1,
                        say (Writing (Update_Queued word_idx content)) w2)))))"

function write_loop :: "stdin_item list \<Rightarrow> replica list \<Rightarrow> nat \<Rightarrow> nat \<Rightarrow> link \<Rightarrow> cl_world \<Rightarrow> bool \<times> nat \<times> cl_world" where
  "write_loop inp reps count sent l w = (case fgets_in 1023 inp [] of
     (Got line, rest) \<Rightarrow> (case write_line reps count sent l (chomp line) (say (Writing Prompt) w) of
         (W_Stop committed, w1) \<Rightarrow> (committed, sent, w1\<lparr>cw_stdin := rest\<rparr>)
       | (W_Go reps' count' sent' l', w1) \<Rightarrow> write_loop rest reps' count' sent' l' w1)
   | (_, rest) \<Rightarrow> (False, sent, (say (Writing Prompt) w)\<lparr>cw_stdin := rest\<rparr>))"
  by pat_completeness auto
termination
  by (relation "measure (\<lambda>(inp, _). length inp)") (auto dest!: fgets_in_uses [OF sym])

declare write_loop.simps [simp del]

definition run_write_session :: "string \<Rightarrow> nat \<Rightarrow> replica list \<Rightarrow> nat \<Rightarrow> link \<Rightarrow> cl_world \<Rightarrow> cl_world" where
  "run_write_session filename sentence_idx reps count l w =
     (let w1 = say (Writing (Lock_Acquired filename sentence_idx)) w;
          w2 = (if reps \<noteq> [] then say (Writing (Replicating (length (filter (\<lambda>r. rp_link r \<noteq> None) reps)))) w1 else w1);
          w3 = say (Writing (Word_Count count)) w2
      in case write_loop (cw_stdin w3) reps count 0 l w3 of (committed, sent, w4) \<Rightarrow>
        if \<not> committed \<and> sent \<noteq> 0 then say (Writing Aborted) w4 else w4)"

definition write_on :: "client_context \<Rightarrow> string \<Rightarrow> nat \<Rightarrow> replica list \<Rightarrow> link \<Rightarrow> cl_world \<Rightarrow> cl_world" where
  \<open>write_on ctx filename sentence_idx reps l w =
     (case cl_send_message OP_WRITE_REQUEST 0 (fit 512 (''{'' @ json_fields [(''filename'', filename)]
             ('',"sentence":'' @ show_nat sentence_idx @ '','' @ json_fields [user_field ctx] ''}''))) l w of
        (sent, l1, w1) \<Rightarrow> if \<not> sent then say (Warn ''Failed to send write request'') w1
          else (case cl_recv_message l1 w1 of
              (None, _) \<Rightarrow> say (Warn ''Failed to receive lock acknowledgment'') w1
            | (Some (opc, ack), l2) \<Rightarrow>
                if opc = opcode_code OP_ERROR then display_error ack w1
                else run_write_session filename sentence_idx reps (cl_uint ack ''word_count'') l2 w1))\<close>

definition cl_cmd_write :: "client_context \<Rightarrow> string list \<Rightarrow> cl_world \<Rightarrow> cl_world" where
  "cl_cmd_write ctx argv w = (if length argv < 3 then say (Usage ''WRITE <filename> <sentence_index>'') w
     else let filename = argv ! 1; sentence_idx = fst (strtoul (argv ! 2)) in
       case nm_ask ctx OP_LOOKUP_FILE 0 (lookup_text ctx filename (Some ''write'')) w of
         (Cl_No_Connection, w1) \<Rightarrow> say (Warn ''Failed to connect to Name Server'') w1
       | (Cl_Not_Sent, w1) \<Rightarrow> say (Warn ''Failed to send lookup request'') w1
       | (Cl_Not_Received, w1) \<Rightarrow> say (Warn ''Failed to receive lookup response'') w1
       | (Cl_Answer opc resp, w1) \<Rightarrow>
           if opc = opcode_code OP_ERROR then display_error resp w1
           else (case found_server resp of (ss_host, ss_port) \<Rightarrow>
             if ss_port = 0 then say (Warn ''Invalid storage server information from lookup'') w1
             else (case connect_storage ''Storage Server'' ss_host ss_port (found_replicas resp) w1 of
                 (None, w2) \<Rightarrow> w2
               | (Some l, w2) \<Rightarrow> write_on ctx filename sentence_idx (found_replicas resp) l w2)))"

section \<open>UNDO, INFO and STREAM\<close>

text \<open>
  The three begin alike: a lookup without an operation, then one connection to the storage server, without replicas; sending
  and receiving may fail silently.
\<close>

definition with_storage :: "client_context \<Rightarrow> string \<Rightarrow> (link \<Rightarrow> cl_world \<Rightarrow> cl_world) \<Rightarrow> cl_world \<Rightarrow> cl_world" where
  "with_storage ctx filename go w = (case nm_ask ctx OP_LOOKUP_FILE 0 (lookup_text ctx filename None) w of
     (Cl_No_Connection, w1) \<Rightarrow> say (Warn ''Failed to connect to Name Server'') w1
   | (Cl_Not_Sent, w1) \<Rightarrow> w1
   | (Cl_Not_Received, w1) \<Rightarrow> w1
   | (Cl_Answer opc resp, w1) \<Rightarrow>
       if opc = opcode_code OP_ERROR then display_error resp w1
       else (case found_server resp of (ss_host, ss_port) \<Rightarrow>
         if ss_port = 0 then say (Warn ''Invalid storage server information'') w1
         else (case dial ss_host (word_of_nat ss_port) w1 of
             (None, w2) \<Rightarrow> say (Warn ''Failed to connect to Storage Server'') w2
           | (Some l, w2) \<Rightarrow> go l w2)))"

definition storage_request :: "protocol_opcode_t \<Rightarrow> string \<Rightarrow> (string option \<Rightarrow> cl_world \<Rightarrow> cl_world) \<Rightarrow> link \<Rightarrow> cl_world \<Rightarrow> cl_world" where
  "storage_request opcode payload finish l w = (case cl_ask_on opcode 0 payload l w of
     (Cl_Answer opc resp, w1) \<Rightarrow> if opc = opcode_code OP_ERROR then display_error resp w1 else finish resp w1
   | (_, w1) \<Rightarrow> w1)"

definition cl_cmd_undo :: "client_context \<Rightarrow> string list \<Rightarrow> cl_world \<Rightarrow> cl_world" where
  "cl_cmd_undo ctx argv w = (if length argv < 2 then say (Usage ''UNDO <filename>'') w
     else let filename = argv ! 1 in
       with_storage ctx filename (storage_request OP_UNDO_REQUEST (request_text [(''filename'', filename), user_field ctx])
         (\<lambda>_. say (Done File_Undone [filename]))) w)"

definition acl_answer :: "client_context \<Rightarrow> string \<Rightarrow> cl_world \<Rightarrow> string option \<times> cl_world" where
  "acl_answer ctx filename w = (case nm_ask ctx OP_COMMAND_FORWARD 0
       (request_text [(''filename'', filename), user_field ctx, (''command'', ''ACLINFO'')]) w of
     (Cl_Answer opc acl, w1) \<Rightarrow> if opc = opcode_code OP_ERROR then (None, display_error acl w1) else (acl, w1)
   | (_, w1) \<Rightarrow> (None, w1))"

definition acl_owner :: "string option \<Rightarrow> string" where
  "acl_owner acl = (case acl of None \<Rightarrow> [] | Some t \<Rightarrow> if SP \<in> set t then fit 128 (takeWhile (\<lambda>c. c \<noteq> SP) t) else [])"

definition info_of :: "cl_world \<Rightarrow> string \<Rightarrow> string option \<Rightarrow> string option \<Rightarrow> info_box" where
  "info_of w filename resp acl =
     (let owner_ss = cl_field resp ''owner'' 128; owner_nm = acl_owner acl;
          accessed = format_timestamp w (cl_uint resp ''last_accessed'') 64;
          by_whom = cl_field resp ''last_accessed_by'' 128
      in \<lparr>ib_filename = filename,
          ib_owner = (if owner_nm \<noteq> [] then owner_nm
             else if owner_ss \<noteq> [] \<and> owner_ss \<noteq> ''unknown'' then owner_ss else ''(none)''),
          ib_created = format_timestamp w (cl_uint resp ''created_at'') 64,
          ib_modified = format_timestamp w (cl_uint resp ''modified_at'') 64,
          ib_accessed = (if by_whom \<noteq> [] then fit 256 (accessed @ '' by '' @ by_whom) else accessed),
          ib_words = cl_uint resp ''word_count'', ib_chars = cl_uint resp ''char_count'',
          ib_sentences = cl_uint resp ''sentence_count'',
          ib_access = (if acl \<noteq> None \<and> acl \<noteq> Some [] then tokens (\<lambda>c. c = LF) (the acl)
             else [fit 256 ((if owner_ss \<noteq> [] then owner_ss else ''owner'') @ '' (owner only)'')])\<rparr>)"

definition cl_cmd_info :: "client_context \<Rightarrow> string list \<Rightarrow> cl_world \<Rightarrow> cl_world" where
  "cl_cmd_info ctx argv w = (if length argv < 2 then say (Usage ''INFO <filename>'') w
     else let filename = argv ! 1 in
       with_storage ctx filename (storage_request OP_INFO_REQUEST (request_text [(''filename'', filename), user_field ctx])
         (\<lambda>resp w1. case acl_answer ctx filename w1 of (acl, w2) \<Rightarrow> say (Info_Shown (info_of w2 filename resp acl)) w2)) w)"

function stream_loop :: "link \<Rightarrow> cl_world \<Rightarrow> cl_world" where
  "stream_loop l w = (case cl_recv_message l w of
     (None, _) \<Rightarrow> w
   | (Some (opc, chunk), l1) \<Rightarrow>
       if opc = opcode_code OP_ERROR then display_error chunk w
       else if opc = opcode_code OP_DATA_RESPONSE then w
       else stream_loop l1 (if opc = opcode_code OP_DATA_CHUNK \<and> chunk \<noteq> None
              then say (Streamed (cl_field chunk ''word'' 512)) w else w))"
  by pat_completeness auto
termination
  by (relation "measure (\<lambda>(l, _). script_size (snd l))") (auto dest!: cl_recv_uses [OF sym])

declare stream_loop.simps [simp del]

definition cl_cmd_stream :: "client_context \<Rightarrow> string list \<Rightarrow> cl_world \<Rightarrow> cl_world" where
  "cl_cmd_stream ctx argv w = (if length argv < 2 then say (Usage ''STREAM <filename>'') w
     else let filename = argv ! 1 in
       with_storage ctx filename (\<lambda>l w1.
         case cl_send_message OP_STREAM_REQUEST 0 (request_text [(''filename'', filename), user_field ctx]) l w1 of
           (sent, l1, w2) \<Rightarrow> if \<not> sent then w2 else say Stream_Complete (stream_loop l1 (say (Streaming filename) w2))) w)"

end
