(* ===== verification/Client_Main.thy ===== *)
theory Client_Main
  imports Client_Session
begin

text \<open>
  The shell of the client (\<open>client/main.c\<close>): registration, the dispatch of a line and the loop over standard input. What
  any command leaves alone is the relation \<open>extends\<close>: it logs more, reads further and uses further
  connections. With it the loop is shown to end.
\<close>

section \<open>Registration and dispatch\<close>

definition client_register_text :: "client_context \<Rightarrow> string" where
  \<open>client_register_text ctx = fit 256 (''{'' @ json_fields [user_field ctx, (''client_ip'', ''0.0.0.0'')]
     ('',"client_port":'' @ show_nat (unat (cc_client_port ctx)) @ ''}''))\<close>

definition register_client :: "client_context \<Rightarrow> cl_world \<Rightarrow> bool \<times> cl_world" where
  "register_client ctx w = (case nm_ask ctx OP_REGISTER_CLIENT 1 (client_register_text ctx) w of
     (Cl_No_Connection, w1) \<Rightarrow> (False, say (Warn ''Failed to connect to Name Server'') w1)
   | (Cl_Not_Sent, w1) \<Rightarrow> (False, say (Warn ''Failed to send registration'') w1)
   | (Cl_Not_Received, w1) \<Rightarrow> (False, say (Warn ''Failed to receive registration response'') w1)
   | (Cl_Answer opc resp, w1) \<Rightarrow>
       if opc = opcode_code OP_REGISTER_ACK then (True, say (Shell (Connected_As (cc_username ctx))) w1)
       else if opc = opcode_code OP_ERROR then (False, say (Shell (Registration_Error (or_text resp ''Unknown''))) w1)
       else (False, say (Warn ''Unexpected response opcode'') w1))"

definition client_command :: "client_context \<Rightarrow> string list \<Rightarrow> (cl_world \<Rightarrow> cl_world) option" where
  "client_command ctx argv = map_option (\<lambda>f. f ctx argv) (map_of
     [(''VIEW'', cl_cmd_view), (''READ'', cl_cmd_read), (''CREATE'', cl_cmd_create), (''WRITE'', cl_cmd_write),
      (''DELETE'', cl_cmd_delete), (''UNDO'', cl_cmd_undo), (''INFO'', cl_cmd_info), (''STREAM'', cl_cmd_stream),
      (''LIST'', cl_cmd_list), (''ADDACCESS'', cl_cmd_addaccess), (''REMACCESS'', cl_cmd_remaccess),
      (''REQUESTACCESS'', cl_cmd_requestaccess), (''LISTREQUESTS'', cl_cmd_listrequests),
      (''APPROVEREQUEST'', cl_cmd_approverequest), (''DENYREQUEST'', cl_cmd_denyrequest),
      (''CHECKPOINT'', cl_cmd_checkpoint), (''LISTCHECKPOINTS'', cl_cmd_listcheckpoints),
      (''VIEWCHECKPOINT'', cl_cmd_viewcheckpoint), (''REVERTCHECKPOINT'', cl_cmd_revertcheckpoint),
      (''EXEC'', cl_cmd_exec), (''CREATEFOLDER'', cl_cmd_createfolder), (''MOVE'', cl_cmd_move),
      (''VIEWFOLDER'', cl_cmd_viewfolder)] (hd argv))"

text \<open>The first sixteen tokens of the line; the result \<open>-1\<close> ends the shell.\<close>

definition parse_and_execute :: "client_context \<Rightarrow> string \<Rightarrow> cl_world \<Rightarrow> int \<times> cl_world" where
  "parse_and_execute ctx line w =
     (let argv = take 16 (tokens client_sep (c_str line)) in
      if argv = [] then (0, w)
      else if hd argv = ''exit'' \<or> hd argv = ''quit'' then (-1, w)
      else if hd argv = ''help'' then (0, say (Shell Help) w)
      else case client_command ctx argv of
          Some f \<Rightarrow> (0, f w)
        | None \<Rightarrow> (0, say (Shell (Unknown_Command (hd argv))) w))"

section \<open>What commands leave alone\<close>

definition extends :: "cl_world \<Rightarrow> cl_world \<Rightarrow> bool" where
  "extends w w' \<longleftrightarrow> prefix (cw_log w) (cw_log w') \<and> suffix (cw_stdin w') (cw_stdin w) \<and> suffix (cw_conns w') (cw_conns w)
     \<and> cw_big w' = cw_big w \<and> cw_junk w' = cw_junk w \<and> cw_date w' = cw_date w"

lemma extends_refl [simp]: "extends w w"
  by (simp add: extends_def)

lemma extends_trans [trans]: "extends w w1 \<Longrightarrow> extends w1 w2 \<Longrightarrow> extends w w2"
  unfolding extends_def by (auto intro: prefix_order.trans suffix_order.trans)

lemma extends_note: "extends w (note_event e w)"
  by (simp add: extends_def note_event_def)

lemma extends_say: "extends w (say m w)"
  by (simp add: say_def extends_note)

lemma extends_say_after: "extends w w1 \<Longrightarrow> extends w (say m w1)"
  using extends_say extends_trans by blast

lemma extends_error_after: "extends w w1 \<Longrightarrow> extends w (display_error j w1)"
  by (simp add: display_error_def extends_say_after)

lemma extends_dial: "dial host port w = (r, w1) \<Longrightarrow> extends w w1"
  by (auto simp: dial_def extends_def note_event_def Let_def)

lemma extends_send: "cl_send_message opcode rid p l w = (b, l1, w1) \<Longrightarrow> extends w w1"
  by (auto simp: cl_send_message_def extends_note split: prod.splits)

lemma extends_ask_on: "cl_ask_on opcode rid p l w = (a, w1) \<Longrightarrow> extends w w1"
  by (auto simp: cl_ask_on_def dest: extends_send split: prod.splits if_splits option.splits)

lemma extends_ask: "nm_ask ctx opcode rid p w = (a, w1) \<Longrightarrow> extends w w1"
  by (auto simp: nm_ask_def cl_ask_def dest!: extends_ask_on extends_dial intro: extends_trans split: prod.splits option.splits)

lemmas extends_intros = extends_refl extends_say extends_say_after extends_error_after
lemmas extends_dests = extends_dial extends_send extends_ask_on extends_ask

lemma extends_nm_command:
  assumes "\<And>resp w. extends w (finish resp w)"
  shows "extends w (nm_command ctx name opcode rid p finish w)"
  using assms by (auto simp: nm_command_def intro: extends_intros dest!: extends_ask intro: extends_trans
      split: prod.splits cl_answer.splits option.splits)

lemma extends_failover: "failover i reps w = (r, w1) \<Longrightarrow> extends w w1"
proof (induction i reps w rule: failover.induct)
  case (2 i r rs w)
  obtain l w2 where d: "dial (rp_ip r) (word_of_nat (rp_port r)) (say (Failover i (rp_ip r) (rp_port r)) w) = (l, w2)"
    by (metis prod.exhaust)
  then have "extends w w2" using extends_dial extends_say extends_trans by blast
  with 2 d show ?case by (auto intro: extends_intros extends_trans split: option.splits)
qed simp

lemma extends_connect: "connect_storage name host port reps w = (r, w1) \<Longrightarrow> extends w w1"
  by (auto simp: connect_storage_def intro!: extends_intros dest!: extends_dial extends_failover intro: extends_trans
      split: prod.splits option.splits)

lemma extends_with_storage:
  assumes "\<And>l w. extends w (go l w)"
  shows "extends w (with_storage ctx filename go w)"
  using assms by (auto simp: with_storage_def intro: extends_intros dest!: extends_dests intro: extends_trans
      split: prod.splits cl_answer.splits option.splits)

lemma extends_storage_request:
  assumes "\<And>resp w. extends w (finish resp w)"
  shows "extends w (storage_request opcode p finish l w)"
  using assms by (auto simp: storage_request_def intro: extends_intros dest!: extends_ask_on intro: extends_trans
      split: prod.splits cl_answer.splits)

lemma extends_replicas: "send_replicas opcode p reps w = (reps', w1) \<Longrightarrow> extends w w1 \<and> cw_stdin w1 = cw_stdin w"
proof (induction reps arbitrary: w reps')
  case (Cons r rs)
  show ?case
  proof (cases "rp_link r")
    case (Some l)
    obtain b l1 w2 where m: "cl_send_message opcode 0 p l w = (b, l1, w2)" by (metis prod_cases3)
    have "cw_stdin w2 = cw_stdin w" using m by (auto simp: cl_send_message_def note_event_def split: prod.splits)
    with Cons Some m extends_send [OF m] show ?thesis by (auto intro: extends_trans split: prod.splits)
  qed (use Cons in \<open>auto split: prod.splits\<close>)
qed simp

lemma stdin_frame [simp]:
  "cw_stdin (say m w) = cw_stdin w" "cw_stdin (display_error j w) = cw_stdin w"
  by (simp_all add: display_error_def say_def note_event_def)

lemma stdin_send: "cl_send_message opcode rid p l w = (b, l1, w1) \<Longrightarrow> cw_stdin w1 = cw_stdin w"
  by (auto simp: cl_send_message_def note_event_def split: prod.splits)

lemma extends_commit: "commit_session reps l w = (b, w1) \<Longrightarrow> extends w w1 \<and> cw_stdin w1 = cw_stdin w"
proof -
  obtain s l1 w2 where m: "cl_send_message OP_WRITE_COMMIT 0 ''{}'' l w = (s, l1, w2)" by (metis prod_cases3)
  obtain reps' w3 where r: "send_replicas OP_WRITE_COMMIT ''{}'' reps w2 = (reps', w3)" by (metis prod.exhaust)
  have "extends w w3" "extends w w2" "cw_stdin w3 = cw_stdin w" "cw_stdin w2 = cw_stdin w"
    using extends_replicas [OF r] extends_send [OF m] stdin_send [OF m] by (auto intro: extends_trans)
  then show "commit_session reps l w = (b, w1) \<Longrightarrow> ?thesis"
    by (auto simp: commit_session_def m r Let_def intro!: extends_intros split: if_splits option.splits)
qed

lemma extends_write_line:
  "write_line reps count sent l line w = (nxt, w1) \<Longrightarrow> extends w w1 \<and> cw_stdin w1 = cw_stdin w"
  by (auto simp: write_line_def Let_def intro!: extends_intros dest!: extends_commit extends_replicas
      dest: extends_send stdin_send intro: extends_trans split: if_splits option.splits prod.splits)

lemma fgets_in_suffix: "suffix (snd (fgets_in n xs acc)) xs"
  by (induction n xs acc rule: fgets_in.induct) (auto intro: suffix_ConsI)

lemma extends_write_loop:
  "write_loop inp reps count sent l w = (b, n, w1) \<Longrightarrow> suffix inp (cw_stdin w) \<Longrightarrow> extends w w1"
proof (induction inp reps count sent l w rule: write_loop.induct)
  case (1 inp reps count sent l w)
  obtain r rest where f: "fgets_in 1023 inp [] = (r, rest)" by (metis prod.exhaust)
  have suf: "suffix rest (cw_stdin w)"
    using fgets_in_suffix [of 1023 inp "[]"] f "1.prems"(2) by (auto intro: suffix_order.trans)
  have stop: "extends w (w2\<lparr>cw_stdin := rest\<rparr>)" if "extends w w2" for w2
    using that suf by (simp add: extends_def)
  show ?case
  proof (cases r)
    case (Got line)
    obtain nxt w2 where t: "write_line reps count sent l (chomp line) (say (Writing Prompt) w) = (nxt, w2)" by (metis prod.exhaust)
    have w2: "extends w w2" "cw_stdin w2 = cw_stdin w"
      using extends_write_line [OF t] extends_trans [OF extends_say, of "Writing Prompt" w w2] by auto
    show ?thesis
    proof (cases nxt)
      case (W_Stop c)
      then show ?thesis using "1.prems"(1) f Got t stop [OF w2(1)] by (subst (asm) write_loop.simps) simp
    next
      case (W_Go reps' count' sent' l')
      then have "write_loop rest reps' count' sent' l' w2 = (b, n, w1)"
        using "1.prems"(1) f Got t by (subst (asm) write_loop.simps) simp
      from "1.IH" [OF f [symmetric] Got t [symmetric] W_Go this] show ?thesis using w2 suf extends_trans by auto
    qed
  qed (use "1.prems"(1) f stop [OF extends_say] write_loop.simps [of inp reps count sent l w] in auto)
qed

lemma extends_run_write_session: "extends w (run_write_session filename idx reps count l w)"
proof -
  define w3 where "w3 = say (Writing (Word_Count count)) (if reps \<noteq> []
     then say (Writing (Replicating (length (filter (\<lambda>r. rp_link r \<noteq> None) reps)))) (say (Writing (Lock_Acquired filename idx)) w)
     else say (Writing (Lock_Acquired filename idx)) w)"
  have w3: "extends w w3" by (auto simp: w3_def intro!: extends_intros)
  obtain b n w4 where l: "write_loop (cw_stdin w3) reps count 0 l w3 = (b, n, w4)" by (metis prod_cases3)
  have "extends w w4" using extends_write_loop [OF l] w3 extends_trans by auto
  then show ?thesis unfolding run_write_session_def Let_def w3_def [symmetric] l by (auto intro: extends_intros)
qed

lemma extends_stream: "extends w (stream_loop l w)"
proof (induction "script_size (snd l)" arbitrary: l w rule: less_induct)
  case less
  obtain r l1 where rc: "cl_recv_message l w = (r, l1)" by (metis prod.exhaust)
  show ?case
  proof (cases r)
    case None
    with rc show ?thesis by (subst stream_loop.simps) simp
  next
    case (Some m)
    have "extends w (stream_loop l1 w1)" if "extends w w1" for w1
      using that less [OF cl_recv_uses, of w m l1] rc Some extends_trans by blast
    with rc Some show ?thesis
      by (cases m, subst stream_loop.simps) (auto intro: extends_intros)
  qed
qed

lemma extends_write_on: "extends w (write_on ctx filename idx reps l w)"
  by (auto simp: write_on_def intro!: extends_intros intro: extends_trans [OF extends_send extends_run_write_session]
      dest: extends_send split: prod.splits option.splits)

lemma extends_read_from: "extends w (read_from ctx filename l w)"
  by (auto simp: read_from_def intro!: extends_intros dest: extends_ask_on split: prod.splits cl_answer.splits option.splits)

lemma extends_acl: "acl_answer ctx filename w = (acl, w1) \<Longrightarrow> extends w w1"
  by (auto simp: acl_answer_def intro!: extends_intros dest: extends_ask split: prod.splits cl_answer.splits if_splits)

lemma extends_read: "extends w (cl_cmd_read ctx argv w)"
  by (auto simp: cl_cmd_read_def Let_def intro!: extends_intros dest: extends_ask extends_connect
      intro: extends_trans [OF extends_trans [OF extends_ask extends_connect] extends_read_from] extends_trans
      split: prod.splits cl_answer.splits option.splits)

lemma extends_write: "extends w (cl_cmd_write ctx argv w)"
  by (auto simp: cl_cmd_write_def Let_def intro!: extends_intros dest: extends_ask extends_connect
      intro: extends_trans [OF extends_trans [OF extends_ask extends_connect] extends_write_on] extends_trans
      split: prod.splits cl_answer.splits option.splits)

lemma extends_undo: "extends w (cl_cmd_undo ctx argv w)"
  by (auto simp: cl_cmd_undo_def Let_def intro!: extends_intros extends_with_storage extends_storage_request)

lemma extends_info: "extends w (cl_cmd_info ctx argv w)"
  by (auto simp: cl_cmd_info_def Let_def intro!: extends_intros extends_with_storage extends_storage_request
      dest: extends_acl split: prod.splits)

lemma extends_cmd_stream: "extends w (cl_cmd_stream ctx argv w)"
  by (auto simp: cl_cmd_stream_def Let_def intro!: extends_intros extends_with_storage dest!: extends_send
      intro: extends_trans [OF _ extends_trans [OF extends_say extends_stream]] split: prod.splits)

lemmas nm_command_defs = cl_cmd_view_def cl_cmd_create_def cl_cmd_delete_def cl_cmd_list_def cl_cmd_addaccess_def cl_cmd_remaccess_def
  cl_cmd_requestaccess_def cl_cmd_listrequests_def cl_cmd_approverequest_def cl_cmd_denyrequest_def decide_request_def
  cl_cmd_checkpoint_def cl_cmd_viewcheckpoint_def cl_cmd_revertcheckpoint_def tag_command_def cl_cmd_listcheckpoints_def
  cl_cmd_exec_def cl_cmd_createfolder_def cl_cmd_move_def cl_cmd_viewfolder_def

lemma extends_command: "client_command ctx argv = Some f \<Longrightarrow> extends w (f w)"
  by (auto simp: client_command_def extends_read extends_write extends_undo extends_info extends_cmd_stream split: if_splits)
    (auto simp: nm_command_defs Let_def intro!: extends_intros extends_nm_command split: option.splits)

lemma extends_execute: "parse_and_execute ctx line w = (rc, w1) \<Longrightarrow> extends w w1"
  by (auto simp: parse_and_execute_def Let_def extends_say dest: extends_command split: if_splits option.splits)

lemma execute_uses:
  assumes "(rc, w1) = parse_and_execute ctx line (w\<lparr>cw_stdin := rest\<rparr>)"
  shows "length (cw_stdin w1) \<le> length rest"
  using extends_execute [OF assms [symmetric]] by (auto simp: extends_def dest: suffix_length_le)

section \<open>The shell\<close>

text \<open>After a read error the flag is cleared and the loop goes on; at the end of the input it stops.\<close>

function shell :: "client_context \<Rightarrow> cl_world \<Rightarrow> cl_world" where
  "shell ctx w = (case fgets_in 2047 (cw_stdin w) [] of
     (At_Eof, rest) \<Rightarrow> w\<lparr>cw_stdin := rest\<rparr>
   | (Read_Error, rest) \<Rightarrow> shell ctx (say (Warn ''Error reading input'') (w\<lparr>cw_stdin := rest\<rparr>))
   | (Got line, rest) \<Rightarrow> (case parse_and_execute ctx line (w\<lparr>cw_stdin := rest\<rparr>) of
       (rc, w1) \<Rightarrow> if rc < 0 then w1 else shell ctx w1))"
  by pat_completeness auto
termination
  by (relation "measure (\<lambda>(ctx, w). length (cw_stdin w))") (auto dest!: fgets_in_uses [OF sym] execute_uses)

declare shell.simps [simp del]

definition client_main :: "string list \<Rightarrow> cl_world \<Rightarrow> int \<times> cl_world" where
  "client_main argv w = (if length argv \<noteq> 3 then (1, say (Usage ''<nm-host> <nm-port>'') w)
     else (case fgets_in 127 (cw_stdin w) [] of
         (Got line, rest) \<Rightarrow>
           (let ctx = \<lparr>cc_nm_host = fit 256 (argv ! 1), cc_nm_port = word_of_nat (fst (strtoul (argv ! 2))),
                  cc_username = chomp line, cc_client_port = 7000, cc_session_token = []\<rparr>;
                w1 = w\<lparr>cw_stdin := rest\<rparr>
            in if cc_username ctx = [] then (1, say (Warn ''Username cannot be empty'') w1)
               else (case register_client ctx w1 of (ok, w2) \<Rightarrow>
                 if \<not> ok then (1, w2) else (0, say (Shell Goodbye) (shell ctx w2))))
       | (_, rest) \<Rightarrow> (1, say (Warn ''Failed to read username'') (w\<lparr>cw_stdin := rest\<rparr>))))"

end
