(* ===== verification/Client_Links.thy ===== *)
theory Client_Links
  imports Client_Main Links
begin

text \<open>
  What the client and the servers understand of each other: the client as a reader of fields, an exchange of the client with a
  peer whose answer arrives, number fields behind string fields, the address in a lookup answer, and a stream of messages.
\<close>

section \<open>Fields\<close>

lemma cl_get_string_Some [simp]: "cl_json_get_string (Some j) key n = json_get_string j key n"
  by (simp add: cl_json_get_string_def)

interpretation client_fields: field_reader "\<lambda>j. cl_json_get_string (Some j)"
  by unfold_locales (simp add: nm_fields.get_field)

section \<open>Exchanges of the client\<close>

text \<open>Messages that arrive one after the other, in any fragmentation.\<close>

definition wire_bytes :: "bool \<Rightarrow> protocol_opcode_t \<Rightarrow> u32 \<Rightarrow> string \<Rightarrow> u8 list" where
  "wire_bytes big opcode request_id body =
     the (protocol_encode_header big (Some (message_for (opcode_code opcode) request_id (Some body)))) @ map byte_of_char body"

definition text_body :: "string \<Rightarrow> bool" where
  "text_body body \<longleftrightarrow> NUL \<notin> set body \<and> body \<noteq> [] \<and> length body < 2 ^ 31"

definition stream_of :: "bool \<Rightarrow> reply list \<Rightarrow> recv_event list \<Rightarrow> bool" where
  "stream_of big msgs revs \<longleftrightarrow> (\<forall>(opc, body)\<in>set msgs. text_body body)
     \<and> (\<exists>rest. stream revs = concat (map (\<lambda>(opc, body). wire_bytes big opc 0 body) msgs) @ rest)"

lemma arrives_bytes: "arrives big opc rid body revs \<Longrightarrow> \<exists>rest. stream revs = wire_bytes big opc rid body @ rest"
  by (auto simp: arrives_def wire_bytes_def)

lemma cl_recv_bytes:
  assumes "text_body body" and "stream revs = wire_bytes big opc rid body @ rest"
  obtains revs' where "cl_recv_message (sevs, revs) w = (Some (opcode_code opc, Some body), (sevs, revs'))" and "stream revs' = rest"
proof -
  obtain hb where hb: "protocol_encode_header big (Some (message_for (opcode_code opc) rid (Some body))) = Some hb"
    using wire.enc_total by blast
  have st: "stream revs = hb @ map byte_of_char body @ rest" using assms(2) hb by (simp add: wire_bytes_def)
  have b: "NUL \<notin> set body" "body \<noteq> []" "length body < 2 ^ 31" using assms(1) by (simp_all add: text_body_def)
  obtain revs' where "recv_message (cw_big w) 3 (cw_junk w) revs = (Some (message_for (opcode_code opc) rid (Some body), Some body), revs')"
    "stream revs' = rest"
    using recv_message_framed [OF _ b(1,3) hb st, of 3 "cw_big w" "cw_junk w"] b(2) by auto
  then show thesis using that by (simp add: cl_recv_message_def message_for_def)
qed

lemma cl_send_fine:
  assumes "length payload < 2 ^ 31"
  shows "cl_send_message opcode rid payload ([], revs) w = (True, ([], revs), note_event (Sent opcode rid payload True) w)"
  using send_message_ok [OF _ assms, of 3] by (simp add: cl_send_message_def)

lemma cl_ask_on_answer:
  assumes "length payload < 2 ^ 31" and "arrives big opc rid' body revs" and "text_body body"
  shows "cl_ask_on opcode rid payload ([], revs) w =
    (Cl_Answer (opcode_code opc) (Some body), note_event (Sent opcode rid payload True) w)"
proof -
  obtain rest where st: "stream revs = wire_bytes big opc rid' body @ rest" using arrives_bytes [OF assms(2)] by blast
  obtain revs' where "cl_recv_message ([], revs) (note_event (Sent opcode rid payload True) w) =
      (Some (opcode_code opc, Some body), ([], revs'))"
    by (rule cl_recv_bytes [OF assms(3) st])
  then show ?thesis by (simp add: cl_ask_on_def cl_send_fine [OF assms(1)])
qed

lemma dial_next: "cw_conns w = Some l # cs \<Longrightarrow> dial host port w = (Some l, note_event (Dial host port True) (w\<lparr>cw_conns := cs\<rparr>))"
  by (simp add: dial_def)

lemma nm_ask_answer:
  assumes "cw_conns w = Some ([], revs) # cs" and "length payload < 2 ^ 31" and "arrives big opc rid' body revs" and "text_body body"
  shows "nm_ask ctx opcode rid payload w = (Cl_Answer (opcode_code opc) (Some body),
    w\<lparr>cw_conns := cs, cw_log := cw_log w @ [Dial (cc_nm_host ctx) (cc_nm_port ctx) True, Sent opcode rid payload True]\<rparr>)"
  using assms by (simp add: nm_ask_def cl_ask_def dial_next cl_ask_on_answer note_event_def)

section \<open>Requests of the client at the name server\<close>

definition names_ok :: "client_context \<Rightarrow> string \<Rightarrow> bool" where
  "names_ok ctx n \<longleftrightarrow> plain n \<and> length n < 256 \<and> plain (cc_username ctx) \<and> length (cc_username ctx) < 128
     \<and> n \<notin> {''username'', ''operation'', ''ss_ip'', ''ss_port''} \<and> cc_username ctx \<noteq> ''operation''"

lemma plain_keys [simp]:
  "plain ''filename''" "plain ''username''" "plain ''operation''" "plain ''ss_ip''" "plain ''ss_port''" "plain ''read''" "plain ''write''"
  "plain ''{''" "plain ''}''" "json_key ''filename''" "json_key ''username''" "json_key ''operation''" "json_key ''ss_ip''" "json_key ''ss_port''"
  by (simp_all add: plain_def json_key_def)

lemma strstr_last: "plain rest \<Longrightarrow> strstr (DQ # rest) (DQ # key @ [DQ]) = None"
proof -
  assume p: "plain rest"
  then have "strstr rest (DQ # key @ [DQ]) = None" by (auto simp: strstr_None plain_def sublist_def)
  moreover have "\<not> prefix (key @ [DQ]) rest" using p by (auto simp: prefix_def plain_def)
  ultimately show ?thesis using strstr_not_here by simp
qed

lemma strstr_absent:
  assumes "json_key key" and "fs \<noteq> []" and "apart key fs" and "plain pre" and "plain rest"
  shows "strstr (pre @ json_fields fs rest) (DQ # key @ [DQ]) = None"
proof -
  have "strstr (json_fields fs rest) (DQ # key @ [DQ]) = None" using assms(2,3)
  proof (induction fs)
    case (Cons f fs)
    obtain k v where f: "f = (k, v)" by (cases f)
    have p: "plain k" "plain v" "k \<noteq> key" "v \<noteq> key" using Cons.prems by (simp_all add: f)
    note last = strstr_last [OF assms(5), of key]
    show ?case
    proof (cases "fs = []")
      case True
      then show ?thesis using assms(1) p last by (simp add: f strstr_token strstr_between json_key_def del: strstr.simps)
    next
      case False
      then obtain r' where r': "json_fields fs rest = DQ # r'" by (cases fs) auto
      with Cons False show ?thesis using assms(1) p
        by (simp add: f strstr_token strstr_between json_key_def del: strstr.simps)
    qed
  qed simp
  then show ?thesis using assms(4) by (subst strstr_hd_absent [OF refl]) (auto simp: plain_def)
qed

lemma lookup_text_fits:
  assumes "names_ok ctx n" and "op = None \<or> op = Some ''read'' \<or> op = Some ''write''"
  shows "lookup_text ctx n op = ''{'' @ json_fields ([(''filename'', n), (''username'', cc_username ctx)]
     @ (case op of None \<Rightarrow> [] | Some x \<Rightarrow> [(''operation'', x)])) ''}''"
  using assms unfolding lookup_text_def request_text_def user_field_def by (auto simp: names_ok_def intro!: fit_id)

lemma lookup_text_read:
  assumes "names_ok ctx n" and "op = None \<or> op = Some ''read'' \<or> op = Some ''write''"
  shows "json_get_string (lookup_text ctx n op) ''filename'' MAX_FILENAME_LEN = Some n"
    and "json_field (lookup_text ctx n op) ''username'' MAX_USERNAME_LEN ''anonymous'' = cc_username ctx"
    and "wants_write (lookup_text ctx n op) \<longleftrightarrow> op = Some ''write''"
    and "length (lookup_text ctx n op) < 2 ^ 31"
proof -
  note n = assms(1) [unfolded names_ok_def]
  let ?fs = "[(''filename'', n), (''username'', cc_username ctx)]"
  let ?os = "case op of None \<Rightarrow> [] | Some x \<Rightarrow> [(''operation'', x)]"
  note t = lookup_text_fits [OF assms]
  show "json_get_string (lookup_text ctx n op) ''filename'' MAX_FILENAME_LEN = Some n" unfolding t
    by (rule nm_fields.get_fits [of _ _ 0]) (use n in \<open>auto simp: MAX_FILENAME_LEN_def\<close>)
  have "json_get_string (lookup_text ctx n op) ''username'' MAX_USERNAME_LEN = Some (cc_username ctx)" unfolding t
    by (rule nm_fields.get_fits [of _ _ 1]) (use n in \<open>auto simp: MAX_USERNAME_LEN_def\<close>)
  then show "json_field (lookup_text ctx n op) ''username'' MAX_USERNAME_LEN ''anonymous'' = cc_username ctx"
    by (simp add: json_field_def)
  show "wants_write (lookup_text ctx n op) \<longleftrightarrow> op = Some ''write''"
  proof (cases op)
    case None
    then have "strstr (lookup_text ctx n op) (DQ # ''operation'' @ [DQ]) = None" unfolding t
      using n by (subst strstr_absent) auto
    with None show ?thesis by (simp add: wants_write_def)
  next
    case (Some x)
    then have "strstr (lookup_text ctx n op) (DQ # ''operation'' @ [DQ]) = Some (json_fields [(''operation'', x)] ''}'')" unfolding t
      using n strstr_field [of "''operation''" ?fs "''{''" x "[]" "''}''"] by auto
    moreover have "x = ''read'' \<or> x = ''write''" using Some assms(2) by simp
    ultimately show ?thesis using Some by (auto simp: wants_write_def)
  qed
  have "length (lookup_text ctx n op) < 512" unfolding lookup_text_def request_text_def by (rule length_fit) simp
  then show "length (lookup_text ctx n op) < 2 ^ 31" by simp
qed

section \<open>The address in a lookup answer\<close>

definition servers_ok :: "nm_state \<Rightarrow> bool" where
  "servers_ok st \<longleftrightarrow> (\<forall>s\<in>set (nm_servers st). plain (si_ip s) \<and> length (si_ip s) < 64 \<and> si_ip s \<noteq> ''ss_port'' \<and> si_client_port s \<noteq> 0)"

lemma fit_append: "length a < sz \<Longrightarrow> fit sz (a @ b) = a @ take (sz - 1 - length a) b"
  by (simp add: fit_def)

lemma fit_behind:
  assumes "length (pre @ json_fields fs mid) < sz"
  shows "\<exists>rest'. fit sz (pre @ json_fields fs (mid @ rest)) = pre @ json_fields fs (mid @ rest')"
proof -
  have "pre @ json_fields fs (mid @ r) = (pre @ json_fields fs mid) @ r" for r by (simp add: json_fields_append)
  then show ?thesis using fit_append [OF assms, of rest] by metis
qed

lemma found_server_answer:
  assumes "names_ok ctx n" and "plain ip" and "length ip < 64" and "ip \<noteq> ''ss_port''"
  shows "found_server (Some (fit 2048 (''{'' @ json_fields [(''filename'', n), (''ss_ip'', ip)]
    (CHR '','' # DQ # ''ss_port'' @ DQ # CHR '':'' # show_nat (unat (port :: u16)) @ CHR '','' # rest)))) = (ip, unat port)"
proof -
  note n = assms(1) [unfolded names_ok_def]
  let ?fs = "[(''filename'', n), (''ss_ip'', ip)]"
  have p: "unat port < 2 ^ 16" using unsigned_less [of port] by simp
  then have l: "length (show_nat (unat port)) \<le> 5" using show_nat_length [of "unat port" 5] by simp
  have "\<exists>rest'. fit 2048 (''{'' @ json_fields ?fs (CHR '','' # DQ # ''ss_port'' @ DQ # CHR '':'' # show_nat (unat port) @ CHR '','' # rest))
     = ''{'' @ json_fields ?fs (CHR '','' # DQ # ''ss_port'' @ DQ # CHR '':'' # show_nat (unat port) @ CHR '','' # rest')"
    using fit_behind [of "''{''" ?fs "CHR '','' # DQ # ''ss_port'' @ DQ # CHR '':'' # show_nat (unat port) @ '',''" 2048 rest] n assms(3) l by simp
  then obtain rest' where t: "fit 2048 (''{'' @ json_fields ?fs (CHR '','' # DQ # ''ss_port'' @ DQ # CHR '':'' # show_nat (unat port) @ CHR '','' # rest))
     = ''{'' @ json_fields ?fs (CHR '','' # DQ # ''ss_port'' @ DQ # CHR '':'' # show_nat (unat port) @ CHR '','' # rest')" ..
  have "json_get_string (''{'' @ json_fields ?fs r) ''ss_ip'' 256 = Some ip" for r
    by (rule nm_fields.get_fits [of _ _ 1]) (use n assms in auto)
  moreover have "json_get_uint (''{'' @ json_fields ?fs (CHR '','' # DQ # ''ss_port'' @ DQ # CHR '':'' # show_nat (unat port) @ CHR '','' # rest')) ''ss_port'' = Some (unat port)"
    by (rule json_get_uint_behind) (use n assms p in \<open>auto simp: ULONG_MAX_def is_digit_def\<close>)
  ultimately show ?thesis unfolding t
    by (simp only: found_server_def cl_field_def cl_uint_def cl_get_string_Some cl_json_get_uint_def option.case)
qed

section \<open>Errors the servers send\<close>

definition error_text_ok :: "string \<Rightarrow> bool" where
  "error_text_ok m \<longleftrightarrow> plain m \<and> m \<noteq> [] \<and> length m < 150 \<and> m \<notin> {''error'', ''message'', ''code''}"

lemma error_keys [simp]:
  "plain ''error''" "plain ''message''" "plain ''code''" "json_key ''error''" "json_key ''message''" "json_key ''code''"
  by (simp_all add: plain_def json_key_def)

lemma error_name_facts:
  "plain (protocol_error_name code) \<and> protocol_error_name code \<noteq> [] \<and> length (protocol_error_name code) < 30
     \<and> protocol_error_name code \<notin> {''error'', ''message'', ''code''}"
  by (cases code) (simp_all add: plain_def)

lemma get_none:
  assumes "strstr j (DQ # key @ [DQ]) = None" and "json_key key"
  shows "cl_field (Some j) key n = []" and "json_after_colon j key = None"
proof -
  have "fit 128 (DQ # key @ [DQ]) = DQ # key @ [DQ]" using assms(2) by (simp add: json_key_def fit_id)
  then show "json_after_colon j key = None" using assms(1) by (simp add: json_after_colon_def Let_def)
  then show "cl_field (Some j) key n = []" by (simp add: cl_field_def json_get_string_def)
qed

lemma strtol_no_number: "strtol (DQ # r) = (0, DQ # r, False)"
  by (simp add: strtol_def is_space_def is_digit_def)

lemma strtol_show_int:
  assumes "\<bar>c\<bar> \<le> LLONG_MAX" and "r = [] \<or> \<not> is_digit (hd r)"
  shows "strtol (show_int c @ r) = (c, r, False)"
proof -
  obtain d ds where d: "show_nat (nat \<bar>c\<bar>) = d # ds" "is_digit d" by (rule show_nat_Cons)
  then have nd: "\<not> is_space d" "d \<noteq> CHR ''-''" "d \<noteq> CHR ''+''" by (auto dest: is_digit_not_sign)
  have s: "takeWhile is_digit (ds @ r) = ds" "dropWhile is_digit (ds @ r) = r"
    using show_nat_split [OF assms(2), of "nat \<bar>c\<bar>"] d by simp_all
  have v: "int (digits_val (digit_val d) ds) = \<bar>c\<bar>" using digits_val_show_nat [of "nat \<bar>c\<bar>"] d(1) by simp
  show ?thesis
  proof (cases "c < 0")
    case True
    then have "show_int c @ r = CHR ''-'' # d # ds @ r" using d(1) by (simp add: show_int_def)
    moreover have "\<not> is_space (CHR ''-'')" by (simp add: is_space_def)
    ultimately show ?thesis using True v s d(2) assms(1) by (simp add: strtol_def Let_def)
  next
    case False
    then have "show_int c @ r = d # ds @ r" using d(1) by (simp add: show_int_def)
    with False v s nd d(2) assms(1) show ?thesis by (simp add: strtol_def Let_def)
  qed
qed

lemma nm_error_shown:
  assumes "error_text_ok m"
  shows "error_msg (Some (snd (snd (send_error rid code m)))) = Error_Shown m (Coded (protocol_error_name code))"
proof -
  note m = assms [unfolded error_text_ok_def]
  define name where "name = protocol_error_name code"
  have e: "plain name" "name \<noteq> []" "length name < 30" "name \<noteq> ''error''" "name \<noteq> ''message''" "name \<noteq> ''code''"
    using error_name_facts [of code] by (auto simp: name_def)
  let ?fs = "[(''code'', name), (''message'', m)]"
  have t: "snd (snd (send_error rid code m)) = ''{'' @ json_fields ?fs ''}''"
    using m e by (simp add: send_error_def nm_send_def name_def [symmetric] fit_id)
  define j where "j = ''{'' @ json_fields ?fs ''}''"
  have err: "cl_field (Some j) ''error'' 512 = []" unfolding j_def
    by (intro get_none strstr_absent) (use m e in auto)
  have msg: "cl_field (Some j) ''message'' 512 = m" unfolding cl_field_def j_def
    using client_fields.get_fits [of "''message''" "''{''" 1 ?fs m 512 "''}''"] m e by (simp del: cl_get_string_Some)
  have code: "cl_field (Some j) ''code'' 128 = name" unfolding cl_field_def j_def
    using client_fields.get_fits [of "''code''" "''{''" 0 ?fs name 128 "''}''"] m e by (simp del: cl_get_string_Some)
  have "json_after_colon (''{'' @ json_fields ([] @ (''code'', name) # [(''message'', m)]) ''}'') ''code'' = Some (DQ # name @ DQ # CHR '','' # json_fields [(''message'', m)] ''}'')"
    by (subst json_after_colon_field) simp_all
  then have int: "cl_json_get_int (Some j) ''code'' = None" unfolding j_def
    by (simp add: cl_json_get_int_def strtol_no_number)
  show ?thesis unfolding t name_def [symmetric] error_msg_def j_def [symmetric]
    using m e by (simp add: err msg code int Let_def)
qed

lemma ss_error_shown:
  assumes "error_text_ok m" and "\<bar>c\<bar> \<le> LLONG_MAX"
  shows "error_msg (Some (snd (error_reply m c))) =
    Error_Shown m (if c = 0 then No_Details else Numbered (get_error_message c) c)"
proof -
  note m = assms(1) [unfolded error_text_ok_def]
  let ?fs = "[(''error'', m)]" and ?r = "show_int c @ ''}''"
  let ?rest = "CHR '','' # DQ # ''code'' @ DQ # CHR '':'' # ?r"
  have "length (show_nat (nat \<bar>c\<bar>)) \<le> 19"
    using show_nat_length [of "nat \<bar>c\<bar>" 19] assms(2) by (simp add: LLONG_MAX_def)
  then have l: "length (show_int c) \<le> 20" by (cases "c < 0") (simp_all add: show_int_def)
  define j where "j = ''{'' @ json_fields ?fs ?rest"
  have t: "snd (error_reply m c) = j" unfolding j_def using m l by (simp add: error_reply_def fit_id)
  have pr: "plain (CHR '':'' # ?r)" using show_nat_digits [of "nat (- c)"] show_nat_digits [of "nat c"]
    by (auto simp: plain_def show_int_def is_digit_def split: if_splits)
  have nd: "?r = d # ds \<Longrightarrow> d \<noteq> DQ" "dropWhile (\<lambda>x. x = SP \<or> x = TAB) ?r = ?r" for d ds
    using show_nat_no_blank [of "nat c" "''}''"] pr by (auto simp: plain_def show_int_def)
  have err: "cl_field (Some j) ''error'' 512 = m" unfolding cl_field_def j_def
    using client_fields.get_fits [of "''error''" "''{''" 0 ?fs m 512 ?rest] m by (simp del: cl_get_string_Some)
  have ac: "json_after_colon j ''code'' = Some ?r" unfolding j_def
    using json_after_colon_behind [of "''code''" ?fs "''{''" ?r] m nd(2) by simp
  have code: "cl_field (Some j) ''code'' 128 = []"
    using nd(1) by (auto simp: cl_field_def json_get_string_def ac split: list.splits)
  have int: "cl_json_get_int (Some j) ''code'' = Some c"
    using strtol_show_int [OF assms(2), of "''}''"] by (simp add: cl_json_get_int_def ac is_digit_def show_int_def show_nat_nonempty)
  show ?thesis unfolding t error_msg_def using m by (simp add: err code int Let_def)
qed

end
