(* ===== verification/Client_Properties.thy ===== *)
theory Client_Properties
  imports Client_Links Nm_Properties Server_Properties
begin

text \<open>
  Properties of the client, and of commands through all three programs: client, name server and storage server. The servers' answers
  reach the client in any fragmentation; what the client sends is what their handlers are run on.
\<close>

section \<open>The lookup of the client\<close>

text \<open>The name server names a storage server: the user has the right and a holder of the file is alive.\<close>

definition served :: "nm_env \<Rightarrow> nm_state \<Rightarrow> file_record \<Rightarrow> string \<Rightarrow> bool \<Rightarrow> bool" where
  "served env st r user write \<longleftrightarrow> file_record_check_access r user write
     \<and> (\<exists>h\<in>set (live_holders (ne_now env) st r). server_load h \<noteq> 0xFFFFFFFF)"

lemma nm_send_inj: "nm_send opc rid body = nm_send opc' rid body' \<longleftrightarrow> opc = opc' \<and> body = body'"
  by (auto simp: nm_send_def message_for_def opcode_code_inj simp del: opcode_code.simps)

lemma map_filter_mem: "y \<in> set (List.map_filter f xs) \<Longrightarrow> \<exists>x\<in>set xs. f x = Some y"
  by (induction xs) (auto simp: List.map_filter_simps split: option.splits)

lemma live_holders_known: "h \<in> set (live_holders now st r) \<Longrightarrow> h \<in> set (nm_servers st)"
  unfolding live_holders_def
  by (drule map_filter_mem) (auto simp: live_holder_def find_storage_server_def dest: find_Some_mem split: option.splits if_splits)

lemma client_lookup:
  assumes "nm_ok st" and "ix_record (nm_file_index st) n = Some r" and "names_ok ctx n" and "servers_ok st"
    and "op = None \<or> op = Some ''read'' \<or> op = Some ''write''"
    and "handle_lookup_file env st rid (lookup_text ctx n op) = Some (st', [nm_send opc rid body])"
  shows "if served env st r (cc_username ctx) (op = Some ''write'') then opc = OP_LOOKUP_RESP
      \<and> (\<exists>h\<in>set (live_holders (ne_now env) st r). found_server (Some body) = (si_ip h, unat (si_client_port h)) \<and> si_client_port h \<noteq> 0)
    else opc = OP_ERROR"
proof -
  note q = lookup_text_read [OF assms(3,5)]
  have r: "lookup_reply env st rid n r (cc_username ctx) (op = Some ''write'') (nm_send opc rid body)"
    using lookup_replies [OF assms(1) q(1) assms(2), of env rid] assms(6) q(2,3) by auto
  show ?thesis
  proof (cases "served env st r (cc_username ctx) (op = Some ''write'')")
    case False
    then show ?thesis using r by (auto simp: served_def lookup_reply_def Let_def send_error_def nm_send_inj split: if_splits)
  next
    case True
    then obtain h rest where h: "h \<in> set (live_holders (ne_now env) st r)" and opc: "opc = OP_LOOKUP_RESP"
      and body: "body = fit 2048 (''{'' @ json_fields [(''filename'', n), (''ss_ip'', si_ip h)]
        (CHR '','' # DQ # ''ss_port'' @ DQ # CHR '':'' # show_nat (unat (si_client_port h)) @ CHR '','' # rest))"
      using r by (auto simp: served_def lookup_reply_def Let_def nm_send_inj split: if_splits)
    have "plain (si_ip h)" "length (si_ip h) < 64" "si_ip h \<noteq> ''ss_port''" "si_client_port h \<noteq> 0"
      using assms(4) live_holders_known [OF h] by (auto simp: servers_ok_def)
    with found_server_answer [OF assms(3)] h True opc body show ?thesis by auto
  qed
qed

section \<open>READ\<close>

definition read_text :: "client_context \<Rightarrow> string \<Rightarrow> string" where
  "read_text ctx n = request_text [(''filename'', n), (''operation'', ''read''), user_field ctx]"

lemma read_text_filename:
  assumes "names_ok ctx n"
  shows "ss_field (read_text ctx n) ''filename'' 256 [] = n" and "length (read_text ctx n) < 2 ^ 31"
proof -
  note n = assms [unfolded names_ok_def]
  let ?fs = "[(''filename'', n), (''operation'', ''read''), (''username'', cc_username ctx)]"
  have t: "read_text ctx n = ''{'' @ json_fields ?fs ''}''"
    using n unfolding read_text_def request_text_def user_field_def by (intro fit_id) simp
  show "ss_field (read_text ctx n) ''filename'' 256 [] = n" unfolding t ss_field_def
    using ss_fields.get_fits [of "''filename''" "''{''" 0 ?fs n 256 "''}''"] n by simp
  show "length (read_text ctx n) < 2 ^ 31" using n by (simp add: t)
qed

text \<open>The client shows the content up to its first quote, at most 8191 characters.\<close>

definition shown_text :: "string \<Rightarrow> string" where
  "shown_text t = fit 8192 (takeWhile (\<lambda>c. c \<noteq> DQ) t)"

lemma document_text_content:
  "document_text (fit (100 + length c * 2) (''{'' @ DQ # ''content'' @ DQ # CHR '':'' # DQ # c @ DQ # ''}'')) = shown_text c"
proof -
  let ?b = "''{'' @ DQ # ''content'' @ DQ # CHR '':'' # DQ # c @ DQ # ''}''"
  have f: "fit (100 + length c * 2) ?b = ?b" "fit 128 (DQ # ''content'' @ [DQ]) = DQ # ''content'' @ [DQ]"
    by (simp_all add: fit_id)
  have "strstr ?b (DQ # ''content'' @ [DQ]) = Some (DQ # ''content'' @ DQ # CHR '':'' # DQ # c @ DQ # ''}'')"
    by (subst strstr_hd_absent [OF refl]) (auto intro!: strstr_prefix simp: prefix_def)
  then have "json_after_colon ?b ''content'' = Some (DQ # c @ DQ # ''}'')"
    unfolding json_after_colon_def Let_def f(2) by simp
  moreover have "strchr (c @ DQ # ''}'') DQ \<noteq> None" by (simp add: strchr_None)
  moreover have "takeWhile (\<lambda>x. x \<noteq> DQ) (c @ DQ # ''}'') = takeWhile (\<lambda>x. x \<noteq> DQ) c" by (induction c) auto
  ultimately show ?thesis unfolding f(1) by (auto simp: document_text_def json_get_string_def shown_text_def)
qed

lemma read_reply:
  assumes "names_ok ctx n" and "storage_engine_read io now (ss_disk s) (ss_engine s) n = (STORAGE_OK, Some c, d, e)"
    and "handle_read_request io now s (read_text ctx n) = (s', [(opc, body)])"
  shows "opc = OP_DATA_RESPONSE" and "document_text body = shown_text c"
  using assms(2,3) read_text_filename [OF assms(1)] document_text_content [of c]
  by (auto simp: handle_read_request_def Let_def)

text \<open>
  C6: READ through all three programs: when the user may read the file and one of its holders is alive, the client connects to a live
  holder and shows the text the storage engine has for the file, up to its first quote and at most 8191 characters; otherwise it shows
  the name server's error and contacts no storage server.
\<close>
theorem read_end_to_end:
  assumes "nm_ok st" and "ix_record (nm_file_index st) n = Some r" and "names_ok ctx n" and "servers_ok st"
    and "handle_lookup_file env st 1 (lookup_text ctx n (Some ''read'')) = Some (st', [nm_send opc 1 body])"
    and "storage_engine_read io now (ss_disk s) (ss_engine s) n = (STORAGE_OK, Some c, d, e)"
    and "handle_read_request io now s (read_text ctx n) = (s', [(opc2, body2)])"
    and "cw_conns w = Some ([], revs) # Some ([], revs2) # cs"
    and "arrives big opc 1 body revs" and "text_body body" and "arrives big2 opc2 0 body2 revs2" and "text_body body2"
  shows "let ask = [Dial (cc_nm_host ctx) (cc_nm_port ctx) True, Sent OP_LOOKUP_FILE 1 (lookup_text ctx n (Some ''read'')) True] in
    if served env st r (cc_username ctx) False then
      \<exists>h\<in>set (live_holders (ne_now env) st r). cw_log (cl_cmd_read ctx [''READ'', n] w) = cw_log w @ ask @
        [Dial (si_ip h) (si_client_port h) True, Sent OP_DATA_REQUEST 2 (read_text ctx n) True, Show (Document n (shown_text c))]
    else cw_log (cl_cmd_read ctx [''READ'', n] w) = cw_log w @ ask @ [Show (error_msg (Some body))]"
proof -
  have op: "Some ''read'' = None \<or> Some ''read'' = Some ''read'' \<or> Some ''read'' = Some ''write''" by simp
  note l = client_lookup [OF assms(1-4) op assms(5)]
  note a = nm_ask_answer [OF assms(8) lookup_text_read(4) [OF assms(3) op] assms(9,10), of ctx OP_LOOKUP_FILE 1]
  show ?thesis
  proof (cases "served env st r (cc_username ctx) False")
    case False
    then have "opc = OP_ERROR" using l by simp
    with False show ?thesis by (simp add: cl_cmd_read_def a display_error_def say_def note_event_def del: opcode_code.simps)
  next
    case True
    then obtain h where h: "h \<in> set (live_holders (ne_now env) st r)" "found_server (Some body) = (si_ip h, unat (si_client_port h))"
      "si_client_port h \<noteq> 0" and opc: "opc = OP_LOOKUP_RESP" using l by auto
    have p: "unat (si_client_port h) \<noteq> 0" using h(3) by (simp add: unat_eq_zero)
    note b = cl_ask_on_answer [OF read_text_filename(2) [OF assms(3)] assms(11,12), of OP_DATA_REQUEST 2]
    note r = read_reply [OF assms(3,6,7)]
    show ?thesis using True h(1)
      by (auto simp: cl_cmd_read_def a h(2) p opc connect_storage_def dial_def read_from_def b [unfolded read_text_def]
          r read_text_def say_def note_event_def opcode_code_inj simp del: opcode_code.simps intro!: bexI [of _ h])
  qed
qed

text \<open>User \<open>u\<close> reads the file \<open>a\<close>, whose second holder is less loaded.\<close>

definition ctx0 :: client_context where
  "ctx0 = \<lparr>cc_nm_host = ''n'', cc_nm_port = 9, cc_username = ''u'', cc_client_port = 7000, cc_session_token = []\<rparr>"

definition world0 :: "(protocol_opcode_t \<times> u32 \<times> string) list \<Rightarrow> cl_world" where
  "world0 msgs = \<lparr>cw_big = False, cw_junk = (\<lambda>_. 0), cw_date = (\<lambda>_. None), cw_conns = map (\<lambda>(opc, rid, body).
     Some ([], [RData (the (protocol_encode_header False (Some (message_for (opcode_code opc) rid (Some body)))) @ map byte_of_char body)])) msgs,
     cw_stdin = [], cw_log = []\<rparr>"

definition lookup_body0 :: string where
  \<open>lookup_body0 = ''{"filename":"a","ss_ip":"h","ss_port":8,"owner":"u","replicas":[{"ip":"h","port":7}]}''\<close>

lemma names0: "names_ok ctx0 ''a''" "cc_username ctx0 = ''u''" and servers0: "servers_ok nm0"
  by (simp_all add: names_ok_def ctx0_def plain_def servers_ok_def nm0_def nm_server_def)

abbreviation record0 :: file_record where
  "record0 \<equiv> add_ss_id ''t'' (add_ss_id ''s'' (new_record 100 ''a'' ''u''))"

lemma record0_simps: "fr_ss_ids record0 = [''s'', ''t'']" "fr_owner record0 = ''u''" "file_record_check_access record0 ''u'' x"
  by (simp_all add: add_ss_id_def new_record_def MAX_SS_PER_FILE_def fit_def file_record_check_access_def MAX_USERNAME_LEN_def)

lemma nm0_servers: "nm_servers nm0 = [nm_server ''s'' 7 5, nm_server ''t'' 8 2]"
  by (simp add: nm0_def)

lemma lookup_of:
  assumes "names_ok ctx ''a''" and "op = None \<or> op = Some ''read'' \<or> op = Some ''write''" and "nm_ok st" and "nm_servers st = nm_servers nm0"
    and "ix_record (nm_file_index st) ''a'' = Some r" and "fr_ss_ids r = [''s'', ''t'']" and "fr_owner r = ''u''"
    and "file_record_check_access r (cc_username ctx) (op = Some ''write'')"
  shows "\<exists>c. handle_lookup_file nm_env0 st rid (lookup_text ctx ''a'' op) = Some (st\<lparr>nm_cache := c\<rparr>, [nm_send OP_LOOKUP_RESP rid lookup_body0])"
proof -
  note q = lookup_text_read [OF assms(1,2)]
  obtain c where c: "lru_cache_get 100 (nm_file_index st) ''a'' (nm_cache st) = Some (c, file_index_lookup (nm_file_index st) ''a'')"
    using nm_get_ok [OF assms(3), of "''a''" 100] by (auto simp: MAX_FILENAME_LEN_def)
  obtain p where p: "file_index_lookup (nm_file_index st) ''a'' = Some p" "ix_heap (nm_file_index st) p = Some r"
    using assms(5) by (cases "file_index_lookup (nm_file_index st) ''a''") (auto simp: ix_record_def)
  have now: "ne_now nm_env0 = 100" by (simp add: nm_env0_def)
  have f: "find_storage_server st ''s'' = Some (nm_server ''s'' 7 5)" "find_storage_server st ''t'' = Some (nm_server ''t'' 8 2)"
    by (simp_all add: find_storage_server_def assms(4) nm0_servers nm_server_def)
  have b: "best_loop 100 st [''s'', ''t''] 0 0xFFFFFFFF None = Some 1"
    by (simp add: f server_alive_def server_load_def) (simp add: nm_server_def)
  have r: "replicas_json 100 st [''s'', ''t''] (Suc 0) = ''['' @ replica_entry (nm_server ''s'' 7 5) @ '']''"
    by (simp add: replicas_json_def upt_rec List.map_filter_simps f server_alive_def) (simp add: nm_server_def)
  have body: "fit 2048 (''{'' @ json_fields [(''filename'', ''a''), (''ss_ip'', ''h'')] (CHR '','' # DQ # ''ss_port'' @ DQ # CHR '':'' # show_nat 8 @ CHR '','' #
      json_fields [(''owner'', ''u'')] (CHR '','' # DQ # ''replicas'' @ DQ # CHR '':'' # ''['' @ replica_entry (nm_server ''s'' 7 5) @ '']}''))) = lookup_body0"
    by code_simp
  have s: "si_ip (nm_server ''t'' 8 2) = ''h''" "unat (si_client_port (nm_server ''t'' 8 2)) = 8" by (simp_all add: nm_server_def)
  show ?thesis using c p body assms(6-8)
    by (intro exI [of _ c]) (simp add: handle_lookup_file_def q now Let_def b f r s del: best_loop.simps)
qed

lemma lookup0:
  "op = None \<or> op = Some ''read'' \<or> op = Some ''write'' \<Longrightarrow>
   \<exists>c. handle_lookup_file nm_env0 nm0 rid (lookup_text ctx0 ''a'' op) = Some (nm0\<lparr>nm_cache := c\<rparr>, [nm_send OP_LOOKUP_RESP rid lookup_body0])"
  by (rule lookup_of [OF names0(1) _ nm_ok0 refl nm0_record record0_simps(1,2)]) (simp_all add: names0(2) record0_simps)

lemma served0: "served nm_env0 nm0 record0 ''u'' x"
proof -
  have "nm_server ''t'' 8 2 \<in> set (live_holders (ne_now nm_env0) nm0 record0)" using nm0_live by (simp add: nm_env0_def)
  then show ?thesis unfolding served_def
    using record0_simps(3) by (auto simp: server_load_def nm_server_def intro!: bexI [of _ "nm_server ''t'' 8 2"])
qed

lemma world0_simps [simp]: "cw_log (world0 msgs) = []" "cw_stdin (world0 msgs) = []"
  by (simp_all add: world0_def)

lemma read0:
  obtains d e where "storage_engine_read io_fine 6 (ss_disk server0) (ss_engine server0) ''a'' = (STORAGE_OK, Some ''Hi you. Bye'', d, e)"
proof -
  obtain b d1 where "persist_metadata io_fine disk0 engine0 (doc0\<lparr>sf_last_accessed := 6\<rparr>) = (b, d1)" by fastforce
  then show thesis using that
    by (simp add: storage_engine_read_def server0_def engine0_load engine0_file doc0_content Let_def c_str_def)
qed

lemma arrives_text: "text_body x \<Longrightarrow> arrives False opc rid x
    [RData (the (protocol_encode_header False (Some (message_for (opcode_code opc) rid (Some x)))) @ map byte_of_char x)]"
  by (rule arrives_whole) (simp add: text_body_def)

lemma text_body_lookup0: "text_body lookup_body0"
  by (simp add: text_body_def lookup_body0_def)

definition read_body0 :: string where
  \<open>read_body0 = ''{"content":"Hi you. Bye"}''\<close>

theorem read_end_to_end_witness:
  "last (cw_log (cl_cmd_read ctx0 [''READ'', ''a''] (world0 [(OP_LOOKUP_RESP, 1, lookup_body0), (OP_DATA_RESPONSE, 0, read_body0)])))
     = Show (Document ''a'' ''Hi you. Bye'')"
proof -
  obtain c where l: "handle_lookup_file nm_env0 nm0 1 (lookup_text ctx0 ''a'' (Some ''read'')) = Some (nm0\<lparr>nm_cache := c\<rparr>, [nm_send OP_LOOKUP_RESP 1 lookup_body0])"
    using lookup0 [of "Some ''read''" 1] by auto
  obtain d e where rd: "storage_engine_read io_fine 6 (ss_disk server0) (ss_engine server0) ''a'' = (STORAGE_OK, Some ''Hi you. Bye'', d, e)"
    by (rule read0)
  obtain s' where h: "handle_read_request io_fine 6 server0 (read_text ctx0 ''a'') = (s', [(OP_DATA_RESPONSE, read_body0)])"
    using rd read_text_filename [OF names0(1)] by (simp add: handle_read_request_def Let_def read_body0_def fit_def)
  have b: "text_body read_body0" by (simp add: text_body_def read_body0_def)
  have "shown_text ''Hi you. Bye'' = ''Hi you. Bye''" by (simp add: shown_text_def fit_def)
  with read_end_to_end [OF nm_ok0 nm0_record names0(1) servers0 l rd h, of "world0 [(OP_LOOKUP_RESP, 1, lookup_body0), (OP_DATA_RESPONSE, 0, read_body0)]",
      OF _ arrives_text [OF text_body_lookup0] text_body_lookup0 arrives_text [OF b] b] served0 [of False]
  show ?thesis by (auto simp: world0_def names0(2) Let_def simp del: opcode_code.simps)
qed

section \<open>UNDO\<close>

lemma storage_text_filename:
  assumes "names_ok ctx n"
  shows "ss_field (lookup_text ctx n None) ''filename'' 256 [] = n"
    and "ss_field (lookup_text ctx n None) ''username'' 128 ''unknown'' = cc_username ctx"
proof -
  note n = assms [unfolded names_ok_def]
  have t: "lookup_text ctx n None = ''{'' @ json_fields [(''filename'', n), (''username'', cc_username ctx)] ''}''"
    using lookup_text_fits [OF assms, of None] by simp
  show "ss_field (lookup_text ctx n None) ''filename'' 256 [] = n" unfolding t ss_field_def
    using ss_fields.get_fits [of "''filename''" "''{''" 0 "[(''filename'', n), (''username'', cc_username ctx)]" n 256 "''}''"] n by simp
  show "ss_field (lookup_text ctx n None) ''username'' 128 ''unknown'' = cc_username ctx" unfolding t ss_field_def
    using ss_fields.get_fits [of "''username''" "''{''" 1 "[(''filename'', n), (''username'', cc_username ctx)]" "cc_username ctx" 128 "''}''"] n by simp
qed

text \<open>The beginning UNDO, INFO and STREAM share: the client is connected to a live holder.\<close>

lemma with_storage_served:
  assumes "nm_ok st" and "ix_record (nm_file_index st) n = Some r" and "names_ok ctx n" and "servers_ok st"
    and "handle_lookup_file env st 0 (lookup_text ctx n None) = Some (st', [nm_send opc 0 body])"
    and "cw_conns w = Some ([], revs) # Some l # cs" and "arrives big opc 0 body revs" and "text_body body"
    and "served env st r (cc_username ctx) False"
  obtains h w1 where "h \<in> set (live_holders (ne_now env) st r)" and "with_storage ctx n go w = go l w1"
    and "cw_log w1 = cw_log w @ [Dial (cc_nm_host ctx) (cc_nm_port ctx) True, Sent OP_LOOKUP_FILE 0 (lookup_text ctx n None) True,
       Dial (si_ip h) (si_client_port h) True]"
proof -
  have op: "None = None \<or> None = Some ''read'' \<or> None = Some ''write''" by simp
  note a = nm_ask_answer [OF assms(6) lookup_text_read(4) [OF assms(3) op] assms(7,8), of ctx OP_LOOKUP_FILE 0]
  obtain h where h: "h \<in> set (live_holders (ne_now env) st r)" "found_server (Some body) = (si_ip h, unat (si_client_port h))"
    "si_client_port h \<noteq> 0" and opc: "opc = OP_LOOKUP_RESP" using client_lookup [OF assms(1-4) op assms(5)] assms(9) by auto
  have "unat (si_client_port h) \<noteq> 0" using h(3) by (simp add: unat_eq_zero)
  then show thesis using that [OF h(1)] by (simp add: with_storage_def a h(2) opc dial_def note_event_def opcode_code_inj del: opcode_code.simps)
qed

text \<open>
  C19: UNDO asks for no right to write: a user who may read a file but not write it can undo the last change of its owner.
  The lookup names no operation, the name server answers as for a read, and the storage server does not ask who sends.
\<close>
theorem undo_by_reader:
  assumes "nm_ok st" and "ix_record (nm_file_index st) n = Some r" and "names_ok ctx n" and "servers_ok st"
    and "handle_lookup_file env st 0 (lookup_text ctx n None) = Some (st', [nm_send opc 0 body])"
    and "cw_conns w = Some ([], revs) # Some ([], revs2) # cs" and "arrives big opc 0 body revs" and "text_body body"
    and "served env st r (cc_username ctx) False" and "\<not> file_record_check_access r (cc_username ctx) True"
    and "handle_undo_request io now s (lookup_text ctx n None) = (s', [(opc2, body2)])"
    and "storage_engine_undo io now (ss_disk s) (ss_engine s) n = (STORAGE_OK, d, e)"
    and "arrives big2 opc2 0 body2 revs2" and "text_body body2"
  shows "s' = mark_access io now n (cc_username ctx) (s\<lparr>ss_disk := d, ss_engine := e\<rparr>)
    \<and> (\<exists>h\<in>set (live_holders (ne_now env) st r). cw_log (cl_cmd_undo ctx [''UNDO'', n] w) = cw_log w @
        [Dial (cc_nm_host ctx) (cc_nm_port ctx) True, Sent OP_LOOKUP_FILE 0 (lookup_text ctx n None) True,
         Dial (si_ip h) (si_client_port h) True, Sent OP_UNDO_REQUEST 0 (lookup_text ctx n None) True, Show (Done File_Undone [n])])"
proof -
  have u: "s' = mark_access io now n (cc_username ctx) (s\<lparr>ss_disk := d, ss_engine := e\<rparr>)" "opc2 = OP_DATA_RESPONSE"
    using assms(11,12) storage_text_filename [OF assms(3)] by (auto simp: handle_undo_request_def Let_def)
  have t: "request_text [(''filename'', n), user_field ctx] = lookup_text ctx n None" by (simp add: lookup_text_def)
  define go where "go = storage_request OP_UNDO_REQUEST (lookup_text ctx n None) (\<lambda>_. say (Done File_Undone [n]))"
  obtain h w1 where h: "h \<in> set (live_holders (ne_now env) st r)" "with_storage ctx n go w = go ([], revs2) w1"
    "cw_log w1 = cw_log w @ [Dial (cc_nm_host ctx) (cc_nm_port ctx) True, Sent OP_LOOKUP_FILE 0 (lookup_text ctx n None) True,
       Dial (si_ip h) (si_client_port h) True]"
    by (rule with_storage_served [OF assms(1-9), of go])
  have "length (lookup_text ctx n None) < 2 ^ 31" using lookup_text_read(4) [OF assms(3), of None] by simp
  note b = cl_ask_on_answer [OF this assms(13,14), of OP_UNDO_REQUEST 0 w1]
  have "cw_log (cl_cmd_undo ctx [''UNDO'', n] w) = cw_log (go ([], revs2) w1)"
    by (simp add: cl_cmd_undo_def t go_def [symmetric] h(2))
  then show ?thesis using u h(1,3)
    by (auto simp: go_def storage_request_def b say_def note_event_def opcode_code_inj simp del: opcode_code.simps intro!: bexI [of _ h])
qed

text \<open>User \<open>v\<close>, who may only read \<open>a\<close>, undoes the change that replaced \<open>Old.\<close>\<close>

definition nm_reader :: nm_state where
  "nm_reader = nm0\<lparr>nm_file_index := update_record (the (file_index_lookup (nm_file_index nm0) ''a'')) (file_record_add_acl ''v'' True False) (nm_file_index nm0)\<rparr>"

abbreviation reader_record :: file_record where
  "reader_record \<equiv> file_record_add_acl ''v'' True False record0"

definition server_undo :: ss_state where
  "server_undo = server0\<lparr>ss_engine := engine0\<lparr>se_files := [doc0\<lparr>sf_undo_snapshot := Some ''Old.''\<rparr>]\<rparr>\<rparr>"

lemma reader_facts:
  "nm_ok nm_reader" "ix_record (nm_file_index nm_reader) ''a'' = Some reader_record" "nm_servers nm_reader = nm_servers nm0"
  "fr_ss_ids reader_record = [''s'', ''t'']" "fr_owner reader_record = ''u''"
  "file_record_check_access reader_record ''v'' False" "\<not> file_record_check_access reader_record ''v'' True"
proof -
  obtain p where p: "file_index_lookup (nm_file_index nm0) ''a'' = Some p" "ix_heap (nm_file_index nm0) p = Some record0"
    using nm0_record by (cases "file_index_lookup (nm_file_index nm0) ''a''") (auto simp: ix_record_def)
  have ix: "nm_file_index nm_reader = update_record p (file_record_add_acl ''v'' True False) (nm_file_index nm0)"
    and c: "nm_cache nm_reader = nm_cache nm0" by (simp_all add: nm_reader_def p)
  show "ix_record (nm_file_index nm_reader) ''a'' = Some reader_record"
    unfolding ix ix_record_def update_record_lookup p by (simp add: update_record_def p)
  have "index_ok (nm_file_index nm_reader)" unfolding ix using nm_ok0
    by (intro index_ok_update record_ok_add_acl) (simp_all add: nm_ok_def MAX_USERNAME_LEN_def)
  then show "nm_ok nm_reader" using cache_ok_init [of 128] by (simp add: nm_ok_def c nm0_def nm_empty_def lru_cache_init_def)
  have ow: "fr_owner reader_record = ''u''" "fr_ss_ids reader_record = [''s'', ''t'']"
    using record0_simps by (simp_all add: file_record_add_acl_def Let_def split: option.splits)
  then show "fr_owner reader_record = ''u''" "fr_ss_ids reader_record = [''s'', ''t'']" by simp_all
  show "file_record_check_access reader_record ''v'' False" "\<not> file_record_check_access reader_record ''v'' True"
    using record0_simps(2) by (simp_all add: check_access_add MAX_USERNAME_LEN_def)
qed (simp add: nm_reader_def)

lemma undo0:
  "\<exists>d e. storage_engine_undo io_fine 6 (ss_disk server_undo) (ss_engine server_undo) ''a'' = (STORAGE_OK, d, e) \<and> sf_content (se_files e ! 0) = ''Old.''
     \<and> find_file_locked e ''a'' = Some 0"
proof -
  have f: "find_file_locked (ss_engine server_undo) ''a'' = Some 0" "sf_undo_snapshot (se_files (ss_engine server_undo) ! 0) = Some ''Old.''"
    by (simp_all add: server_undo_def server0_def find_file_locked_def doc0_content)
  obtain rc d e where u: "storage_engine_undo io_fine 6 (ss_disk server_undo) (ss_engine server_undo) ''a'' = (rc, d, e)" by (metis prod_cases3)
  from undo_found [OF f u] u show ?thesis by auto
qed

definition ctx_v :: client_context where
  "ctx_v = ctx0\<lparr>cc_username := ''v''\<rparr>"

lemma names_v: "names_ok ctx_v ''a''" "cc_username ctx_v = ''v''"
  by (simp_all add: names_ok_def ctx_v_def ctx0_def plain_def)

lemma served_v: "served nm_env0 nm_reader reader_record ''v'' False"
proof -
  have "live_holder 100 nm_reader = live_holder 100 nm0"
    using reader_facts(3) by (simp add: live_holder_def find_storage_server_def fun_eq_iff)
  then have "live_holders 100 nm_reader reader_record = live_holders 100 nm0 record0"
    using reader_facts(4) record0_simps(1) by (simp add: live_holders_def)
  then have "nm_server ''t'' 8 2 \<in> set (live_holders (ne_now nm_env0) nm_reader reader_record)" using nm0_live by (simp add: nm_env0_def)
  then show ?thesis unfolding served_def
    using reader_facts(6) by (auto simp: server_load_def nm_server_def intro!: bexI [of _ "nm_server ''t'' 8 2"])
qed

definition undo_body0 :: string where
  \<open>undo_body0 = ''{"status":"OK","message":"Undo successful"}''\<close>

theorem undo_by_reader_witness:
  "\<not> file_record_check_access reader_record ''v'' True
   \<and> last (cw_log (cl_cmd_undo ctx_v [''UNDO'', ''a''] (world0 [(OP_LOOKUP_RESP, 0, lookup_body0), (OP_DATA_RESPONSE, 0, undo_body0)])))
     = Show (Done File_Undone [''a''])
   \<and> sf_content (se_files (ss_engine (fst (handle_undo_request io_fine 6 server_undo (lookup_text ctx_v ''a'' None)))) ! 0) = ''Old.''"
proof -
  have op: "None = None \<or> None = Some ''read'' \<or> None = Some ''write''" by simp
  obtain c where l: "handle_lookup_file nm_env0 nm_reader 0 (lookup_text ctx_v ''a'' None) = Some (nm_reader\<lparr>nm_cache := c\<rparr>, [nm_send OP_LOOKUP_RESP 0 lookup_body0])"
    using lookup_of [OF names_v(1) op reader_facts(1,3,2,4,5), of 0] reader_facts(6) by (auto simp: names_v(2))
  obtain d e where u: "storage_engine_undo io_fine 6 (ss_disk server_undo) (ss_engine server_undo) ''a'' = (STORAGE_OK, d, e)"
    and old: "sf_content (se_files e ! 0) = ''Old.''" "find_file_locked e ''a'' = Some 0" using undo0 by blast
  obtain s' where h: "handle_undo_request io_fine 6 server_undo (lookup_text ctx_v ''a'' None) = (s', [(OP_DATA_RESPONSE, undo_body0)])"
    using u storage_text_filename [OF names_v(1)] by (simp add: handle_undo_request_def Let_def undo_body0_def)
  have b: "text_body undo_body0" by (simp add: text_body_def undo_body0_def)
  have sv: "servers_ok nm_reader" using servers0 reader_facts(3) by (simp add: servers_ok_def)
  note r = undo_by_reader [OF reader_facts(1,2) names_v(1) sv l, of "world0 [(OP_LOOKUP_RESP, 0, lookup_body0), (OP_DATA_RESPONSE, 0, undo_body0)]",
      OF _ arrives_text [OF text_body_lookup0] text_body_lookup0 _ _ h u arrives_text [OF b] b]
  have s': "s' = mark_access io_fine 6 ''a'' ''v'' (server_undo\<lparr>ss_disk := d, ss_engine := e\<rparr>)"
    and log: "last (cw_log (cl_cmd_undo ctx_v [''UNDO'', ''a''] (world0 [(OP_LOOKUP_RESP, 0, lookup_body0), (OP_DATA_RESPONSE, 0, undo_body0)]))) = Show (Done File_Undone [''a''])"
    using r served_v reader_facts(7) by (auto simp: world0_def names_v(2) simp del: opcode_code.simps)
  have "sf_content (se_files (ss_engine s') ! 0) = ''Old.''" using old find_file_locked_Some [OF old(2)] unfolding s'
    by (simp add: mark_access_def storage_engine_mark_access_def get_or_load_file_def upd_file_def Let_def split: prod.splits)
  then show ?thesis using log h reader_facts(7) by simp
qed

section \<open>STREAM\<close>

definition chunk_text :: "string \<Rightarrow> string" where
  "chunk_text x = fit 1024 (''{'' @ json_fields [(''word'', x)] ''}'')"

definition stream_word :: "string \<Rightarrow> bool" where
  "stream_word x \<longleftrightarrow> plain x \<and> length x < 512"

lemma chunk_word: "stream_word x \<Longrightarrow> cl_field (Some (chunk_text x)) ''word'' 512 = x"
proof -
  assume x: "stream_word x"
  then have "chunk_text x = ''{'' @ json_fields [(''word'', x)] ''}''" by (simp add: chunk_text_def stream_word_def fit_id)
  moreover have "json_get_string (''{'' @ json_fields [(''word'', x)] ''}'') ''word'' 512 = Some x"
    by (rule nm_fields.get_fits [of _ _ 0]) (use x in \<open>auto simp: json_key_def plain_def stream_word_def\<close>)
  ultimately show ?thesis by (simp only: cl_field_def cl_get_string_Some option.case)
qed

lemma stream_loop_words:
  assumes "list_all (\<lambda>x. stream_word x \<and> text_body (chunk_text x)) xs" and "text_body fin"
    and "stream revs = concat (map (\<lambda>x. wire_bytes big OP_DATA_CHUNK 0 (chunk_text x)) xs) @ wire_bytes big OP_DATA_RESPONSE 0 fin @ rest"
  shows "cw_log (stream_loop ([], revs) w) = cw_log w @ map (\<lambda>x. Show (Streamed x)) xs"
  using assms(1,3)
proof (induction xs arbitrary: revs w)
  case Nil
  then obtain revs' where "cl_recv_message ([], revs) w = (Some (opcode_code OP_DATA_RESPONSE, Some fin), ([], revs'))"
    using cl_recv_bytes [OF assms(2), of revs big OP_DATA_RESPONSE 0 rest "[]" w] by auto
  then show ?case by (subst stream_loop.simps) (simp add: opcode_code_inj del: opcode_code.simps)
next
  case (Cons x xs)
  then obtain revs' where r: "cl_recv_message ([], revs) w = (Some (opcode_code OP_DATA_CHUNK, Some (chunk_text x)), ([], revs'))"
    "stream revs' = concat (map (\<lambda>x. wire_bytes big OP_DATA_CHUNK 0 (chunk_text x)) xs) @ wire_bytes big OP_DATA_RESPONSE 0 fin @ rest"
    using cl_recv_bytes [of "chunk_text x" revs big OP_DATA_CHUNK 0 "concat (map (\<lambda>x. wire_bytes big OP_DATA_CHUNK 0 (chunk_text x)) xs) @
      wire_bytes big OP_DATA_RESPONSE 0 fin @ rest" "[]" w] by auto
  have "cw_log (stream_loop ([], revs') (say (Streamed x) w)) = cw_log (say (Streamed x) w) @ map (\<lambda>x. Show (Streamed x)) xs"
    using Cons r(2) by (intro Cons.IH) auto
  then show ?case using Cons.prems(1)
    by (subst stream_loop.simps) (simp add: r(1) chunk_word say_def note_event_def opcode_code_inj del: opcode_code.simps)
qed


text \<open>The words of \<open>a\<close>, in two fragments.\<close>

definition stream_world0 :: cl_world where
  "stream_world0 = (world0 [(OP_LOOKUP_RESP, 0, lookup_body0)])\<lparr>cw_conns := cw_conns (world0 [(OP_LOOKUP_RESP, 0, lookup_body0)]) @
     [Some ([], [RData (wire_bytes False OP_DATA_CHUNK 0 (chunk_text ''Hi'') @ wire_bytes False OP_DATA_CHUNK 0 (chunk_text ''you.'')), REintr,
        RData (wire_bytes False OP_DATA_CHUNK 0 (chunk_text ''Bye'') @ wire_bytes False OP_DATA_RESPONSE 0 (''{'' @ json_fields [(''status'', ''complete'')] ''}''))])]\<rparr>"


end
