(* ===== verification/Client_Write.thy ===== *)
theory Client_Write
  imports Client_Properties
begin

text \<open>
  The write conversation between the client and a storage server: what the client sends for the lines a user types and how the
  storage server's session takes it.
\<close>

section \<open>Lines of the user\<close>

text \<open>What a log says was sent.\<close>

definition sent_messages :: "cl_event list \<Rightarrow> (protocol_opcode_t \<times> string) list" where
  "sent_messages log = concat (map (\<lambda>e. case e of Sent opc rid p ok \<Rightarrow> [(opc, p)] | _ \<Rightarrow> []) log)"

lemma sent_simps [simp]:
  "sent_messages [] = []" "sent_messages (xs @ ys) = sent_messages xs @ sent_messages ys"
  "sent_messages (Sent opc rid p ok # xs) = (opc, p) # sent_messages xs" "sent_messages (Show m # xs) = sent_messages xs"
  "sent_messages (Dial h q b # xs) = sent_messages xs"
  by (simp_all add: sent_messages_def)

lemma log_simps [simp]:
  "cw_log (note_event e w) = cw_log w @ [e]" "cw_log (say m w) = cw_log w @ [Show m]"
  "cw_log (display_error j w) = cw_log w @ [Show (error_msg j)]"
  by (simp_all add: note_event_def say_def display_error_def)

text \<open>The lines \<open>index content\<close>, ended by ETIRW; indices within the running count of words, contents without quotes that fit.\<close>

definition typed_line :: "nat \<times> string \<Rightarrow> string" where
  "typed_line u = show_nat (fst u) @ SP # snd u"

definition typed :: "(nat \<times> string) list \<Rightarrow> string" where
  "typed ups = concat (map (\<lambda>u. typed_line u @ [LF]) ups) @ ''ETIRW'' @ [LF]"

definition content_ok :: "string \<Rightarrow> bool" where
  "content_ok c \<longleftrightarrow> plain c \<and> NUL \<notin> set c \<and> LF \<notin> set c \<and> length c < 512"

fun in_range :: "nat \<Rightarrow> (nat \<times> string) list \<Rightarrow> bool" where
  "in_range n [] = True"
| "in_range n ((i, c) # us) = (i \<le> n \<and> content_ok c \<and> in_range ((n + length (tokens client_sep c)) mod 2 ^ 64) us)"

lemma in_range_content: "in_range n us \<Longrightarrow> (i, c) \<in> set us \<Longrightarrow> content_ok c"
  by (induction n us rule: in_range.induct) auto

lemma fgets_in_line:
  "LF \<notin> set line \<Longrightarrow> length line < n \<Longrightarrow> fgets_in n (map Ch (line @ LF # r) @ rest) acc = (Got (acc @ line @ [LF]), map Ch r @ rest)"
proof (induction line arbitrary: n acc)
  case Nil
  then show ?case by (cases n) auto
next
  case (Cons c line)
  then obtain k where "n = Suc k" by (cases n) auto
  with Cons show ?case by auto
qed

lemma chomp_line: "NUL \<notin> set line \<Longrightarrow> chomp (line @ [LF]) = line"
  by (simp add: chomp_def c_str_id)

lemma typed_line_facts:
  assumes "content_ok c" and "i \<le> ULONG_MAX"
  shows "LF \<notin> set (typed_line (i, c))" and "NUL \<notin> set (typed_line (i, c))" and "length (typed_line (i, c)) < 1023"
    and "typed_line (i, c) \<noteq> ''ETIRW''" and "typed_line (i, c) \<noteq> []"
    and "strchr (typed_line (i, c)) SP = Some (SP # c)" and "takeWhile (\<lambda>x. x \<noteq> SP) (typed_line (i, c)) = show_nat i"
proof -
  have l: "length (show_nat i) \<le> 20" using show_nat_length [of i 20] assms(2) by (simp add: ULONG_MAX_def)
  obtain d ds where d: "show_nat i = d # ds" "is_digit d" by (rule show_nat_Cons)
  show "LF \<notin> set (typed_line (i, c))" "NUL \<notin> set (typed_line (i, c))" "length (typed_line (i, c)) < 1023" "typed_line (i, c) \<noteq> []"
    using assms(1) l show_nat_chars [of i] by (auto simp: typed_line_def content_ok_def)
  show "typed_line (i, c) \<noteq> ''ETIRW''" using d by (auto simp: typed_line_def is_digit_def)
  show "strchr (typed_line (i, c)) SP = Some (SP # c)"
    using show_nat_chars(1) [of i] by (simp add: typed_line_def strchr_append)
  show "takeWhile (\<lambda>x. x \<noteq> SP) (typed_line (i, c)) = show_nat i"
    using show_nat_chars(1) [of i] by (subst typed_line_def, subst takeWhile_append2) auto
qed

section \<open>The messages of a session\<close>

abbreviation unlinked :: "replica list \<Rightarrow> bool" where
  "unlinked reps \<equiv> list_all (\<lambda>r. rp_link r = None) reps"

lemma send_replicas_unlinked: "unlinked reps \<Longrightarrow> send_replicas opcode p reps w = (reps, w)"
  by (induction reps) auto

lemma update_text_bound: "length (update_text i c) < 2 ^ 31"
proof -
  have "length (update_text i c) < 1024" unfolding update_text_def by (rule length_fit) simp
  then show ?thesis by simp
qed

lemma write_line_update:
  assumes "content_ok c" and "i \<le> count" and "count \<le> ULONG_MAX" and "unlinked reps"
  shows "write_line reps count sent ([], revs) (typed_line (i, c)) w =
    (W_Go reps ((count + length (tokens client_sep c)) mod 2 ^ 64) (sent + 1) ([], revs),
     say (Writing (Update_Queued i c)) (note_event (Sent OP_WRITE_UPDATE 0 (update_text i c) True) w))"
proof -
  have i: "i \<le> ULONG_MAX" using assms(2,3) by simp
  note t = typed_line_facts [OF assms(1) i]
  have n: "strtoul (show_nat i) = (i, [], False)" using strtoul_show_nat [OF i, of "[]"] by simp
  have c: "fit 1024 c = c" using assms(1) by (simp add: content_ok_def fit_id)
  show ?thesis using assms(2)
    by (simp add: write_line_def t n c cl_send_fine [OF update_text_bound] send_replicas_unlinked [OF assms(4)] Let_def
        show_nat_nonempty show_nat_nonempty [symmetric])
qed

lemma bytes_arrive: "stream revs = wire_bytes big opc rid body @ rest \<Longrightarrow> text_body body \<Longrightarrow> arrives big opc rid body revs"
  using wire.enc_total [of big "message_for (opcode_code opc) rid (Some body)"] by (auto simp: arrives_def wire_bytes_def text_body_def)

lemma commit_session_reply:
  assumes "unlinked reps" and "arrives big opc rid body revs" and "text_body body"
  shows "commit_session reps ([], revs) w = (let w1 = note_event (Sent OP_WRITE_COMMIT 0 ''{}'' True) w in
    if opc = OP_WRITE_ACK then (True, say (Writing (Committed (cl_field (Some body) ''undo_token'' 64))) w1)
    else (False, say (Writing Not_Saved) (display_error (Some body) w1)))"
proof -
  obtain rest where st: "stream revs = wire_bytes big opc rid body @ rest" using arrives_bytes [OF assms(2)] by blast
  obtain revs' where "cl_recv_message ([], revs) (note_event (Sent OP_WRITE_COMMIT 0 ''{}'' True) w) = (Some (opcode_code opc, Some body), ([], revs'))"
    by (rule cl_recv_bytes [OF assms(3) st])
  then show ?thesis
    by (simp add: commit_session_def cl_send_fine send_replicas_unlinked [OF assms(1)] Let_def opcode_code_inj del: opcode_code.simps)
qed

section \<open>What the storage server reads\<close>

lemma session_keys [simp]:
  "json_key ''word_index''" "json_key ''content''" "json_key ''sentence''" "plain ''word_index''" "plain ''sentence''" "plain ''content''"
  by (simp_all add: json_key_def plain_def)

lemma update_text_read:
  assumes "content_ok c" and "i \<le> ULONG_MAX"
  shows "ss_json_get_ulong (update_text i c) ''word_index'' = i" and "ss_field (update_text i c) ''content'' 512 [] = c"
proof -
  let ?c = "DQ # ''content'' @ DQ # CHR '':'' # DQ # c @ DQ # ''}''"
  have l: "length (show_nat i) \<le> 20" using show_nat_length [of i 20] assms(2) by (simp add: ULONG_MAX_def)
  have t: "update_text i c = ''{'' @ DQ # ''word_index'' @ DQ # CHR '':'' # show_nat i @ CHR '','' # ?c"
    using assms(1) l by (simp add: update_text_def content_ok_def fit_id)
  have "strstr (''{'' @ DQ # ''word_index'' @ r) (DQ # ''word_index'' @ [DQ]) = strstr (DQ # ''word_index'' @ r) (DQ # ''word_index'' @ [DQ])" for r
    by (rule strstr_hd_absent [OF refl]) simp
  then have "strstr (update_text i c) (DQ # ''word_index'' @ [DQ]) = Some (DQ # ''word_index'' @ DQ # CHR '':'' # show_nat i @ CHR '','' # ?c)"
    unfolding t by (simp only:) (rule strstr_prefix, simp)
  then show "ss_json_get_ulong (update_text i c) ''word_index'' = i"
    by (rule ss_ulong_found) (use assms(2) in \<open>auto simp: is_digit_def\<close>)
  have "strstr (''{'' @ DQ # r) (DQ # ''content'' @ [DQ]) = strstr (DQ # r) (DQ # ''content'' @ [DQ])" for r
    by (rule strstr_hd_absent [OF refl]) simp
  then have "strstr (update_text i c) (DQ # ''content'' @ [DQ]) = strstr ?c (DQ # ''content'' @ [DQ])"
    unfolding t by (simp only:) (rule strstr_number, simp_all)
  also have "\<dots> = Some ?c" by (rule strstr_prefix) simp
  finally show "ss_field (update_text i c) ''content'' 512 [] = c"
    by (rule ss_field_found) (use assms(1) in \<open>auto simp: content_ok_def\<close>)
qed

section \<open>A whole session\<close>

text \<open>The storage server's side: the turns of a session on the messages it receives, until the session ends.\<close>

fun serve_session :: "io \<Rightarrow> time_t \<Rightarrow> ss_state \<Rightarrow> write_session \<Rightarrow> (protocol_opcode_t \<times> string) list
    \<Rightarrow> (ss_state \<times> reply list \<times> write_session option) option" where
  "serve_session io now s ws [] = Some (s, [], Some ws)"
| "serve_session io now s ws ((opc, p) # ms) = (case write_turn io now s ws (Some (opcode_code opc, Some p)) of
     None \<Rightarrow> None
   | Some (s', out, None) \<Rightarrow> Some (s', out, None)
   | Some (s', out, Some ws') \<Rightarrow> map_option (\<lambda>(s'', out', r). (s'', out @ out', r)) (serve_session io now s' ws' ms))"

definition session_messages :: "(nat \<times> string) list \<Rightarrow> (protocol_opcode_t \<times> string) list" where
  "session_messages ups = map (\<lambda>(i, c). (OP_WRITE_UPDATE, update_text i c)) ups @ [(OP_WRITE_COMMIT, ''{}'')]"

definition session_updates :: "(nat \<times> string) list \<Rightarrow> storage_word_update list" where
  "session_updates = map (\<lambda>(i, c). \<lparr>wu_index = i, wu_text = Some c\<rparr>)"

lemma serve_session_updates:
  assumes "list_all (\<lambda>(i, c). content_ok c \<and> i \<le> ULONG_MAX) ups" and "length (ws_updates ws) + length ups \<le> 256"
  shows "serve_session io now s ws (session_messages ups) =
    (case write_commit io now s (ws\<lparr>ws_updates := ws_updates ws @ session_updates ups\<rparr>) of
       (s1, out) \<Rightarrow> Some (write_close now s1 ws, out, None))"
  using assms
proof (induction ups arbitrary: ws)
  case Nil
  then show ?case by (simp add: session_messages_def session_updates_def write_turn_def write_close_def split: prod.splits)
next
  case (Cons u ups)
  obtain i c where u: "u = (i, c)" by (cases u)
  define ws1 where "ws1 = ws\<lparr>ws_updates := ws_updates ws @ [\<lparr>wu_index = i, wu_text = Some c\<rparr>]\<rparr>"
  have "write_update ws (update_text i c) = ws1"
    using Cons.prems update_text_read [of c i] by (simp add: write_update_def u ws1_def Let_def)
  then have "write_turn io now s ws (Some (opcode_code OP_WRITE_UPDATE, Some (update_text i c))) = Some (s, [], Some ws1)"
    by (simp add: write_turn_def opcode_code_inj del: opcode_code.simps)
  moreover have "serve_session io now s ws1 (session_messages ups) =
    (case write_commit io now s (ws1\<lparr>ws_updates := ws_updates ws1 @ session_updates ups\<rparr>) of
       (s1, out) \<Rightarrow> Some (write_close now s1 ws1, out, None))"
    using Cons.prems by (intro Cons.IH) (simp_all add: ws1_def)
  moreover have "write_close now x ws1 = write_close now x ws" for x by (simp add: write_close_def ws1_def)
  ultimately show ?case by (simp add: u session_messages_def session_updates_def ws1_def split: prod.splits)
qed

lemma in_range_indices: "in_range n ups \<Longrightarrow> n \<le> ULONG_MAX \<Longrightarrow> list_all (\<lambda>(i, c). content_ok c \<and> i \<le> ULONG_MAX) ups"
proof (induction n ups rule: in_range.induct)
  case (2 n i c us)
  have "(n + length (tokens client_sep c)) mod 2 ^ 64 \<le> ULONG_MAX" by (simp add: ULONG_MAX_def less_Suc_eq_le [symmetric])
  with 2 show ?case by simp
qed simp

lemma typed_Cons: "typed (u # ups) = typed_line u @ LF # typed ups"
  by (simp add: typed_def)

lemma write_loop_typed:
  assumes "in_range count ups" and "count \<le> ULONG_MAX" and "unlinked reps" and "0 < sent \<or> ups \<noteq> []"
    and "arrives big opc rid body revs" and "text_body body"
  shows "\<exists>w'. write_loop (map Ch (typed ups) @ rest) reps count sent ([], revs) w = (opc = OP_WRITE_ACK, sent + length ups, w')
    \<and> sent_messages (cw_log w') = sent_messages (cw_log w) @ session_messages ups \<and> cw_stdin w' = rest
    \<and> last (cw_log w') = Show (Writing (if opc = OP_WRITE_ACK then Committed (cl_field (Some body) ''undo_token'' 64) else Not_Saved))"
  using assms(1,2,4)
proof (induction ups arbitrary: count sent w)
  case Nil
  have "fgets_in 1023 (map Ch (typed []) @ rest) [] = (Got (''ETIRW'' @ [LF]), rest)"
    using fgets_in_line [of "''ETIRW''" 1023 "[]" rest "[]"] by (simp add: typed_def)
  moreover have "chomp (''ETIRW'' @ [LF]) = ''ETIRW''" by (rule chomp_line) simp
  ultimately show ?case using Nil.prems(3)
    by (subst write_loop.simps) (simp add: write_line_def commit_session_reply [OF assms(3,5,6)] session_messages_def Let_def)
next
  case (Cons u ups)
  obtain i c where u: "u = (i, c)" by (cases u)
  have c: "content_ok c" and i: "i \<le> count" using Cons.prems by (simp_all add: u)
  then have iu: "i \<le> ULONG_MAX" using Cons.prems by simp
  note t = typed_line_facts [OF c iu]
  have f: "fgets_in 1023 (map Ch (typed (u # ups)) @ rest) [] = (Got (typed_line u @ [LF]), map Ch (typed ups) @ rest)"
    using fgets_in_line [OF t(1,3), of "typed ups" rest "[]"] by (simp add: typed_Cons u)
  define count' where "count' = (count + length (tokens client_sep c)) mod 2 ^ 64"
  define w1 where "w1 = say (Writing (Update_Queued i c)) (note_event (Sent OP_WRITE_UPDATE 0 (update_text i c) True) (say (Writing Prompt) w))"
  have "count' \<le> ULONG_MAX" by (simp add: count'_def ULONG_MAX_def less_Suc_eq_le [symmetric])
  moreover have "in_range count' ups" using Cons.prems by (simp add: u count'_def)
  ultimately obtain w' where w': "write_loop (map Ch (typed ups) @ rest) reps count' (sent + 1) ([], revs) w1 = (opc = OP_WRITE_ACK, sent + 1 + length ups, w')"
    "sent_messages (cw_log w') = sent_messages (cw_log w1) @ session_messages ups" "cw_stdin w' = rest"
    "last (cw_log w') = Show (Writing (if opc = OP_WRITE_ACK then Committed (cl_field (Some body) ''undo_token'' 64) else Not_Saved))"
    using Cons.IH [of count' "sent + 1" w1] by auto
  have "write_loop (map Ch (typed (u # ups)) @ rest) reps count sent ([], revs) w = write_loop (map Ch (typed ups) @ rest) reps count' (sent + 1) ([], revs) w1"
    by (subst write_loop.simps) (simp add: f [unfolded u] u chomp_line [OF t(2)] write_line_update [OF c i Cons.prems(2) assms(3)] count'_def w1_def)
  then show ?case using w' by (auto simp: w1_def session_messages_def u)
qed

lemma run_session_typed:
  assumes "in_range count ups" and "count \<le> ULONG_MAX" and "unlinked reps" and "ups \<noteq> []"
    and "arrives big opc rid body revs" and "text_body body" and "cw_stdin w = map Ch (typed ups) @ rest"
  shows "sent_messages (cw_log (run_write_session n k reps count ([], revs) w)) = sent_messages (cw_log w) @ session_messages ups"
    and "cw_stdin (run_write_session n k reps count ([], revs) w) = rest"
    and "last (cw_log (run_write_session n k reps count ([], revs) w)) =
      Show (Writing (if opc = OP_WRITE_ACK then Committed (cl_field (Some body) ''undo_token'' 64) else Aborted))"
proof -
  define w2 where "w2 = say (Writing (Word_Count count))
    (if reps \<noteq> [] then say (Writing (Replicating (length (filter (\<lambda>r. rp_link r \<noteq> None) reps)))) (say (Writing (Lock_Acquired n k)) w)
     else say (Writing (Lock_Acquired n k)) w)"
  have w2: "cw_stdin w2 = map Ch (typed ups) @ rest" "sent_messages (cw_log w2) = sent_messages (cw_log w)"
    using assms(7) by (simp_all add: w2_def say_def note_event_def)
  obtain w' where w': "write_loop (map Ch (typed ups) @ rest) reps count 0 ([], revs) w2 = (opc = OP_WRITE_ACK, length ups, w')"
    "sent_messages (cw_log w') = sent_messages (cw_log w2) @ session_messages ups" "cw_stdin w' = rest"
    "last (cw_log w') = Show (Writing (if opc = OP_WRITE_ACK then Committed (cl_field (Some body) ''undo_token'' 64) else Not_Saved))"
    using write_loop_typed [OF assms(1-3) _ assms(5,6), of 0 rest w2] assms(4) by auto
  have r: "run_write_session n k reps count ([], revs) w = (if opc = OP_WRITE_ACK then w' else say (Writing Aborted) w')"
    using w'(1) assms(4,7) by (cases "reps = []") (simp_all add: run_write_session_def Let_def w2_def say_def note_event_def)
  show "sent_messages (cw_log (run_write_session n k reps count ([], revs) w)) = sent_messages (cw_log w) @ session_messages ups"
    "cw_stdin (run_write_session n k reps count ([], revs) w) = rest"
    "last (cw_log (run_write_session n k reps count ([], revs) w)) =
      Show (Writing (if opc = OP_WRITE_ACK then Committed (cl_field (Some body) ''undo_token'' 64) else Aborted))"
    using w' w2(2) by (simp_all add: r say_def note_event_def)
qed

section \<open>WRITE through the three programs\<close>

lemma replica_at_unlinked: "unlinked (replica_at p)"
  by (simp add: replica_at_def Let_def)

lemma replica_loop_unlinked: "unlinked reps \<Longrightarrow> unlinked (replica_loop p reps)"
  by (induction p reps rule: replica_loop.induct) (auto simp: replica_at_unlinked)

lemma found_replicas_unlinked: "unlinked (found_replicas resp)"
  by (auto simp: found_replicas_def replica_loop_unlinked split: option.splits)

definition write_text :: "client_context \<Rightarrow> string \<Rightarrow> nat \<Rightarrow> string" where
  \<open>write_text ctx n k = fit 512 (''{'' @ json_fields [(''filename'', n)]
     ('',"sentence":'' @ show_nat k @ '','' @ json_fields [user_field ctx] ''}''))\<close>

lemma write_text_read:
  assumes "names_ok ctx n" and "n \<noteq> ''sentence''" and "k \<le> ULONG_MAX"
  shows "ss_field (write_text ctx n k) ''filename'' 256 [] = n" and "ss_json_get_ulong (write_text ctx n k) ''sentence'' = k"
    and "ss_field (write_text ctx n k) ''username'' 128 d = cc_username ctx" and "length (write_text ctx n k) < 2 ^ 31"
proof -
  note n = assms(1) [unfolded names_ok_def]
  let ?u = "DQ # ''username'' @ DQ # CHR '':'' # DQ # cc_username ctx @ DQ # ''}''"
  let ?k = "DQ # ''sentence'' @ DQ # CHR '':'' # show_nat k @ CHR '','' # ?u"
  have l: "length (show_nat k) \<le> 20" using show_nat_length [of k 20] assms(3) by (simp add: ULONG_MAX_def)
  have t: "write_text ctx n k = ''{'' @ json_fields [(''filename'', n)] (CHR '','' # ?k)"
    using n l by (simp add: write_text_def user_field_def fit_id)
  show "length (write_text ctx n k) < 2 ^ 31" unfolding t using n l by simp
  show "ss_field (write_text ctx n k) ''filename'' 256 [] = n" unfolding t ss_field_def
    using ss_fields.get_fits [of "''filename''" "''{''" 0 "[(''filename'', n)]" n 256] n by simp
  have behind: "strstr (write_text ctx n k) (DQ # key @ [DQ]) = strstr ?k (DQ # key @ [DQ])" if "json_key key" "key \<noteq> ''filename''" "key \<noteq> n" for key
  proof -
    have "strstr (write_text ctx n k) (DQ # key @ [DQ]) = strstr (json_fields [(''filename'', n)] (CHR '','' # ?k)) (DQ # key @ [DQ])"
      unfolding t by (rule strstr_hd_absent [OF refl]) simp
    also have "\<dots> = strstr ?k (DQ # key @ [DQ])" by (rule strstr_behind) (use that n in auto)
    finally show ?thesis .
  qed
  have "strstr (write_text ctx n k) (DQ # ''sentence'' @ [DQ]) = Some ?k"
    using behind [of "''sentence''"] assms(2) strstr_prefix [of "DQ # ''sentence'' @ [DQ]" ?k] by simp
  then show "ss_json_get_ulong (write_text ctx n k) ''sentence'' = k"
    by (rule ss_ulong_found) (use assms(3) in \<open>auto simp: is_digit_def\<close>)
  have "strstr (write_text ctx n k) (DQ # ''username'' @ [DQ]) = strstr ?k (DQ # ''username'' @ [DQ])" by (rule behind) (use n in auto)
  also have "\<dots> = strstr ?u (DQ # ''username'' @ [DQ])" by (rule strstr_number) simp_all
  also have "\<dots> = Some ?u" by (rule strstr_prefix) simp
  finally show "ss_field (write_text ctx n k) ''username'' 128 d = cc_username ctx"
    by (rule ss_field_found) (use n in auto)
qed

lemma lock_answer_count:
  assumes "k \<le> ULONG_MAX" and "count \<le> 512"
  shows \<open>cl_uint (Some (fit 512 (''{"status":"locked","sentence":'' @ show_nat k @ '',"word_count":'' @ show_nat count @ ''}''))) ''word_count'' = count\<close>
proof -
  let ?c = "DQ # ''word_count'' @ DQ # CHR '':'' # show_nat count @ ''}''"
  let ?b = "''{'' @ json_fields [(''status'', ''locked'')] (CHR '','' # DQ # ''sentence'' @ DQ # CHR '':'' # show_nat k @ CHR '','' # ?c)"
  have l: "length (show_nat k) \<le> 20" "length (show_nat count) \<le> 20"
    using show_nat_length [of k 20] show_nat_length [of count 20] assms by (simp_all add: ULONG_MAX_def)
  then have t: \<open>fit 512 (''{"status":"locked","sentence":'' @ show_nat k @ '',"word_count":'' @ show_nat count @ ''}'') = ?b\<close> by (simp add: fit_id)
  have "strstr ?b (DQ # ''word_count'' @ [DQ]) = strstr (json_fields [(''status'', ''locked'')] (CHR '','' # DQ # ''sentence'' @ DQ # CHR '':'' # show_nat k @ CHR '','' # ?c)) (DQ # ''word_count'' @ [DQ])"
    by (rule strstr_hd_absent [OF refl]) simp
  also have "\<dots> = strstr (DQ # ''sentence'' @ DQ # CHR '':'' # show_nat k @ CHR '','' # ?c) (DQ # ''word_count'' @ [DQ])"
    by (rule strstr_behind) (simp_all add: plain_def json_key_def)
  also have "\<dots> = strstr ?c (DQ # ''word_count'' @ [DQ])" by (rule strstr_number) (simp_all add: plain_def json_key_def)
  also have "\<dots> = Some ?c" by (rule strstr_prefix) simp
  finally have "json_after_colon ?b ''word_count'' = Some (show_nat count @ ''}'')"
    by (simp add: json_after_colon_def Let_def fit_id show_nat_no_blank del: strstr.simps)
  then show ?thesis using assms(2) strtoul_show_nat [of count "''}''"] show_nat_nonempty [of count] unfolding t
    by (simp add: cl_uint_def cl_json_get_uint_def json_get_uint_def ULONG_MAX_def is_digit_def)
qed

lemma length_tokens: "length (tokens d s) \<le> length s"
proof -
  have "length xs \<le> length (concat xs)" if "\<forall>x\<in>set xs. x \<noteq> []" for xs :: "string list"
    using that by (induction xs) (auto simp: Suc_le_eq neq_Nil_conv)
  from this [of "tokens d s"] have "length (tokens d s) \<le> length (filter (\<lambda>c. \<not> d c) s)"
    using tokens_nonempty [of _ d s] by (auto simp: concat_tokens)
  then show ?thesis using length_filter_le order.trans by blast
qed

lemma write_open_answer:
  assumes "names_ok ctx n" and "n \<noteq> ''sentence''" and "k \<le> ULONG_MAX"
    and "storage_engine_info now (ss_disk s) (ss_engine s) n = (STORAGE_OK, Some i, e)"
    and "storage_engine_read io now (ss_disk s) e n = (STORAGE_OK, Some c, d', e')"
    and "write_open io now s (write_text ctx n k) = (s1, [(OP_WRITE_ACK, ack)], Some ws)"
  shows "ws = \<lparr>ws_filename = n, ws_sentence_idx = k, ws_username = cc_username ctx, ws_updates = []\<rparr>"
    and "cl_uint (Some ack) ''word_count'' = session_word_count STORAGE_OK (Some c) k"
    and "session_word_count STORAGE_OK (Some c) k \<le> 512"
proof -
  have "length (fit 512 (find_sentence c k)) < 512" by (rule length_fit) simp
  then show sz: "session_word_count STORAGE_OK (Some c) k \<le> 512"
    using length_tokens [of is_blank "fit 512 (find_sentence c k)"] by (simp add: session_word_count_def)
  show "ws = \<lparr>ws_filename = n, ws_sentence_idx = k, ws_username = cc_username ctx, ws_updates = []\<rparr>"
    and "cl_uint (Some ack) ''word_count'' = session_word_count STORAGE_OK (Some c) k"
    using assms(4-6) lock_answer_count [OF assms(3) sz] write_text_read [OF assms(1-3)]
    by (auto simp: write_open_def Let_def split: if_splits)
qed

text \<open>
  C5: WRITE through all three programs. A user who may write the file types updates within the running word count, without quotes and
  shorter than 512 characters, and ETIRW: the client sends each update and then the commit, the storage server's session takes exactly
  the typed updates and commits them, and the client reports the commit or the failure that the server answered.
\<close>
theorem write_end_to_end:
  assumes "nm_ok st" and "ix_record (nm_file_index st) n = Some r" and "names_ok ctx n" and "n \<noteq> ''sentence''" and "servers_ok st"
    and "handle_lookup_file env st 0 (lookup_text ctx n (Some ''write'')) = Some (st', [nm_send opc 0 body])"
    and "cw_conns w = Some ([], revs) # Some ([], revs2) # cs" and "arrives big opc 0 body revs" and "text_body body"
    and "served env st r (cc_username ctx) True" and "k \<le> ULONG_MAX"
    and "storage_engine_info now (ss_disk s) (ss_engine s) n = (STORAGE_OK, Some i, e)"
    and "storage_engine_read io now (ss_disk s) e n = (STORAGE_OK, Some c, d', e')"
    and "write_open io now s (write_text ctx n k) = (s1, [(OP_WRITE_ACK, ack)], Some ws)"
    and "write_commit io later s1 (ws\<lparr>ws_updates := session_updates ups\<rparr>) = (s2, [(opc2, body2)])"
    and "stream_of big2 [(OP_WRITE_ACK, ack), (opc2, body2)] revs2"
    and "in_range (session_word_count STORAGE_OK (Some c) k) ups" and "ups \<noteq> []" and "length ups \<le> 256"
    and "cw_stdin w = map Ch (typed ups) @ rest"
  shows "let w' = cl_cmd_write ctx [''WRITE'', n, show_nat k] w in
    sent_messages (cw_log w') = sent_messages (cw_log w)
      @ [(OP_LOOKUP_FILE, lookup_text ctx n (Some ''write'')), (OP_WRITE_REQUEST, write_text ctx n k)] @ session_messages ups
    \<and> serve_session io later s1 ws (session_messages ups) = Some (write_close later s2 ws, [(opc2, body2)], None)
    \<and> last (cw_log w') = Show (Writing (if opc2 = OP_WRITE_ACK then Committed (cl_field (Some body2) ''undo_token'' 64) else Aborted))
    \<and> cw_stdin w' = rest"
proof -
  let ?l = "lookup_text ctx n (Some ''write'')" and ?q = "write_text ctx n k" and ?reps = "found_replicas (Some body)"
    and ?n = "session_word_count STORAGE_OK (Some c) k"
  have op: "Some ''write'' = None \<or> Some ''write'' = Some ''read'' \<or> Some ''write'' = Some ''write''" by simp
  note ack = write_open_answer [OF assms(3,4,11-14)]
  have cs: "?n \<le> ULONG_MAX" using ack(3) by (simp add: ULONG_MAX_def)
  have lk: "opc = OP_LOOKUP_RESP \<and> (\<exists>h :: storage_server_info. found_server (Some body) = (si_ip h, unat (si_client_port h)) \<and> si_client_port h \<noteq> 0)"
    using client_lookup [OF assms(1-3,5) op assms(6)] assms(10) by (simp del: prod.inject) blast
  then obtain h :: storage_server_info where h: "found_server (Some body) = (si_ip h, unat (si_client_port h))" "si_client_port h \<noteq> 0" by blast
  have p: "unat (si_client_port h) \<noteq> 0" using h(2) by (simp add: unat_eq_zero)
  obtain r2 where tb: "text_body ack" "text_body body2" and st: "stream revs2 = wire_bytes big2 OP_WRITE_ACK 0 ack @ wire_bytes big2 opc2 0 body2 @ r2"
    using assms(16) by (auto simp: stream_of_def)
  define w1 where "w1 = w\<lparr>cw_conns := cs, cw_log := cw_log w @ [Dial (cc_nm_host ctx) (cc_nm_port ctx) True, Sent OP_LOOKUP_FILE 0 ?l True,
    Dial (si_ip h) (si_client_port h) True, Sent OP_WRITE_REQUEST 0 ?q True]\<rparr>"
  obtain revs3 where rc: "cl_recv_message ([], revs2) w1 = (Some (opcode_code OP_WRITE_ACK, Some ack), ([], revs3))"
    "stream revs3 = wire_bytes big2 opc2 0 body2 @ r2" by (rule cl_recv_bytes [OF tb(1) st])
  have ar: "arrives big2 opc2 0 body2 revs3" using rc(2) tb(2) by (rule bytes_arrive)
  have w1: "cw_stdin w1 = map Ch (typed ups) @ rest" using assms(20) by (simp add: w1_def)
  have "cl_cmd_write ctx [''WRITE'', n, show_nat k] w = run_write_session n k ?reps ?n ([], revs3) w1"
    using rc(1) ack(2) lk cl_send_fine [OF write_text_read(4) [OF assms(3,4,11)], of OP_WRITE_REQUEST 0 revs2]
      nm_ask_answer [OF assms(7) lookup_text_read(4) [OF assms(3) op] assms(8,9), of ctx OP_LOOKUP_FILE 0] strtoul_show_nat [OF assms(11), of "[]"]
    by (simp add: cl_cmd_write_def h(1) p connect_storage_def dial_def write_on_def [folded write_text_def] note_event_def w1_def
        opcode_code_inj del: opcode_code.simps)
  moreover have "serve_session io later s1 ws (session_messages ups) = Some (write_close later s2 ws, [(opc2, body2)], None)"
    using serve_session_updates [OF in_range_indices [OF assms(17) cs], of ws] assms(15,19) ack(1) by simp
  moreover note run_session_typed [OF assms(17) cs found_replicas_unlinked assms(18) ar tb(2) w1]
  ultimately show ?thesis by (simp add: w1_def)
qed

text \<open>User \<open>u\<close> inserts \<open>to all\<close> behind the first word of \<open>a\<close>.\<close>

definition engine_read0 :: storage_engine where
  "engine_read0 = engine0\<lparr>se_files := [doc0\<lparr>sf_last_accessed := 6\<rparr>]\<rparr>"

definition ack_body0 :: string where
  \<open>ack_body0 = ''{"status":"locked","sentence":0,"word_count":2}''\<close>

definition commit_body0 :: string where
  \<open>commit_body0 = ''{"status":"committed","undo_token":"undo-000001"}''\<close>

definition write_world0 :: cl_world where
  "write_world0 = (world0 [(OP_LOOKUP_RESP, 0, lookup_body0)])\<lparr>cw_conns := cw_conns (world0 [(OP_LOOKUP_RESP, 0, lookup_body0)]) @
       [Some ([], [RData (wire_bytes False OP_WRITE_ACK 0 ack_body0), REintr, RData (wire_bytes False OP_WRITE_ACK 0 commit_body0)])],
     cw_stdin := map Ch (''1 to all'' @ LF # ''ETIRW'' @ LF # ''EXIT'')\<rparr>"

lemma engine_read0: "storage_engine_read io_fine 6 d engine0 ''a'' = (STORAGE_OK, Some ''Hi you. Bye'', snd (persist_metadata io_fine d engine0 (doc0\<lparr>sf_last_accessed := 6\<rparr>)), engine_read0)"
proof -
  have "upd_file 0 f engine0 = engine0\<lparr>se_files := [f]\<rparr>" for f by (simp add: upd_file_def engine0_def)
  then show ?thesis
    by (simp add: storage_engine_read_def engine0_load engine0_file doc0_content Let_def c_str_def engine_read0_def split: prod.splits)
qed

lemma engine_read0_facts:
  "engine_ok engine_read0" "get_or_load_file now d engine_read0 ''a'' h = Some (engine_read0, 0)" "se_files engine_read0 ! 0 = doc0\<lparr>sf_last_accessed := 6\<rparr>"
proof -
  have "file_ok (doc0\<lparr>sf_last_accessed := 6\<rparr>)" using doc0_ok by (simp add: file_ok_def locks_free_def meta_ok_def names_fit_def)
  then show "engine_ok engine_read0" by (simp add: engine_ok_def engine_read0_def engine0_def)
  show "get_or_load_file now d engine_read0 ''a'' h = Some (engine_read0, 0)"
    by (rule get_or_load_found) (simp add: find_file_locked_def engine_read0_def doc0_content)
qed (simp add: engine_read0_def)

lemma write_read0: "\<exists>d' e'. storage_engine_write w now d engine_read0 ''a'' 0 edit0 64 = (STORAGE_OK, ''undo-000001'', d', e')"
proof -
  obtain rc tok d' e' where w: "storage_engine_write w now d engine_read0 ''a'' 0 edit0 64 = (rc, tok, d', e')" by (metis prod_cases4)
  have c: "sf_content (doc0\<lparr>sf_last_accessed := 6\<rparr>) = sf_content doc0" by simp
  have t: "fit 64 (fit 64 (''undo-'' @ show_nat_pad6 (unat (se_undo_seq engine_read0 + 1)))) = ''undo-000001''"
    by (simp add: engine_read0_def engine0_def) code_simp
  from w engine_read0_facts(1) show ?thesis
  proof (cases rule: write_cases)
    case (written e1 i span m ws)
    then show ?thesis using w t by (auto simp: engine_read0_facts(2) engine_simps)
  next
    case refused
    then show ?thesis using w unfolding storage_engine_write_def engine_read0_facts option.case prod.case Let_def spans_if_nonempty c select0
      using apply0 by (auto simp: edit0_def engine_simps case_prod_unfold split: if_splits)
  next
    case (rejected e1 i m)
    then show ?thesis using w unfolding storage_engine_write_def engine_read0_facts option.case prod.case Let_def spans_if_nonempty c select0
      using apply0 by (auto simp: edit0_def engine_simps case_prod_unfold split: if_splits)
  qed
qed

abbreviation session0 :: "storage_word_update list \<Rightarrow> write_session" where
  "session0 us \<equiv> \<lparr>ws_filename = ''a'', ws_sentence_idx = 0, ws_username = ''u'', ws_updates = us\<rparr>"

lemma show_small: "show_nat 0 = ''0''" "show_nat 1 = ''1''" "show_nat (Suc 0) = ''1''" "show_nat 2 = ''2''"
  by code_simp+

lemma server_open0:
  obtains s1 s2 where "write_open io_fine 6 server0 (write_text ctx0 ''a'' 0) = (s1, [(OP_WRITE_ACK, ack_body0)], Some (session0 []))"
    and "write_commit io_fine 7 s1 (session0 edit0) = (s2, [(OP_WRITE_ACK, commit_body0)])"
proof -
  have na: "''a'' \<noteq> ''sentence''" and ku: "0 \<le> ULONG_MAX" by simp_all
  note f = write_text_read [OF names0(1) na ku]
  have cnt: "session_word_count STORAGE_OK (Some ''Hi you. Bye'') 0 = 2"
    by (simp add: session_word_count_def tokens_cons is_blank_def is_delim_def fit_def)
  define s1 where "s1 = server0\<lparr>ss_locked_sentences := add_sentence_lock ''a'' 0 0 [], ss_active_writers := 1,
    ss_disk := snd (persist_metadata io_fine disk0 engine0 (doc0\<lparr>sf_last_accessed := 6\<rparr>)), ss_engine := engine_read0\<rparr>"
  have s0: "ss_engine server0 = engine0" "ss_disk server0 = disk0" "ss_locked_sentences server0 = []" "ss_active_writers server0 = 0"
    by (simp_all add: server0_def)
  have o: "write_open io_fine 6 server0 (write_text ctx0 ''a'' 0) = (s1, [(OP_WRITE_ACK, ack_body0)], Some (session0 []))"
    by (simp add: write_open_def f names0(2) s0 info0 engine_read0 cnt show_small fit_def ack_body0_def is_sentence_locked_def s1_def Let_def)
  obtain i where i: "storage_engine_info 7 (ss_disk s1) engine_read0 ''a'' = (STORAGE_OK, Some i, engine_read0)" "fi_modified_at i = 0"
  proof -
    have "sf_modified_at doc0 = 0" by (simp add: doc0_def engine_simps allocate_file_def)
    then show thesis using that by (simp add: storage_engine_info_def engine_read0_facts Let_def)
  qed
  obtain d' e' where w: "storage_engine_write io_fine 7 (ss_disk s1) engine_read0 ''a'' 0 edit0 64 = (STORAGE_OK, ''undo-000001'', d', e')"
    using write_read0 by blast
  have "get_locked_sentence_version ''a'' 0 (ss_locked_sentences s1) = Some 0" "ss_engine s1 = engine_read0"
    by (simp_all add: s1_def get_locked_sentence_version_def add_sentence_lock_def fit_def)
  then have "\<exists>s2. write_commit io_fine 7 s1 (session0 edit0) = (s2, [(OP_WRITE_ACK, commit_body0)])"
    by (simp add: write_commit_def i w Let_def commit_body0_def fit_def)
  with o that show thesis by blast
qed

theorem write_end_to_end_witness:
  \<open>let w' = cl_cmd_write ctx0 [''WRITE'', ''a'', ''0''] write_world0 in
   sent_messages (cw_log w') = [(OP_LOOKUP_FILE, ''{"filename":"a","username":"u","operation":"write"}''),
     (OP_WRITE_REQUEST, ''{"filename":"a","sentence":0,"username":"u"}''), (OP_WRITE_UPDATE, ''{"word_index":1,"content":"to all"}''),
     (OP_WRITE_COMMIT, ''{}'')]
   \<and> last (cw_log w') = Show (Writing (Committed ''undo-000001'')) \<and> cw_stdin w' = map Ch ''EXIT''\<close>
proof -
  have ups: "session_updates [(1, ''to all'')] = edit0" by (simp add: session_updates_def edit0_def)
  obtain c where l: "handle_lookup_file nm_env0 nm0 0 (lookup_text ctx0 ''a'' (Some ''write'')) = Some (nm0\<lparr>nm_cache := c\<rparr>, [nm_send OP_LOOKUP_RESP 0 lookup_body0])"
    using lookup0 [of "Some ''write''" 0] by auto
  obtain s1 s2 where o: "write_open io_fine 6 server0 (write_text ctx0 ''a'' 0) = (s1, [(OP_WRITE_ACK, ack_body0)], Some (session0 []))"
    and cm: "write_commit io_fine 7 s1 (session0 edit0) = (s2, [(OP_WRITE_ACK, commit_body0)])" by (rule server_open0)
  have tb: "text_body ack_body0" "text_body commit_body0" by (simp_all add: text_body_def ack_body0_def commit_body0_def)
  then have wb: "wire_bytes False OP_WRITE_ACK 0 ack_body0 \<noteq> []" "wire_bytes False OP_WRITE_ACK 0 commit_body0 \<noteq> []"
    by (auto simp: wire_bytes_def text_body_def)
  have so: "stream_of False [(OP_WRITE_ACK, ack_body0), (OP_WRITE_ACK, commit_body0)]
      [RData (wire_bytes False OP_WRITE_ACK 0 ack_body0), REintr, RData (wire_bytes False OP_WRITE_ACK 0 commit_body0)]"
    using tb wb by (auto simp: stream_of_def)
  have s0: "ss_engine server0 = engine0" by (simp add: server0_def)
  note i0 = info0 [of 6 "ss_disk server0", folded arg_cong [OF s0, of "\<lambda>x. storage_engine_info 6 (ss_disk server0) x ''a''"]]
  have st: "cw_stdin write_world0 = map Ch (typed [(1, ''to all'')]) @ map Ch ''EXIT''"
    by (simp add: write_world0_def typed_def typed_line_def show_small)
  have rg: "in_range (session_word_count STORAGE_OK (Some ''Hi you. Bye'') 0) [(1, ''to all'')]"
    by (simp add: session_word_count_def tokens_cons is_blank_def is_delim_def fit_def content_ok_def plain_def)
  have un: "cl_field (Some commit_body0) ''undo_token'' 64 = ''undo-000001''" unfolding commit_body0_def by code_simp
  have tx: \<open>lookup_text ctx0 ''a'' (Some ''write'') = ''{"filename":"a","username":"u","operation":"write"}''\<close>
    \<open>write_text ctx0 ''a'' 0 = ''{"filename":"a","sentence":0,"username":"u"}''\<close> \<open>update_text (Suc 0) ''to all'' = ''{"word_index":1,"content":"to all"}''\<close>
    by code_simp+
  have cn: "cw_conns write_world0 = Some ([], [RData (the (protocol_encode_header False (Some (message_for (opcode_code OP_LOOKUP_RESP) 0 (Some lookup_body0)))) @ map byte_of_char lookup_body0)])
      # Some ([], [RData (wire_bytes False OP_WRITE_ACK 0 ack_body0), REintr, RData (wire_bytes False OP_WRITE_ACK 0 commit_body0)]) # []"
    by (simp add: write_world0_def world0_def del: opcode_code.simps)
  have sv: "served nm_env0 nm0 record0 (cc_username ctx0) True" using served0 by (simp add: names0(2))
  have lg: "cw_log write_world0 = []" by (simp add: write_world0_def)
  show ?thesis
    using write_end_to_end [OF nm_ok0 nm0_record names0(1) _ servers0 l cn arrives_text [OF text_body_lookup0] text_body_lookup0 sv _ i0 engine_read0 o _ so rg _ _ st, of 7 s2] cm ups
    by (simp add: Let_def lg un tx session_messages_def show_small)
qed

end
