(* ===== verification/Client_Behaviour.thy ===== *)
theory Client_Behaviour
  imports Client_Write
begin

text \<open>
  What the client does on every input and with every behaviour of its peers: the messages of a WRITE, how the shell ends, and the errors of
  the servers as they are shown.
\<close>

section \<open>Every session\<close>

text \<open>
  What a session may log when \<open>sent\<close> updates were sent before: updates, then at most one commit, which needs an update; no
  commit is reported that was not sent.
\<close>

definition session_events :: "nat \<Rightarrow> cl_event list \<Rightarrow> bool" where
  "session_events sent evs \<longleftrightarrow> (\<exists>ups fin. sent_messages evs = ups @ fin \<and> list_all (\<lambda>m. fst m = OP_WRITE_UPDATE) ups
     \<and> (fin = [] \<or> fin = [(OP_WRITE_COMMIT, ''{}'')] \<and> 0 < sent + length ups)
     \<and> (\<forall>t. Show (Writing (Committed t)) \<in> set evs \<longrightarrow> fin \<noteq> []))"

lemma session_events_more:
  assumes "session_events (sent + length ups) evs" and "sent_messages evs' = ups" and "list_all (\<lambda>m. fst m = OP_WRITE_UPDATE) ups"
    and "\<forall>t. Show (Writing (Committed t)) \<notin> set evs'"
  shows "session_events sent (evs' @ evs)"
proof -
  obtain ups1 fin where e: "sent_messages evs = ups1 @ fin" "list_all (\<lambda>m. fst m = OP_WRITE_UPDATE) ups1"
    "fin = [] \<or> fin = [(OP_WRITE_COMMIT, ''{}'')] \<and> 0 < sent + length ups + length ups1"
    "\<forall>t. Show (Writing (Committed t)) \<in> set evs \<longrightarrow> fin \<noteq> []"
    using assms(1) by (auto simp: session_events_def)
  then show ?thesis using assms(2-4) unfolding session_events_def
    by (intro exI [of _ "ups @ ups1"] exI [of _ fin]) (auto simp: add.assoc)
qed

lemma session_events_quiet:
  "list_all (\<lambda>m. fst m = OP_WRITE_UPDATE) (sent_messages evs) \<Longrightarrow> \<forall>t. Show (Writing (Committed t)) \<notin> set evs \<Longrightarrow> session_events sent evs"
  unfolding session_events_def by (intro exI [of _ "sent_messages evs"] exI [of _ "[]"]) simp

lemma cl_send_log:
  "cl_send_message opc rid p l w = (ok, l1, w1) \<Longrightarrow> cw_log w1 = cw_log w @ [Sent opc rid p ok]"
  by (auto simp: cl_send_message_def split: prod.splits)

lemma commit_session_log:
  assumes "unlinked reps" and "0 < sent" and "commit_session reps l w = (b, w1)"
  shows "\<exists>evs. cw_log w1 = cw_log w @ evs \<and> session_events sent evs"
proof -
  obtain ok l1 w2 where s: "cl_send_message OP_WRITE_COMMIT 0 ''{}'' l w = (ok, l1, w2)" by (metis prod_cases3)
  have "\<exists>evs. cw_log w1 = cw_log w @ Sent OP_WRITE_COMMIT 0 ''{}'' ok # evs \<and> sent_messages evs = []"
    using assms(3) cl_send_log [OF s]
    by (auto simp: commit_session_def s send_replicas_unlinked [OF assms(1)] Let_def split: if_splits option.splits)
  then show ?thesis using assms(2) unfolding session_events_def
    by (metis append_Nil list.size(3) add.right_neutral list.pred_inject(1) not_Cons_self2 sent_simps(3))
qed

lemma write_line_log:
  assumes "unlinked reps" and "write_line reps count sent l line w = (nxt, w1)"
  shows "\<exists>evs. cw_log w1 = cw_log w @ evs \<and> (case nxt of W_Stop b \<Rightarrow> session_events sent evs
    | W_Go reps' count' sent' l' \<Rightarrow> unlinked reps' \<and> list_all (\<lambda>m. fst m = OP_WRITE_UPDATE) (sent_messages evs)
        \<and> sent' = sent + length (sent_messages evs) \<and> (\<forall>t. Show (Writing (Committed t)) \<notin> set evs))"
proof (cases "line = ''ETIRW'' \<and> 0 < sent")
  case True
  then show ?thesis using assms by (auto simp: write_line_def dest!: commit_session_log [of reps sent] split: prod.splits)
next
  case False
  have e: "session_events sent [Show (Writing No_Updates)]"
    "session_events sent [Sent OP_WRITE_UPDATE 0 p ok, Show (Warn x), Show (Warn y)]" for p ok x y
    by (rule session_events_quiet; simp)+
  from False assms e show ?thesis
    by (auto simp: write_line_def Let_def send_replicas_unlinked dest!: cl_send_log split: if_splits option.splits prod.splits)
qed

lemma write_loop_log:
  "unlinked reps \<Longrightarrow> write_loop inp reps count sent l w = (b, n, w1) \<Longrightarrow> \<exists>evs. cw_log w1 = cw_log w @ evs \<and> session_events sent evs"
proof (induction inp reps count sent l w rule: write_loop.induct)
  case (1 inp reps count sent l w)
  obtain r rest where f: "fgets_in 1023 inp [] = (r, rest)" by (metis prod.exhaust)
  have q: "session_events sent [Show (Writing Prompt)]" by (rule session_events_quiet) simp_all
  show ?case
  proof (cases r)
    case (Got line)
    obtain nxt w2 where t: "write_line reps count sent l (chomp line) (say (Writing Prompt) w) = (nxt, w2)" by (metis prod.exhaust)
    obtain evs where evs: "cw_log w2 = (cw_log w @ [Show (Writing Prompt)]) @ evs" "case nxt of W_Stop b \<Rightarrow> session_events sent evs
      | W_Go reps' count' sent' l' \<Rightarrow> unlinked reps' \<and> list_all (\<lambda>m. fst m = OP_WRITE_UPDATE) (sent_messages evs)
        \<and> sent' = sent + length (sent_messages evs) \<and> (\<forall>t. Show (Writing (Committed t)) \<notin> set evs)"
      using write_line_log [OF "1.prems"(1) t] by auto
    show ?thesis
    proof (cases nxt)
      case (W_Stop c)
      then have "cw_log w1 = cw_log w2" using "1.prems"(2) f Got t by (subst (asm) write_loop.simps) auto
      moreover have "session_events sent ([Show (Writing Prompt)] @ evs)"
        using evs(2) W_Stop by (intro session_events_more [where ups = "[]"]) simp_all
      ultimately show ?thesis using evs(1) by auto
    next
      case (W_Go reps' count' sent' l')
      have "write_loop rest reps' count' sent' l' w2 = (b, n, w1)" using "1.prems"(2) f Got t W_Go by (subst (asm) write_loop.simps) simp
      then obtain evs2 where e2: "cw_log w1 = cw_log w2 @ evs2" "session_events sent' evs2"
        using "1.IH" [OF f [symmetric] Got t [symmetric] W_Go] evs(2) W_Go by auto
      have "session_events sent (([Show (Writing Prompt)] @ evs) @ evs2)"
        using evs(2) e2(2) W_Go by (intro session_events_more [where ups = "sent_messages evs"]) auto
      then show ?thesis using evs(1) e2(1) by auto
    qed
  qed (use "1.prems"(2) f q in \<open>(subst (asm) write_loop.simps, auto)+\<close>)
qed

text \<open>The beginning of the command: only the lookup and the request are sent and no commit is reported.\<close>

definition opening_events :: "cl_event list \<Rightarrow> bool" where
  "opening_events evs \<longleftrightarrow> fst ` set (sent_messages evs) \<subseteq> {OP_LOOKUP_FILE, OP_WRITE_REQUEST} \<and> (\<forall>t. Show (Writing (Committed t)) \<notin> set evs)"

lemma opening_simps [simp]:
  "opening_events []" "opening_events (xs @ ys) \<longleftrightarrow> opening_events xs \<and> opening_events ys" "opening_events (Dial h q b # xs) \<longleftrightarrow> opening_events xs"
  "opening_events (Sent opc rid p ok # xs) \<longleftrightarrow> opc \<in> {OP_LOOKUP_FILE, OP_WRITE_REQUEST} \<and> opening_events xs"
  "opening_events (Show m # xs) \<longleftrightarrow> (\<forall>t. m \<noteq> Writing (Committed t)) \<and> opening_events xs"
  by (auto simp: opening_events_def)

definition opens :: "cl_world \<Rightarrow> cl_world \<Rightarrow> bool" where
  "opens w w1 \<longleftrightarrow> (\<exists>evs. cw_log w1 = cw_log w @ evs \<and> opening_events evs)"

lemma opens_refl [simp]: "opens w w"
  by (simp add: opens_def)

lemma opens_trans: "opens w w1 \<Longrightarrow> opens w1 w2 \<Longrightarrow> opens w w2"
  by (auto simp: opens_def)

lemma opens_say: "opens w w1 \<Longrightarrow> \<forall>t. m \<noteq> Writing (Committed t) \<Longrightarrow> opens w (say m w1)"
  by (auto simp: opens_def)

lemma opens_error: "opens w w1 \<Longrightarrow> opens w (display_error j w1)"
  by (auto simp: display_error_def error_msg_def Let_def intro!: opens_say split: option.splits)

lemma opens_dial: "dial host port w = (r, w1) \<Longrightarrow> opens w w1"
  by (auto simp: dial_def opens_def Let_def)

lemma opens_send: "cl_send_message opc rid p l w = (ok, l1, w1) \<Longrightarrow> opc \<in> {OP_LOOKUP_FILE, OP_WRITE_REQUEST} \<Longrightarrow> opens w w1"
  by (auto simp: opens_def dest: cl_send_log)

lemma opens_ask: "nm_ask ctx OP_LOOKUP_FILE rid p w = (a, w1) \<Longrightarrow> opens w w1"
  by (auto simp: nm_ask_def cl_ask_def cl_ask_on_def dest!: opens_dial opens_send intro: opens_trans split: prod.splits option.splits if_splits)

lemma opens_failover: "failover i reps w = (r, w1) \<Longrightarrow> opens w w1"
proof (induction i reps w arbitrary: r w1 rule: failover.induct)
  case (2 i rp rs w)
  obtain l w2 where d: "dial (rp_ip rp) (word_of_nat (rp_port rp)) (say (Failover i (rp_ip rp) (rp_port rp)) w) = (l, w2)" by (metis prod.exhaust)
  then have "opens w w2" using opens_dial [OF d] opens_trans [OF opens_say [OF opens_refl]] by auto
  with 2 d show ?case by (auto intro: opens_say opens_trans split: option.splits)
qed simp

lemma opens_connect: "connect_storage name host port reps w = (r, w1) \<Longrightarrow> opens w w1"
  by (auto simp: connect_storage_def intro!: opens_say dest!: opens_dial opens_failover intro: opens_trans split: prod.splits option.splits)

lemma run_session_log: "unlinked reps \<Longrightarrow> \<exists>w1 evs. opens w w1 \<and> cw_log (run_write_session n k reps count l w) = cw_log w1 @ evs \<and> session_events 0 evs"
proof -
  assume u: "unlinked reps"
  define w3 where "w3 = say (Writing (Word_Count count)) (if reps \<noteq> []
     then say (Writing (Replicating (length (filter (\<lambda>r. rp_link r \<noteq> None) reps)))) (say (Writing (Lock_Acquired n k)) w)
     else say (Writing (Lock_Acquired n k)) w)"
  have "opens w w3" by (auto simp: w3_def intro!: opens_say)
  moreover obtain b m w4 where l: "write_loop (cw_stdin w3) reps count 0 l w3 = (b, m, w4)" by (metis prod_cases3)
  moreover obtain evs where e: "cw_log w4 = cw_log w3 @ evs" "session_events 0 evs" using write_loop_log [OF u l] by auto
  moreover have "session_events 0 (evs @ [Show (Writing Aborted)])" using e(2) by (auto simp: session_events_def)
  ultimately show ?thesis unfolding run_write_session_def Let_def w3_def [symmetric] l by auto
qed

lemma write_on_log: "unlinked reps \<Longrightarrow> \<exists>w1 evs. opens w w1 \<and> cw_log (write_on ctx n k reps l w) = cw_log w1 @ evs \<and> session_events 0 evs"
proof -
  assume u: "unlinked reps"
  define p where "p = write_text ctx n k"
  obtain ok l1 w1 where s: "cl_send_message OP_WRITE_REQUEST 0 p l w = (ok, l1, w1)" by (metis prod_cases3)
  have o: "opens w w1" using opens_send [OF s] by simp
  have e: "session_events 0 []" by (rule session_events_quiet) simp_all
  have "opens w (write_on ctx n k reps l w) \<or> (\<exists>c l2. write_on ctx n k reps l w = run_write_session n k reps c l2 w1)"
    using o by (auto simp: write_on_def [folded write_text_def] p_def [symmetric] s intro!: opens_say opens_error split: option.splits prod.splits)
  then show ?thesis
  proof (elim disjE exE)
    assume "opens w (write_on ctx n k reps l w)"
    with e show ?thesis by (intro exI [of _ "write_on ctx n k reps l w"] exI [of _ "[]"]) simp
  next
    fix c l2 assume "write_on ctx n k reps l w = run_write_session n k reps c l2 w1"
    then show ?thesis using run_session_log [OF u, of w1 n k c l2] opens_trans [OF o] by auto
  qed
qed

definition in_order :: "cl_world \<Rightarrow> cl_world \<Rightarrow> bool" where
  "in_order w w' \<longleftrightarrow> (\<exists>w1 evs. opens w w1 \<and> cw_log w' = cw_log w1 @ evs \<and> session_events 0 evs)"

lemma in_order_opens: "opens w w' \<Longrightarrow> in_order w w'"
  unfolding in_order_def by (intro exI [of _ w'] exI [of _ "[]"]) (simp add: session_events_quiet)

lemma in_order_write_on: "opens w w1 \<Longrightarrow> in_order w (write_on ctx n k (found_replicas resp) l w1)"
  using write_on_log [OF found_replicas_unlinked, of w1 ctx n k resp l] opens_trans unfolding in_order_def by blast


section \<open>The shell\<close>

lemma fgets_in_eof: "fgets_in n xs acc = (At_Eof, rest) \<Longrightarrow> rest = []"
  by (induction n xs acc rule: fgets_in.induct) (auto split: if_splits)

lemma execute_stops:
  "parse_and_execute ctx line w = (rc, w1) \<Longrightarrow> rc < 0 \<Longrightarrow>
   w1 = w \<and> (\<exists>rest. tokens client_sep (c_str line) \<in> {''exit'' # rest, ''quit'' # rest})"
  by (cases "tokens client_sep (c_str line)") (auto simp: parse_and_execute_def Let_def split: if_splits option.splits)


section \<open>Errors\<close>

text \<open>
  C18: the client shows what a server reports: the text, and the storage server's number with its explanation or the name server's code. Of the storage
  engine's codes it explains all but those for existing files, for things that are no folders and for missing rights.
\<close>
theorem errors_shown:
  assumes "error_text_ok m" and "rc \<noteq> STORAGE_OK"
  shows "error_msg (Some (snd (error_reply m (storage_rc_code rc)))) =
      Error_Shown m (Numbered (get_error_message (storage_rc_code rc)) (storage_rc_code rc))
    \<and> error_msg (Some (snd (snd (send_error rid code m)))) = Error_Shown m (Coded (protocol_error_name code))
    \<and> (get_error_message (storage_rc_code rc) = ''Unknown error'' \<longleftrightarrow> rc \<in> {STORAGE_ERR_EXISTS, STORAGE_ERR_NOT_FOLDER, STORAGE_ERR_NO_ACCESS})"
proof -
  have "storage_rc_code rc \<noteq> 0" "\<bar>storage_rc_code rc\<bar> \<le> LLONG_MAX" using assms(2) by (cases rc; simp add: LLONG_MAX_def)+
  moreover have "get_error_message (storage_rc_code rc) = ''Unknown error'' \<longleftrightarrow> rc \<in> {STORAGE_ERR_EXISTS, STORAGE_ERR_NOT_FOLDER, STORAGE_ERR_NO_ACCESS}"
    using assms(2) by (cases rc) (simp_all add: get_error_message_def)
  ultimately show ?thesis using ss_error_shown [OF assms(1)] nm_error_shown [OF assms(1)] by simp
qed

theorem errors_shown_witness:
  "error_msg (Some (snd (error_reply ''Write failed'' (-2)))) = Error_Shown ''Write failed'' (Numbered ''Invalid operation (check word/sentence indices)'' (-2))"
proof -
  have "error_text_ok ''Write failed''" by (simp add: error_text_ok_def plain_def)
  from errors_shown [OF this, of STORAGE_ERR_INVALID] show ?thesis by (simp add: get_error_message_def)
qed

end
