(* ===== verification/Storage_Main.thy ===== *)
theory Storage_Main
  imports Storage_Server
begin

text \<open>
  The main program of the storage server (\<open>main\<close> of \<open>storage_server/src/main.c\<close>): the start from the command line and the loop that
  sends heartbeats and starts a thread for every client.
\<close>

section \<open>Start\<close>

definition ss_usage :: "string list \<Rightarrow> bool" where
  "ss_usage argv = (length argv \<noteq> 5)"

definition ss_state_of :: "string list \<Rightarrow> storage_engine \<Rightarrow> fs \<Rightarrow> ss_state" where
  "ss_state_of argv e d = \<lparr>ss_id = fit 128 (argv ! 3), ss_nm_host = fit 256 (argv ! 1),
     ss_nm_port = word_of_nat (fst (strtoul (argv ! 2))), ss_client_port = word_of_nat (fst (strtoul (argv ! 4))), ss_nm_fd = -1,
     ss_engine = e, ss_disk = d, ss_active_readers = 0, ss_active_writers = 0, ss_request_counter = 0, ss_locked_sentences = []\<rparr>"

definition ss_storage_path :: "string list \<Rightarrow> string" where
  "ss_storage_path argv = fit 512 (''./ss_data/'' @ fit 128 (argv ! 3))"

text \<open>
  What the calls of the start give: the descriptor of the connection to the name server, whether the registration was sent, the opcode
  of the answer, and the listening descriptor.
\<close>

record ss_calls =
  sc_connect :: int
  sc_sent :: bool
  sc_answer :: "u16 option"
  sc_listen :: int

text \<open>The started server, or \<open>None\<close> for an exit with failure; the disk may have new directories in any case.\<close>

definition ss_start :: "io \<Rightarrow> fs \<Rightarrow> ss_calls \<Rightarrow> string list \<Rightarrow> ss_state option \<times> fs" where
  "ss_start w d calls argv = (if ss_usage argv then (None, d)
     else case storage_engine_init w d (ss_storage_path argv) (fit 128 (argv ! 3)) of
         (None, d1) \<Rightarrow> (None, d1)
       | (Some e, d1) \<Rightarrow>
           (case register_with_nm (sc_connect calls) (sc_sent calls) (sc_answer calls) (ss_state_of argv e d1) of
              (registered, s) \<Rightarrow> if \<not> registered then (None, d1)
                else if sc_listen calls < 0 then (None, d1) else (Some s, d1)))"

section \<open>The loop\<close>

text \<open>
  One pass: the time, the counters as the threads of the clients have left them, what the calls of a heartbeat give, and the
  descriptor of a client that was accepted with the success of starting its thread. The loop ends with the list, when a signal clears \<open>running\<close>.
\<close>

record ss_pass =
  pa_now :: time_t
  pa_readers :: u32
  pa_writers :: u32
  pa_sent :: bool
  pa_connect :: int
  pa_resent :: bool
  pa_answer :: "u16 option"
  pa_client :: "(int \<times> bool) option"

datatype ss_event = Beat time_t string bool | Rejoin bool | Serve int | Hang_Up int

definition HEARTBEAT_INTERVAL :: time_t where
  "HEARTBEAT_INTERVAL = 5"

definition beat_events :: "ss_pass \<Rightarrow> ss_state \<Rightarrow> ss_event list" where
  "beat_events p s = (if ss_nm_fd s < 0 then []
     else Beat (pa_now p) (heartbeat_payload s) (pa_sent p) # (if pa_sent p then []
       else [Rejoin (fst (register_with_nm (pa_connect p) (pa_resent p) (pa_answer p) s))]))"

definition main_pass :: "ss_pass \<Rightarrow> time_t \<Rightarrow> ss_state \<Rightarrow> ss_event list \<times> time_t \<times> ss_state" where
  "main_pass p last_heartbeat s0 =
     (let s = s0\<lparr>ss_active_readers := pa_readers p, ss_active_writers := pa_writers p\<rparr>;
          (evs, last', s') = (if HEARTBEAT_INTERVAL \<le> pa_now p - last_heartbeat
            then (beat_events p s, pa_now p, send_heartbeat (pa_sent p) (pa_connect p) (pa_resent p) (pa_answer p) s)
            else ([], last_heartbeat, s));
          evs' = (case pa_client p of None \<Rightarrow> [] | Some (fd, started) \<Rightarrow> if fd < 0 then [] else if started then [Serve fd] else [Hang_Up fd])
      in (evs @ evs', last', s'))"

fun main_loop :: "ss_pass list \<Rightarrow> time_t \<Rightarrow> ss_state \<Rightarrow> ss_event list \<times> time_t \<times> ss_state" where
  "main_loop [] last_heartbeat s = ([], last_heartbeat, s)"
| "main_loop (p # ps) last_heartbeat s = (case main_pass p last_heartbeat s of
     (evs, last', s') \<Rightarrow> (case main_loop ps last' s' of (evs', r) \<Rightarrow> (evs @ evs', r)))"

section \<open>Heartbeats\<close>

fun beat_times :: "ss_event list \<Rightarrow> time_t list" where
  "beat_times [] = []"
| "beat_times (Beat t p ok # es) = t # beat_times es"
| "beat_times (_ # es) = beat_times es"

lemma beat_times_append [simp]: "beat_times (xs @ ys) = beat_times xs @ beat_times ys"
  by (induction xs rule: beat_times.induct) auto

text \<open>Times each at least \<open>lo\<close> and less than \<open>hi\<close> after the one before.\<close>

fun paced :: "time_t \<Rightarrow> time_t \<Rightarrow> time_t \<Rightarrow> time_t list \<Rightarrow> bool" where
  "paced lo hi t [] = True"
| "paced lo hi t (b # bs) = (lo \<le> b - t \<and> b - t < hi \<and> paced lo hi b bs)"

text \<open>The passes follow each other within \<open>g\<close> seconds, and every heartbeat is sent.\<close>

fun steady :: "time_t \<Rightarrow> time_t \<Rightarrow> ss_pass list \<Rightarrow> bool" where
  "steady g t [] = True"
| "steady g t (p # ps) = (t \<le> pa_now p \<and> pa_now p \<le> t + g \<and> pa_sent p \<and> steady g (pa_now p) ps)"

lemma client_no_beat: "beat_times (case c of None \<Rightarrow> [] | Some (fd, started) \<Rightarrow> if fd < 0 then [] else if started then [Serve fd] else [Hang_Up fd]) = []"
  by (auto split: option.splits)

lemma main_pass_steady:
  assumes "0 \<le> ss_nm_fd s" and "pa_sent p" and "main_pass p last_heartbeat s = (evs, last', s')"
  shows "0 \<le> ss_nm_fd s'"
    and "beat_times evs = (if HEARTBEAT_INTERVAL \<le> pa_now p - last_heartbeat then [pa_now p] else [])"
    and "last' = (if HEARTBEAT_INTERVAL \<le> pa_now p - last_heartbeat then pa_now p else last_heartbeat)"
  using assms by (auto simp: main_pass_def send_heartbeat_def beat_events_def client_no_beat Let_def split: if_splits)

lemma main_loop_paced:
  assumes "0 \<le> ss_nm_fd s" and "steady g t ps" and "t - last_heartbeat < HEARTBEAT_INTERVAL" and "main_loop ps last_heartbeat s = (evs, last', s')"
  shows "paced HEARTBEAT_INTERVAL (HEARTBEAT_INTERVAL + g) last_heartbeat (beat_times evs)
    \<and> last' = last (last_heartbeat # beat_times evs) \<and> last (t # map pa_now ps) - last' < HEARTBEAT_INTERVAL"
  using assms
proof (induction ps arbitrary: t last_heartbeat s evs)
  case (Cons p ps)
  obtain es l1 s1 where p: "main_pass p last_heartbeat s = (es, l1, s1)" by (metis prod_cases3)
  obtain es' where r: "main_loop ps l1 s1 = (es', last', s')" and evs: "evs = es @ es'"
    using Cons.prems(4) p by (auto split: prod.splits)
  have st: "pa_sent p" "t \<le> pa_now p" "pa_now p \<le> t + g" "steady g (pa_now p) ps" using Cons.prems(2) by simp_all
  note m = main_pass_steady [OF Cons.prems(1) st(1) p]
  have "pa_now p - l1 < HEARTBEAT_INTERVAL" unfolding m(3) by (simp add: HEARTBEAT_INTERVAL_def)
  note ih = Cons.IH [OF m(1) st(4) this r]
  then show ?case using st(2,3) Cons.prems(3) m(2,3) by (auto simp: evs split: if_splits)
qed auto

lemma main_loop_lost:
  "ss_nm_fd s < 0 \<Longrightarrow> main_loop ps last_heartbeat s = (evs, last', s') \<Longrightarrow> ss_nm_fd s' = ss_nm_fd s \<and> beat_times evs = [] \<and> (\<forall>ok. Rejoin ok \<notin> set evs)"
proof (induction ps arbitrary: last_heartbeat s evs)
  case (Cons p ps)
  obtain es l1 s1 where p: "main_pass p last_heartbeat s = (es, l1, s1)" by (metis prod_cases3)
  have "ss_nm_fd s1 = ss_nm_fd s" "beat_times es = []" "\<forall>ok. Rejoin ok \<notin> set es"
    using p Cons.prems(1) client_no_beat [of "pa_client p"]
    by (auto simp: main_pass_def send_heartbeat_def beat_events_def Let_def split: if_splits option.splits prod.splits)
  moreover obtain es' where "main_loop ps l1 s1 = (es', last', s')" "evs = es @ es'"
    using Cons.prems(2) p by (auto split: prod.splits)
  ultimately show ?case using Cons.IH [of s1 l1 es'] Cons.prems(1) by auto
qed auto

text \<open>The heartbeats that were sent, with their time.\<close>

fun beat_messages :: "ss_event list \<Rightarrow> (time_t \<times> string) list" where
  "beat_messages [] = []"
| "beat_messages (Beat t p ok # es) = (if ok then (t, p) # beat_messages es else beat_messages es)"
| "beat_messages (_ # es) = beat_messages es"

lemma beat_messages_append [simp]: "beat_messages (xs @ ys) = beat_messages xs @ beat_messages ys"
  by (induction xs rule: beat_messages.induct) auto

lemma client_no_message:
  "beat_messages (case c of None \<Rightarrow> [] | Some (fd, started) \<Rightarrow> if fd < 0 then [] else if started then [Serve fd] else [Hang_Up fd]) = []"
  by (auto split: option.splits)

lemma main_pass_messages:
  assumes "0 \<le> ss_nm_fd s" and "pa_sent p" and "main_pass p last_heartbeat s = (evs, last', s')"
  shows "map fst (beat_messages evs) = beat_times evs \<and> ss_id s' = ss_id s
    \<and> list_all (\<lambda>(t, q). \<exists>s1. ss_id s1 = ss_id s \<and> q = heartbeat_payload s1) (beat_messages evs)"
  using assms by (auto simp: main_pass_def send_heartbeat_def beat_events_def client_no_beat client_no_message Let_def
      intro!: exI [of _ "s\<lparr>ss_active_readers := pa_readers p, ss_active_writers := pa_writers p\<rparr>"] split: if_splits)

lemma main_loop_messages:
  assumes "0 \<le> ss_nm_fd s" and "steady g t ps" and "main_loop ps last_heartbeat s = (evs, last', s')"
  shows "map fst (beat_messages evs) = beat_times evs
    \<and> list_all (\<lambda>(t, q). \<exists>s1. ss_id s1 = ss_id s \<and> q = heartbeat_payload s1) (beat_messages evs)"
  using assms
proof (induction ps arbitrary: t last_heartbeat s evs)
  case (Cons p ps)
  obtain es l1 s1 where p: "main_pass p last_heartbeat s = (es, l1, s1)" by (metis prod_cases3)
  obtain es' where r: "main_loop ps l1 s1 = (es', last', s')" and evs: "evs = es @ es'"
    using Cons.prems(3) p by (auto split: prod.splits)
  have st: "pa_sent p" "steady g (pa_now p) ps" using Cons.prems(2) by simp_all
  note m = main_pass_messages [OF Cons.prems(1) st(1) p]
  from Cons.IH [OF main_pass_steady(1) [OF Cons.prems(1) st(1) p] st(2) r] m show ?case by (simp add: evs)
qed auto

end
