(* ===== verification/Heartbeats.thy ===== *)
theory Heartbeats
  imports Storage_Main Links Nm_Properties Server_Properties
begin

text \<open>
  The heartbeats of a storage server and the name server that receives them: how often they come, what they report, and when the name
  server takes a storage server for dead.
\<close>

section \<open>What the name server reads\<close>

definition id_ok :: "string \<Rightarrow> bool" where
  "id_ok i \<longleftrightarrow> plain i \<and> length i < 128 \<and> i \<noteq> ''readers'' \<and> i \<noteq> ''writers''"

lemma heartbeat_keys [simp]: "json_key ''ss_id''" "json_key ''readers''" "json_key ''writers''" "plain ''ss_id''" "plain ''readers''" "plain ''writers''"
  by (simp_all add: json_key_def plain_def)

lemma heartbeat_read:
  assumes "id_ok (ss_id s)"
  shows "json_get_string (heartbeat_payload s) ''ss_id'' 128 = Some (ss_id s)"
    and "json_get_uint (heartbeat_payload s) ''readers'' = Some (unat (ss_active_readers s))"
    and "json_get_uint (heartbeat_payload s) ''writers'' = Some (unat (ss_active_writers s))"
proof -
  note i = assms [unfolded id_ok_def]
  let ?r = "unat (ss_active_readers s)" and ?w = "unat (ss_active_writers s)" and ?fs = "[(''ss_id'', ss_id s)]"
  let ?v = "DQ # ''writers'' @ DQ # CHR '':'' # show_nat ?w @ ''}''"
  have b: "?r < 2 ^ 32" "?w < 2 ^ 32" using unsigned_less [of "ss_active_readers s"] unsigned_less [of "ss_active_writers s"] by simp_all
  then have l: "length (show_nat ?r) \<le> 10" "length (show_nat ?w) \<le> 10"
    using show_nat_length [of ?r 10] show_nat_length [of ?w 10] by simp_all
  have t: "heartbeat_payload s = ''{'' @ json_fields ?fs (CHR '','' # DQ # ''readers'' @ DQ # CHR '':'' # show_nat ?r @ CHR '','' # ?v)"
    using i l by (simp add: heartbeat_payload_def fit_id)
  show "json_get_string (heartbeat_payload s) ''ss_id'' 128 = Some (ss_id s)" unfolding t
    by (rule nm_fields.get_fits [of _ _ 0]) (use i in \<open>auto simp: plain_def\<close>)
  show "json_get_uint (heartbeat_payload s) ''readers'' = Some ?r" unfolding t
    by (rule json_get_uint_behind) (use i b in \<open>auto simp: ULONG_MAX_def is_digit_def plain_def\<close>)
  have "strstr (heartbeat_payload s) (DQ # ''writers'' @ [DQ]) =
      strstr (json_fields ?fs (CHR '','' # DQ # ''readers'' @ DQ # CHR '':'' # show_nat ?r @ CHR '','' # ?v)) (DQ # ''writers'' @ [DQ])"
    unfolding t by (rule strstr_hd_absent [OF refl]) simp
  also have "\<dots> = strstr (DQ # ''readers'' @ DQ # CHR '':'' # show_nat ?r @ CHR '','' # ?v) (DQ # ''writers'' @ [DQ])"
    by (rule strstr_behind) (use i in auto)
  also have "\<dots> = strstr ?v (DQ # ''writers'' @ [DQ])" by (rule strstr_number) simp_all
  also have "\<dots> = Some ?v" by (rule strstr_prefix) simp
  finally have "json_after_colon (heartbeat_payload s) ''writers'' = Some (show_nat ?w @ ''}'')"
    by (simp add: json_after_colon_def Let_def fit_id show_nat_no_blank del: strstr.simps)
  then show "json_get_uint (heartbeat_payload s) ''writers'' = Some ?w"
    using b strtoul_show_nat [of ?w "''}''"] show_nat_nonempty [of ?w] by (simp add: json_get_uint_def ULONG_MAX_def is_digit_def)
qed

section \<open>A storage server that is alive is taken for alive\<close>

text \<open>The name server after heartbeats that arrive at given times.\<close>

fun nm_beats :: "nm_env \<Rightarrow> nm_state \<Rightarrow> (time_t \<times> string) list \<Rightarrow> nm_state option" where
  "nm_beats env st [] = Some st"
| "nm_beats env st ((t, p) # bs) = (case handle_heartbeat (env\<lparr>ne_now := t\<rparr>) st p of
     None \<Rightarrow> None | Some (st', _) \<Rightarrow> nm_beats env st' bs)"

definition delayed :: "time_t \<Rightarrow> time_t \<times> string \<Rightarrow> time_t \<times> string \<Rightarrow> bool" where
  "delayed d m a \<longleftrightarrow> snd a = snd m \<and> fst m \<le> fst a \<and> fst a \<le> fst m + d"

lemma beat_recorded:
  assumes "id_ok (ss_id s)" and "find_storage_server st (ss_id s) = Some i"
  obtains st' i' where "handle_heartbeat env st (heartbeat_payload s) = Some (st', [])" and "find_storage_server st' (ss_id s) = Some i'"
    and "si_last_heartbeat i' = ne_now env" and "si_active_readers i' = ss_active_readers s" and "si_active_writers i' = ss_active_writers s"
proof -
  let ?f = "\<lambda>i. i\<lparr>si_active_readers := ss_active_readers s, si_active_writers := ss_active_writers s, si_last_heartbeat := ne_now env\<rparr>"
  let ?st = "st\<lparr>nm_servers := update_first (\<lambda>i. si_ss_id i = ss_id s) ?f (nm_servers st)\<rparr>"
  have "handle_heartbeat env st (heartbeat_payload s) = Some (?st, [])"
    using assms by (simp add: handle_heartbeat_def heartbeat_read)
  moreover have "find_storage_server ?st (ss_id s) = Some (?f i)"
    using assms(2) by (simp add: find_storage_server_def find_update_first)
  ultimately show thesis using that by simp
qed

lemma beats_recorded:
  assumes "id_ok n" and "list_all (\<lambda>(t, q). \<exists>s1. ss_id s1 = n \<and> q = heartbeat_payload s1) (xs @ [(a, q)])" and "find_storage_server st n = Some i"
  shows "\<exists>st' i' s1. nm_beats env st (xs @ [(a, q)]) = Some st' \<and> find_storage_server st' n = Some i' \<and> si_last_heartbeat i' = a
    \<and> ss_id s1 = n \<and> q = heartbeat_payload s1 \<and> si_active_readers i' = ss_active_readers s1 \<and> si_active_writers i' = ss_active_writers s1"
  using assms(2,3)
proof (induction xs arbitrary: st i)
  case Nil
  then obtain s1 where s1: "ss_id s1 = n" "q = heartbeat_payload s1" by auto
  have "id_ok (ss_id s1)" "find_storage_server st (ss_id s1) = Some i" using assms(1) Nil.prems(2) s1(1) by simp_all
  then obtain st' i' where "handle_heartbeat (env\<lparr>ne_now := a\<rparr>) st (heartbeat_payload s1) = Some (st', [])" "find_storage_server st' (ss_id s1) = Some i'"
    "si_last_heartbeat i' = ne_now (env\<lparr>ne_now := a\<rparr>)" "si_active_readers i' = ss_active_readers s1" "si_active_writers i' = ss_active_writers s1"
    by (rule beat_recorded)
  with s1 show ?case by auto
next
  case (Cons x xs)
  then obtain t s1 where x: "x = (t, heartbeat_payload s1)" "ss_id s1 = n" by auto
  have "id_ok (ss_id s1)" "find_storage_server st (ss_id s1) = Some i" using assms(1) Cons.prems(2) x(2) by simp_all
  then obtain st1 i1 where "handle_heartbeat (env\<lparr>ne_now := t\<rparr>) st (heartbeat_payload s1) = Some (st1, [])" "find_storage_server st1 (ss_id s1) = Some i1"
    by (rule beat_recorded)
  then show ?case using Cons.IH [of st1 i1] Cons.prems(1) x by simp
qed

lemma paced_next: "paced lo hi t (bs @ b # b' # cs) \<Longrightarrow> b' - b < hi"
  by (induction bs arbitrary: t) auto

text \<open>
  C13: a storage server that works is never taken for dead. When its main loop turns at least every \<open>g\<close> seconds and the heartbeats arrive with at most \<open>D\<close>
  seconds of delay, \<open>g + D \<le> 11\<close>, then from any heartbeat to the next the name server has the counts of readers and writers that the heartbeat
  reported and takes the server for alive.
\<close>
theorem never_taken_for_dead:
  assumes "main_loop ps t0 s = (evs, last', s')" and "0 \<le> ss_nm_fd s" and "steady g t0 ps" and "id_ok (ss_id s)"
    and "list_all2 (delayed D) (beat_messages evs) (xs @ (a, q) # (a', q') # ys)" and "g + D \<le> 11"
    and "find_storage_server st (ss_id s) = Some i" and "now \<le> a'"
  shows "\<exists>st' i' s1. nm_beats env st (xs @ [(a, q)]) = Some st' \<and> find_storage_server st' (ss_id s) = Some i' \<and> server_alive now i'
    \<and> q = heartbeat_payload s1 \<and> si_active_readers i' = ss_active_readers s1 \<and> si_active_writers i' = ss_active_writers s1"
proof -
  obtain ms1 m m' ms2 where ms: "beat_messages evs = ms1 @ m # m' # ms2" "list_all2 (delayed D) ms1 xs" "delayed D m (a, q)" "delayed D m' (a', q')"
    using assms(5) by (auto simp: list_all2_append2 list_all2_Cons2)
  note msg = main_loop_messages [OF assms(2,3,1)]
  have "paced HEARTBEAT_INTERVAL (HEARTBEAT_INTERVAL + g) t0 (map fst ms1 @ fst m # fst m' # map fst ms2)"
    using main_loop_paced [OF assms(2,3) _ assms(1)] msg by (simp add: ms(1) HEARTBEAT_INTERVAL_def)
  then have "fst m' - fst m < HEARTBEAT_INTERVAL + g" by (rule paced_next)
  then have near: "now - a \<le> 15" using ms(3,4) assms(6,8) by (simp add: delayed_def HEARTBEAT_INTERVAL_def)
  have all: "list_all (\<lambda>(t, q). \<exists>s1. ss_id s1 = ss_id s \<and> q = heartbeat_payload s1) (ms1 @ [m])" using msg by (simp add: ms(1))
  have "list_all2 (delayed D) (ms1 @ [m]) (xs @ [(a, q)])" using ms(2,3) by (simp add: list_all2_appendI)
  then have "list_all (\<lambda>(t, q). \<exists>s1. ss_id s1 = ss_id s \<and> q = heartbeat_payload s1) (xs @ [(a, q)])"
    using all by (induction rule: list_all2_induct) (auto simp: delayed_def)
  from beats_recorded [OF assms(4) this assms(7), of env] near show ?thesis by (auto simp: server_alive_def)
qed

text \<open>Passes every three seconds; the heartbeats are sent at 6 and 12.\<close>

definition pass0 :: "time_t \<Rightarrow> u32 \<Rightarrow> ss_pass" where
  "pass0 t r = \<lparr>pa_now = t, pa_readers = r, pa_writers = 0, pa_sent = True, pa_connect = 5, pa_resent = True, pa_answer = None, pa_client = Some (8, True)\<rparr>"

definition beat0 :: "u32 \<Rightarrow> string" where
  "beat0 r = heartbeat_payload (server0\<lparr>ss_active_readers := r\<rparr>)"

theorem never_taken_for_dead_witness:
  "\<exists>st' i'. nm_beats nm_env0 nm0 [(7, beat0 2)] = Some st' \<and> find_storage_server st' ''s'' = Some i' \<and> server_alive 13 i'"
proof -
  obtain evs l' s' where run: "main_loop [pass0 3 1, pass0 6 2, pass0 9 3, pass0 12 4] 0 server0 = (evs, l', s')" by (metis prod_cases3)
  have fd: "0 \<le> ss_nm_fd server0" and n: "ss_id server0 = ''s''" and ok: "id_ok (ss_id server0)"
    by (simp_all add: server0_def id_ok_def plain_def)
  have hp: "heartbeat_payload (s\<lparr>ss_request_counter := c\<rparr>) = heartbeat_payload s" for c and s :: ss_state by (simp add: heartbeat_payload_def)
  have "beat_messages evs = [(6, beat0 2), (12, beat0 4)]" using run
    by (auto simp: main_pass_def pass0_def beat_events_def send_heartbeat_def HEARTBEAT_INTERVAL_def Let_def beat0_def)
       (simp_all add: server0_def heartbeat_payload_def)
  then have d: "list_all2 (delayed 1) (beat_messages evs) ([] @ (7, beat0 2) # (13, beat0 4) # [])" by (simp add: delayed_def)
  have st: "steady 3 0 [pass0 3 1, pass0 6 2, pass0 9 3, pass0 12 4]" by (simp add: pass0_def)
  have f: "find_storage_server nm0 (ss_id server0) = Some (nm_server ''s'' 7 5)" by (simp add: find_storage_server_def n nm0_def nm_server_def)
  from never_taken_for_dead [OF run fd st ok d _ f, of 13 nm_env0] show ?thesis by (auto simp: n)
qed

section \<open>A lost connection\<close>

text \<open>
  C14: a storage server that once fails to reach the name server never tries again: after a heartbeat that could not be sent and one registration that
  failed, the loop runs on, however long, without a heartbeat and without a further registration.
\<close>
theorem lost_connection_stays_lost:
  assumes "main_loop (p # ps) l s = (evs, l', s')" and "0 \<le> ss_nm_fd s" and "HEARTBEAT_INTERVAL \<le> pa_now p - l" and "\<not> pa_sent p"
    and "pa_connect p < 0 \<or> \<not> pa_resent p \<or> pa_answer p \<noteq> Some (opcode_code OP_REGISTER_ACK)"
  shows "ss_nm_fd s' < 0 \<and> beat_times evs = [pa_now p] \<and> Rejoin True \<notin> set evs \<and> length (filter (\<lambda>e. \<exists>ok. e = Rejoin ok) evs) = 1"
proof -
  obtain es l1 s1 where p: "main_pass p l s = (es, l1, s1)" by (metis prod_cases3)
  obtain es' where r: "main_loop ps l1 s1 = (es', l', s')" and evs: "evs = es @ es'" using assms(1) p by (auto split: prod.splits)
  have s1: "ss_nm_fd s1 < 0" and es: "\<exists>q xs. es = [Beat (pa_now p) q False, Rejoin False] @ xs \<and> beat_times xs = [] \<and> (\<forall>ok. Rejoin ok \<notin> set xs)"
    using p assms(2-5) by (auto simp: main_pass_def send_heartbeat_def beat_events_def register_with_nm_def Let_def split: if_splits option.splits)
  then obtain q xs where "es = [Beat (pa_now p) q False, Rejoin False] @ xs" "beat_times xs = []" "\<forall>ok. Rejoin ok \<notin> set xs" by blast
  moreover have "filter (\<lambda>e. \<exists>ok. e = Rejoin ok) zs = []" if "\<forall>ok. Rejoin ok \<notin> set zs" for zs using that by (auto simp: filter_empty_conv)
  ultimately show ?thesis using main_loop_lost [OF s1 r] s1 by (auto simp: evs)
qed

theorem lost_connection_stays_lost_witness:
  "beat_times (fst (main_loop [(pass0 6 0)\<lparr>pa_sent := False, pa_connect := -1\<rparr>, pass0 12 0, pass0 99 0] 0 server0)) = [6]"
proof -
  obtain evs l' s' where run: "main_loop [(pass0 6 0)\<lparr>pa_sent := False, pa_connect := -1\<rparr>, pass0 12 0, pass0 99 0] 0 server0 = (evs, l', s')" by (metis prod_cases3)
  have "0 \<le> ss_nm_fd server0" by (simp add: server0_def)
  from lost_connection_stays_lost [OF run this] run show ?thesis by (simp add: pass0_def HEARTBEAT_INTERVAL_def del: main_loop.simps)
qed

end
