(* ===== verification/Shutdown.thy ===== *)
theory Shutdown
  imports Nm_Properties "HOL-Library.Multiset"
begin

text \<open>
  The end of the name server: closing its connections and freeing the tables, the cache and the index
  (\<open>close_all_connections\<close>, \<open>free_registry\<close>, \<open>lru_cache_destroy\<close>, \<open>file_index_destroy\<close>). A second \<open>free\<close> of an address, or reading a
  freed cell, has the value \<open>None\<close>.
\<close>

section \<open>Freeing\<close>

definition free_address :: "nat \<Rightarrow> (nat \<Rightarrow> 'a option) \<Rightarrow> (nat \<Rightarrow> 'a option) option" where
  "free_address p m = (case m p of None \<Rightarrow> None | Some _ \<Rightarrow> Some (m(p := None)))"

fun free_all :: "nat list \<Rightarrow> (nat \<Rightarrow> 'a option) \<Rightarrow> (nat \<Rightarrow> 'a option) option" where
  "free_all [] m = Some m"
| "free_all (p # ps) m = (case free_address p m of None \<Rightarrow> None | Some m' \<Rightarrow> free_all ps m')"

lemma free_all_live: "distinct ps \<Longrightarrow> \<forall>p\<in>set ps. m p \<noteq> None \<Longrightarrow> free_all ps m = Some (\<lambda>p. if p \<in> set ps then None else m p)"
proof (induction ps arbitrary: m)
  case (Cons p ps)
  then obtain v where v: "m p = Some v" by auto
  have "free_all ps (m(p := None)) = Some (\<lambda>q. if q \<in> set ps then None else (m(p := None)) q)"
    using Cons.prems by (intro Cons.IH) auto
  then show ?case using v by (auto simp: free_address_def fun_eq_iff)
qed auto

text \<open>A node frees its children, in the order of their characters, and then its own record.\<close>

primrec trie_free_order :: "trie \<Rightarrow> nat list" where
  "trie_free_order (Node r ch) = concat (map (\<lambda>i. case (map_option trie_free_order \<circ> ch) (char_of (i :: nat)) of
     None \<Rightarrow> [] | Some ps \<Rightarrow> ps) [0..<256]) @ (case r of None \<Rightarrow> [] | Some p \<Rightarrow> [p])"

definition file_index_destroy :: "file_index \<Rightarrow> (nat \<Rightarrow> file_record option) option" where
  "file_index_destroy ix = free_all (trie_free_order (ix_root ix)) (ix_heap ix)"

text \<open>The next pointer is read before the cell is freed. On a cyclic list the second visit finds a freed cell.\<close>

partial_function (option) lru_destroy_loop :: "cells \<Rightarrow> nat option \<Rightarrow> cells option" where
  "lru_destroy_loop m p = (case p of None \<Rightarrow> Some m
   | Some a \<Rightarrow> (case m a of None \<Rightarrow> None | Some e \<Rightarrow> lru_destroy_loop (m(a := None)) (ce_next e)))"

definition lru_cache_destroy :: "lru_cache \<Rightarrow> cells option" where
  "lru_cache_destroy c = lru_destroy_loop (lc_cells c) (lc_head c)"

definition close_all_connections :: "nm_state \<Rightarrow> int list \<times> nm_state" where
  "close_all_connections st = (map cn_fd (nm_connections st), st\<lparr>nm_connections := []\<rparr>)"

definition free_registry :: "nm_state \<Rightarrow> nm_state" where
  "free_registry st = st\<lparr>nm_servers := [], nm_clients := []\<rparr>"

text \<open>The descriptors closed, and what is left of the cells and records.\<close>

definition nm_shutdown :: "int \<Rightarrow> nm_state \<Rightarrow> (int list \<times> nm_state \<times> cells \<times> (nat \<Rightarrow> file_record option)) option" where
  "nm_shutdown listen_fd st = (case close_all_connections st of (fds, st1) \<Rightarrow>
     let st2 = free_registry st1 in
     case lru_cache_destroy (nm_cache st2) of None \<Rightarrow> None
     | Some cells \<Rightarrow> (case file_index_destroy (nm_file_index st2) of None \<Rightarrow> None
         | Some records \<Rightarrow> Some (fds @ [listen_fd], st2, cells, records)))"

section \<open>Each address once\<close>

lemma mset_concat_upt: "(\<And>i. mset (f i) = mset (g i)) \<Longrightarrow> mset (concat (map f [0..<n])) = mset (concat (map g [0..<n]))"
  by (induction n) auto

lemma trie_free_order_mset: "mset (trie_free_order t) = mset (collect_files_recursive t)"
proof (induction t)
  case (Node r ch)
  let ?f = "\<lambda>g i. case (map_option g \<circ> ch) (char_of (i :: nat)) of None \<Rightarrow> [] | Some ps \<Rightarrow> ps"
  have "mset (?f trie_free_order i) = mset (?f collect_files_recursive i)" for i
  proof (cases "ch (char_of i)")
    case (Some t)
    with Node have "mset (trie_free_order t) = mset (collect_files_recursive t)" by (metis rangeI option.set_intros)
    with Some show ?thesis by simp
  qed simp
  then have "mset (concat (map (?f trie_free_order) [0..<256])) = mset (concat (map (?f collect_files_recursive) [0..<256]))"
    by (rule mset_concat_upt)
  then show ?case by (simp del: comp_apply)
qed

lemma collect_distinct: "index_ok ix \<Longrightarrow> distinct (collect_files_recursive (ix_root ix))"
proof -
  assume ix: "index_ok ix"
  have "sorted_wrt (\<lambda>a b. name_less (fst a) (fst b)) ps \<Longrightarrow> \<forall>(cs, p)\<in>set ps. file_index_lookup ix cs = Some p \<Longrightarrow> distinct (map snd ps)" for ps
  proof (induction ps)
    case (Cons a ps)
    have "snd a \<noteq> snd b" if b: "b \<in> set ps" for b
    proof
      assume eq: "snd a = snd b"
      have "file_index_lookup ix (fst a) = Some (snd a)" "file_index_lookup ix (fst b) = Some (snd a)"
        using Cons.prems(2) b eq by auto
      then have "fst a = fst b" by (rule index_ok_inj [OF ix])
      then show False using Cons.prems(1) b name_less_irrefl by auto
    qed
    then show ?case using Cons by auto
  qed simp
  from this [OF collect_paths_sorted [of "ix_root ix"]] show ?thesis
    unfolding collect_paths_snd [symmetric] by (auto simp: file_index_lookup_def dest: collect_paths_lookup)
qed

lemma file_index_destroy_all: "index_ok ix \<Longrightarrow> file_index_destroy ix = Some (\<lambda>_. None)"
proof -
  assume ix: "index_ok ix"
  have m: "mset (trie_free_order (ix_root ix)) = mset (collect_files_recursive (ix_root ix))" by (rule trie_free_order_mset)
  have s: "set (trie_free_order (ix_root ix)) = {p. \<exists>n. file_index_lookup ix n = Some p}"
    using mset_eq_setD [OF m] collect_set by (auto simp: file_index_lookup_def)
  have "distinct (trie_free_order (ix_root ix))" using m collect_distinct [OF ix] mset_eq_imp_distinct_iff by blast
  moreover have "ix_heap ix p \<noteq> None" if "p \<in> set (trie_free_order (ix_root ix))" for p
    using that index_okD(5) [OF ix] unfolding s by auto
  ultimately have "file_index_destroy ix = Some (\<lambda>p. if p \<in> set (trie_free_order (ix_root ix)) then None else ix_heap ix p)"
    by (simp add: file_index_destroy_def free_all_live)
  moreover have "ix_heap ix p = None" if "p \<notin> set (trie_free_order (ix_root ix))" for p
    using that index_okD(3) [OF ix, of p] unfolding s by (cases "ix_heap ix p") auto
  ultimately show ?thesis by (auto simp: fun_eq_iff)
qed

lemma lru_destroy_dseg:
  "distinct xs \<Longrightarrow> dseg m p xs None \<Longrightarrow> lru_destroy_loop m (first_or xs None) = Some (\<lambda>a. if a \<in> set xs then None else m a)"
proof (induction xs arbitrary: m p)
  case (Cons x xs)
  then obtain e where e: "m x = Some e" "ce_next e = first_or xs None" by auto
  have "lru_destroy_loop (m(x := None)) (first_or xs None) = Some (\<lambda>a. if a \<in> set xs then None else (m(x := None)) a)"
  proof (rule Cons.IH)
    show "distinct xs" using Cons.prems by simp
    have "dseg m (Some x) xs None" "x \<notin> set xs" using Cons.prems by auto
    then show "dseg (m(x := None)) (Some x) xs None" using dseg_other [of x xs m None "Some x" None] by blast
  qed
  then show ?case using e by (subst lru_destroy_loop.simps) (auto simp: fun_eq_iff)
qed (simp add: lru_destroy_loop.simps)

text \<open>
  C38: the name server ends cleanly: after any run the shutdown visits no freed cell and frees nothing twice; every connection is closed, every entry of the cache
  list is freed, and of the records of the index none is left.
\<close>
theorem shutdown_clean:
  assumes "nm_reachable data_dir d st"
  shows "\<exists>st' cells es. nm_shutdown listen_fd st = Some (map cn_fd (nm_connections st) @ [listen_fd], st', cells, \<lambda>_. None)
    \<and> nm_connections st' = [] \<and> nm_servers st' = [] \<and> nm_clients st' = []
    \<and> linked (nm_cache st) es \<and> cells = (\<lambda>a. if a \<in> set es then None else lc_cells (nm_cache st) a)"
proof -
  have ok: "index_ok (nm_file_index st)" "cache_ok (nm_file_index st) (nm_cache st)"
    using reachable_ok [OF assms] by (simp_all add: nm_ok_def)
  obtain es where es: "linked (nm_cache st) es" using ok(2) by (auto simp: cache_ok_def represents_def)
  then have "lru_cache_destroy (nm_cache st) = Some (\<lambda>a. if a \<in> set es then None else lc_cells (nm_cache st) a)"
    by (auto simp: lru_cache_destroy_def linked_def lru_destroy_dseg)
  with file_index_destroy_all [OF ok(1)] show ?thesis
    by (intro exI [of _ "free_registry (snd (close_all_connections st))"] exI [of _ "\<lambda>a. if a \<in> set es then None else lc_cells (nm_cache st) a"] exI [of _ es])
      (simp add: es nm_shutdown_def close_all_connections_def free_registry_def Let_def)
qed

theorem shutdown_clean_witness:
  "\<exists>st' cells. nm_shutdown 3 (nm_empty ''n'' nm_disk0) = Some ([3], st', cells, \<lambda>_. None)"
  using shutdown_clean [OF nm_empty0_reachable, of 3] by (auto simp: nm_empty_def)

end
