(* ===== verification/Log_Paths.thy ===== *)
theory Log_Paths
  imports Persistence
begin

text \<open>
  The dated log files of \<open>common/src/persistence.c\<close>. \<open>gmtime_r\<close> is modelled with the Gregorian calendar: the year by counting
  years from 1970, the month by counting months.
\<close>

section \<open>The calendar\<close>

definition leap :: "int \<Rightarrow> bool" where
  "leap y \<longleftrightarrow> 4 dvd y \<and> (\<not> 100 dvd y \<or> 400 dvd y)"

definition days_in_year :: "int \<Rightarrow> int" where
  "days_in_year y = (if leap y then 366 else 365)"

definition month_lengths :: "int \<Rightarrow> int list" where
  "month_lengths y = [31, if leap y then 29 else 28, 31, 30, 31, 30, 31, 31, 30, 31, 30, 31]"

lemma days_in_year_bounds: "365 \<le> days_in_year y" "days_in_year y \<le> 366"
  by (simp_all add: days_in_year_def)

function gm_year :: "int \<Rightarrow> int \<Rightarrow> int \<times> int" where
  "gm_year y d = (if d < 0 then gm_year (y - 1) (d + days_in_year (y - 1))
     else if days_in_year y \<le> d then gm_year (y + 1) (d - days_in_year y) else (y, d))"
  by pat_completeness auto
termination
  by (relation "measure (\<lambda>(y, d). if d < 0 then nat (- d) + 400 else nat d)")
    (use days_in_year_bounds in \<open>auto simp: nat_less_iff, smt+\<close>)

declare gm_year.simps [simp del]

fun gm_month :: "int list \<Rightarrow> nat \<Rightarrow> int \<Rightarrow> nat \<times> int" where
  "gm_month [] m d = (m, d)"
| "gm_month (l # ls) m d = (if d < l then (m, d) else gm_month ls (m + 1) (d - l))"

record tm =
  tm_year :: int
  tm_mon :: nat
  tm_mday :: int

text \<open>\<open>None\<close> when the year does not fit an \<open>int\<close>.\<close>

definition gmtime :: "int \<Rightarrow> tm option" where
  "gmtime t = (case gm_year 1970 (t div 86400) of (y, yday) \<Rightarrow>
     (case gm_month (month_lengths y) 0 yday of (m, d) \<Rightarrow>
       if - (2 ^ 31) \<le> y - 1900 \<and> y - 1900 < 2 ^ 31 then Some \<lparr>tm_year = y - 1900, tm_mon = m, tm_mday = d + 1\<rparr> else None))"

section \<open>Names\<close>

text \<open>\<open>%0wd\<close>.\<close>

definition pad_nat :: "nat \<Rightarrow> nat \<Rightarrow> string" where
  "pad_nat width n = replicate (width - length (show_nat n)) (CHR ''0'') @ show_nat n"

definition pad_int :: "nat \<Rightarrow> int \<Rightarrow> string" where
  "pad_int width i = (if i < 0 then CHR ''-'' # pad_nat (width - 1) (nat (- i)) else pad_nat width (nat i))"

definition format_date :: "int \<Rightarrow> nat \<Rightarrow> int \<Rightarrow> string \<Rightarrow> string option" where
  "format_date clock len moment pre = (if len = 0 then None
     else case gmtime (if moment = 0 then clock else moment) of
         None \<Rightarrow> None
       | Some tm \<Rightarrow> (let s = pre @ ''_'' @ pad_int 4 (tm_year tm + 1900) @ pad_int 2 (int (tm_mon tm) + 1) @ pad_int 2 (tm_mday tm) @ ''.log''
           in if len \<le> length s then None else Some s))"

definition nm_log_path :: "int \<Rightarrow> nat \<Rightarrow> string \<Rightarrow> int \<Rightarrow> string option" where
  "nm_log_path clock len base_dir moment = (case format_date clock 32 moment ''nm'' of
     None \<Rightarrow> None | Some filename \<Rightarrow> write_path len (base_dir @ ''/logs/'' @ filename))"

definition ss_log_path :: "int \<Rightarrow> nat \<Rightarrow> string \<Rightarrow> string \<Rightarrow> int \<Rightarrow> string option" where
  "ss_log_path clock len base_dir ss_id moment = (case ss_root_path 512 base_dir ss_id of
     None \<Rightarrow> None
   | Some root \<Rightarrow> (case format_date clock 32 moment ''ss'' of
       None \<Rightarrow> None | Some filename \<Rightarrow> write_path len (root @ ''/logs/'' @ filename)))"

section \<open>A date determines its day\<close>

definition days_before :: "int \<Rightarrow> int" where
  "days_before y = 365 * y + (y - 1) div 4 - (y - 1) div 100 + (y - 1) div 400"

lemma div_step: "0 < k \<Longrightarrow> y div k = (y - 1) div k + (if k dvd y then 1 else 0)" for y k :: int
proof -
  assume k: "0 < k"
  obtain q r where y: "y = k * q + r" "0 \<le> r" "r < k" using k by (metis mult_div_mod_eq pos_mod_sign pos_mod_bound)
  show ?thesis
  proof (cases "r = 0")
    case True
    then have "y - 1 = k * (q - 1) + (k - 1)" using y by (simp add: algebra_simps)
    then have "(y - 1) div k = q - 1" using k by (intro int_div_pos_eq [where r = "k - 1"]) simp_all
    then show ?thesis using True y k by simp
  next
    case False
    then have "(y - 1) div k = q" using y by (intro int_div_pos_eq [where r = "r - 1"]) simp_all
    moreover have "\<not> k dvd y" using False y by (simp add: dvd_add_right_iff zdvd_not_zless)
    ultimately show ?thesis using y k by simp
  qed
qed

lemma leap_count:
  "p100 \<longrightarrow> p4 \<Longrightarrow> p400 \<longrightarrow> p100 \<Longrightarrow>
   a + (if p4 then 1 else 0) - (b + (if p100 then 1 else 0)) + (c + (if p400 then 1 else 0)) = a - b + c + (if p4 \<and> (\<not> p100 \<or> p400) then 1 else 0 :: int)"
  by (cases p4; cases p100; cases p400) simp_all

lemma days_before_next: "days_before (y + 1) = days_before y + days_in_year y"
proof -
  have m: "100 dvd y \<longrightarrow> 4 dvd y" "400 dvd y \<longrightarrow> 100 dvd y"
    by (intro impI, rule dvd_trans [of _ 100], simp, assumption) (intro impI, rule dvd_trans [of _ 400], simp, assumption)
  have e: "y div 4 = (y - 1) div 4 + (if 4 dvd y then 1 else 0)" "y div 100 = (y - 1) div 100 + (if 100 dvd y then 1 else 0)"
    "y div 400 = (y - 1) div 400 + (if 400 dvd y then 1 else 0)" by (rule div_step, simp)+
  have "days_before (y + 1) = 365 * y + 365 + (y div 4 - y div 100 + y div 400)" by (simp add: days_before_def)
  also have "\<dots> = 365 * y + 365 + ((y - 1) div 4 - (y - 1) div 100 + (y - 1) div 400 + (if leap y then 1 else 0))"
    unfolding e leap_def leap_count [OF m] ..
  also have "\<dots> = days_before y + days_in_year y" unfolding days_before_def days_in_year_def by (cases "leap y") simp_all
  finally show ?thesis .
qed

lemma gm_year_day:
  "gm_year y d = (y', d') \<Longrightarrow> days_before y' + d' = days_before y + d \<and> 0 \<le> d' \<and> d' < days_in_year y'"
proof (induction y d rule: gm_year.induct)
  case (1 y d)
  note step = "1.prems" [unfolded gm_year.simps [of y d]]
  consider "d < 0" | "0 \<le> d" "days_in_year y \<le> d" | "0 \<le> d" "d < days_in_year y" by linarith
  then show ?case
  proof cases
    case 1
    with "1.IH"(1) step days_before_next [of "y - 1"] show ?thesis by simp
  next
    case 2
    with "1.IH"(2) step days_before_next [of y] show ?thesis by simp
  qed (use step in auto)
qed

lemma gm_month_day:
  "gm_month ls m d = (m', d') \<Longrightarrow> 0 \<le> d \<Longrightarrow> d < sum_list ls \<Longrightarrow>
   m \<le> m' \<and> m' - m < length ls \<and> d = sum_list (take (m' - m) ls) + d' \<and> 0 \<le> d' \<and> d' < ls ! (m' - m)"
proof (induction ls m d rule: gm_month.induct)
  case (2 l ls m d)
  show ?case
  proof (cases "d < l")
    case False
    with 2 have "m + 1 \<le> m' \<and> m' - (m + 1) < length ls \<and> d - l = sum_list (take (m' - (m + 1)) ls) + d' \<and> 0 \<le> d' \<and> d' < ls ! (m' - (m + 1))" by simp
    moreover then have "m' - m = Suc (m' - (m + 1))" by (elim conjE) linarith
    ultimately show ?thesis by auto
  qed (use 2 in auto)
qed simp

lemma month_lengths_sum: "sum_list (month_lengths y) = days_in_year y"
  by (simp add: month_lengths_def days_in_year_def)

lemma month_lengths_short: "i < 12 \<Longrightarrow> month_lengths y ! i \<le> 31"
  by (auto simp: month_lengths_def less_Suc_eq numeral_eq_Suc)

definition day_of_date :: "tm \<Rightarrow> int" where
  "day_of_date tm = days_before (tm_year tm + 1900) + sum_list (take (tm_mon tm) (month_lengths (tm_year tm + 1900))) + tm_mday tm - 1"

lemma gmtime_day:
  assumes "gmtime t = Some tm"
  shows "day_of_date tm = days_before 1970 + t div 86400" and "tm_mon tm < 12" and "1 \<le> tm_mday tm" and "tm_mday tm \<le> 31"
proof -
  obtain y yday where y: "gm_year 1970 (t div 86400) = (y, yday)" by fastforce
  obtain m d where m: "gm_month (month_lengths y) 0 yday = (m, d)" by fastforce
  have tm: "tm = \<lparr>tm_year = y - 1900, tm_mon = m, tm_mday = d + 1\<rparr>" using assms by (simp add: gmtime_def y m split: if_splits)
  note yd = gm_year_day [OF y]
  have "length (month_lengths y) = 12" by (simp add: month_lengths_def)
  then have md: "m < 12" "yday = sum_list (take m (month_lengths y)) + d" "0 \<le> d" "d < month_lengths y ! m"
    using gm_month_day [OF m] yd by (simp_all add: month_lengths_sum)
  show "day_of_date tm = days_before 1970 + t div 86400" using yd md(2) by (simp add: day_of_date_def tm)
  show "tm_mon tm < 12" "1 \<le> tm_mday tm" "tm_mday tm \<le> 31" using md month_lengths_short [of m y] by (simp_all add: tm)
qed

section \<open>A name determines its date\<close>

lemma digits_val_zeros: "digits_val 0 (replicate k (CHR ''0'') @ ds) = digits_val 0 ds"
  by (induction k) (simp_all add: digit_val_def)

lemma pad_nat_val: "digits_val 0 (pad_nat width n) = n"
  by (simp add: pad_nat_def digits_val_zeros digits_val_show_nat)

lemma pad_nat_digits: "c \<in> set (pad_nat width n) \<Longrightarrow> is_digit c"
  using show_nat_digits [of n] by (auto simp: pad_nat_def is_digit_def)

lemma pad_nat_inj: "pad_nat width m = pad_nat width n \<Longrightarrow> m = n"
  by (drule arg_cong [of _ _ "digits_val 0"]) (simp only: pad_nat_val)

lemma pad_nat_no_sign: "pad_nat width n \<noteq> CHR ''-'' # s"
  using pad_nat_digits [of "CHR ''-''" width n] by (auto simp: is_digit_def)

lemma pad_int_inj: "pad_int width i = pad_int width j \<Longrightarrow> i = j"
  using pad_nat_no_sign pad_nat_no_sign [symmetric] by (cases "i < 0"; cases "j < 0") (auto simp: pad_int_def dest!: pad_nat_inj)

lemma pad_two: "0 \<le> i \<Longrightarrow> i < 100 \<Longrightarrow> length (pad_int 2 i) = 2"
proof -
  assume i: "0 \<le> i" "i < 100"
  then have "length (show_nat (nat i)) \<le> 2" using show_nat_length [of "nat i" 2] by simp
  then show ?thesis using i by (simp add: pad_int_def pad_nat_def)
qed

lemma format_date_inj:
  assumes "gmtime t = Some a" and "gmtime u = Some b"
    and "pad_int 4 (tm_year a + 1900) @ pad_int 2 (int (tm_mon a) + 1) @ pad_int 2 (tm_mday a) @ r
      = pad_int 4 (tm_year b + 1900) @ pad_int 2 (int (tm_mon b) + 1) @ pad_int 2 (tm_mday b) @ r"
  shows "a = b"
proof -
  have "length (pad_int 2 (int (tm_mon a) + 1)) = length (pad_int 2 (int (tm_mon b) + 1))" "length (pad_int 2 (tm_mday a)) = length (pad_int 2 (tm_mday b))"
    using gmtime_day(2-4) [OF assms(1)] gmtime_day(2-4) [OF assms(2)] by (simp_all add: pad_two)
  then have "pad_int 4 (tm_year a + 1900) = pad_int 4 (tm_year b + 1900)" "pad_int 2 (int (tm_mon a) + 1) = pad_int 2 (int (tm_mon b) + 1)"
      "pad_int 2 (tm_mday a) = pad_int 2 (tm_mday b)"
    using assms(3) by (simp_all add: append_eq_append_conv)
  then show ?thesis by (auto dest!: pad_int_inj intro: tm.equality)
qed

text \<open>The time a caller means: 0 stands for the present.\<close>

definition meant_time :: "int \<Rightarrow> int \<Rightarrow> int" where
  "meant_time clock moment = (if moment = 0 then clock else moment)"

lemma format_date_Some:
  assumes "format_date clock len moment pre = Some s"
  obtains tm where "gmtime (meant_time clock moment) = Some tm"
    and "s = pre @ ''_'' @ pad_int 4 (tm_year tm + 1900) @ pad_int 2 (int (tm_mon tm) + 1) @ pad_int 2 (tm_mday tm) @ ''.log''"
proof -
  have "format_date clock len moment pre = (if len = 0 then None else case gmtime (meant_time clock moment) of None \<Rightarrow> None
     | Some tm \<Rightarrow> (let s = pre @ ''_'' @ pad_int 4 (tm_year tm + 1900) @ pad_int 2 (int (tm_mon tm) + 1) @ pad_int 2 (tm_mday tm) @ ''.log''
         in if len \<le> length s then None else Some s))"
    by (simp add: format_date_def meant_time_def)
  then show thesis using that assms by (auto simp: Let_def split: if_splits option.splits)
qed

lemma format_date_day:
  assumes "format_date c len t pre = Some s" and "format_date c' len t' pre = Some s'"
  shows "s = s' \<longleftrightarrow> meant_time c t div 86400 = meant_time c' t' div 86400"
proof -
  obtain a where a: "gmtime (meant_time c t) = Some a"
    "s = pre @ ''_'' @ pad_int 4 (tm_year a + 1900) @ pad_int 2 (int (tm_mon a) + 1) @ pad_int 2 (tm_mday a) @ ''.log''"
    by (rule format_date_Some [OF assms(1)])
  obtain b where b: "gmtime (meant_time c' t') = Some b"
    "s' = pre @ ''_'' @ pad_int 4 (tm_year b + 1900) @ pad_int 2 (int (tm_mon b) + 1) @ pad_int 2 (tm_mday b) @ ''.log''"
    by (rule format_date_Some [OF assms(2)])
  show ?thesis
  proof
    assume "s = s'"
    then have "a = b" using format_date_inj [OF a(1) b(1), of "''.log''"] a(2) b(2) by simp
    then show "meant_time c t div 86400 = meant_time c' t' div 86400" using gmtime_day(1) [OF a(1)] gmtime_day(1) [OF b(1)] by simp
  next
    assume "meant_time c t div 86400 = meant_time c' t' div 86400"
    then have "gmtime (meant_time c t) = gmtime (meant_time c' t')" by (simp add: gmtime_def)
    then show "s = s'" using a b by simp
  qed
qed

text \<open>
  C40: a server's log files are daily: two times have the same log path exactly when they are on the same day of universal time.
\<close>
theorem log_files_daily:
  assumes "nm_log_path c len d t = Some p" and "nm_log_path c' len d t' = Some p'"
    and "ss_log_path c len d i t = Some q" and "ss_log_path c' len d i t' = Some q'"
  shows "(p = p' \<longleftrightarrow> meant_time c t div 86400 = meant_time c' t' div 86400) \<and> (q = q' \<longleftrightarrow> meant_time c t div 86400 = meant_time c' t' div 86400)"
proof -
  obtain s s' where "format_date c 32 t ''nm'' = Some s" "format_date c' 32 t' ''nm'' = Some s'" "p = p' \<longleftrightarrow> s = s'"
    using assms(1,2) by (auto simp: nm_log_path_def write_path_Some split: option.splits)
  moreover obtain r r' where "format_date c 32 t ''ss'' = Some r" "format_date c' 32 t' ''ss'' = Some r'" "q = q' \<longleftrightarrow> r = r'"
    using assms(3,4) by (auto simp: ss_log_path_def write_path_Some split: option.splits)
  ultimately show ?thesis using format_date_day by blast
qed

theorem log_files_daily_witness:
  "nm_log_path 0 100 ''d'' 5011200 = Some ''d/logs/nm_19700228.log'' \<and> nm_log_path 5011200 100 ''d'' 0 = Some ''d/logs/nm_19700228.log''
   \<and> ss_log_path 0 100 ''d'' ''s'' 5011200 \<noteq> ss_log_path 0 100 ''d'' ''s'' 5097600"
proof -
  have y: "gm_year 1970 d = (1970, d)" if "0 \<le> d" "d < 365" for d using that days_in_year_bounds(1) [of 1970] by (subst gm_year.simps) simp
  have g: "gmtime 5011200 = Some \<lparr>tm_year = 70, tm_mon = 1, tm_mday = 28\<rparr>" "gmtime 5097600 = Some \<lparr>tm_year = 70, tm_mon = 2, tm_mday = 1\<rparr>"
    by (simp_all add: gmtime_def y month_lengths_def leap_def)
  have n: "pad_int 4 1970 = ''1970''" "pad_int 2 2 = ''02''" "pad_int 2 3 = ''03''" "pad_int 2 28 = ''28''" "pad_int 2 1 = ''01''" by code_simp+
  have p: "nm_log_path 0 100 ''d'' 5011200 = Some ''d/logs/nm_19700228.log''" "nm_log_path 0 100 ''d'' 5097600 = Some ''d/logs/nm_19700301.log''"
    "ss_log_path 0 100 ''d'' ''s'' 5011200 = Some ''d/ss_data_s/logs/ss_19700228.log''"
    "ss_log_path 0 100 ''d'' ''s'' 5097600 = Some ''d/ss_data_s/logs/ss_19700301.log''" "nm_log_path 5011200 100 ''d'' 0 = Some ''d/logs/nm_19700228.log''"
    by (simp_all add: nm_log_path_def ss_log_path_def ss_root_path_def format_date_def g n write_path_def Let_def)
  from log_files_daily [OF p(1-4)] p show ?thesis by (simp add: meant_time_def)
qed

end
