(* ===== verification/Sockets.thy ===== *)
theory Sockets
  imports Prelude
begin

text \<open>
  Opening connections: \<open>tcp_listen\<close> and \<open>tcp_connect\<close> of \<open>common/src/net.c\<close>. What the resolver and the system calls answer
  for each address is an argument; the state is the list of open descriptors. At most one descriptor stays open, the one returned.
\<close>

section \<open>The loops over the addresses\<close>

text \<open>For one address: what \<open>socket\<close> returns, and whether the further calls succeed.\<close>

record address_calls =
  ac_socket :: int
  ac_setsockopt :: bool
  ac_bind :: bool
  ac_listen :: bool
  ac_connect :: bool

definition close_fd :: "int \<Rightarrow> int list \<Rightarrow> int list" where
  "close_fd fd fds = remove1 fd fds"

fun listen_loop :: "address_calls list \<Rightarrow> int list \<Rightarrow> int \<times> int list" where
  "listen_loop [] fds = (-1, fds)"
| "listen_loop (rp # rps) fds =
     (let listen_fd = ac_socket rp in
      if listen_fd = -1 then listen_loop rps fds
      else let fds1 = listen_fd # fds in
        if \<not> ac_setsockopt rp then listen_loop rps (close_fd listen_fd fds1)
        else if ac_bind rp \<and> ac_listen rp then (listen_fd, fds1)
        else listen_loop rps (close_fd listen_fd fds1))"

fun connect_loop :: "address_calls list \<Rightarrow> int list \<Rightarrow> int \<times> int list" where
  "connect_loop [] fds = (-1, fds)"
| "connect_loop (rp # rps) fds =
     (let fd = ac_socket rp in
      if fd = -1 then connect_loop rps fds
      else if ac_connect rp then (fd, fd # fds) else connect_loop rps (close_fd fd (fd # fds)))"

text \<open>\<open>None\<close> for the addresses is a failure of the resolver; a missing host only stops \<open>tcp_connect\<close>.\<close>

definition tcp_listen :: "(string option \<Rightarrow> u16 \<Rightarrow> address_calls list option) \<Rightarrow> string option \<Rightarrow> u16 \<Rightarrow> int list \<Rightarrow> int \<times> int list" where
  "tcp_listen resolve host port fds = (case resolve host port of None \<Rightarrow> (-1, fds) | Some rps \<Rightarrow> listen_loop rps fds)"

definition tcp_connect :: "(string option \<Rightarrow> u16 \<Rightarrow> address_calls list option) \<Rightarrow> string option \<Rightarrow> u16 \<Rightarrow> int list \<Rightarrow> int \<times> int list" where
  "tcp_connect resolve host port fds = (if host = None then (-1, fds)
     else case resolve host port of None \<Rightarrow> (-1, fds) | Some rps \<Rightarrow> connect_loop rps fds)"

section \<open>No descriptor is lost\<close>

text \<open>The addresses for which all calls succeed.\<close>

definition listens :: "address_calls \<Rightarrow> bool" where
  "listens rp \<longleftrightarrow> ac_socket rp \<noteq> -1 \<and> ac_setsockopt rp \<and> ac_bind rp \<and> ac_listen rp"

definition connects :: "address_calls \<Rightarrow> bool" where
  "connects rp \<longleftrightarrow> ac_socket rp \<noteq> -1 \<and> ac_connect rp"

definition first_socket :: "(address_calls \<Rightarrow> bool) \<Rightarrow> address_calls list \<Rightarrow> int list \<Rightarrow> int \<times> int list" where
  "first_socket works rps fds = (case find works rps of None \<Rightarrow> (-1, fds) | Some rp \<Rightarrow> (ac_socket rp, ac_socket rp # fds))"

lemma listen_loop_first: "listen_loop rps fds = first_socket listens rps fds"
  by (induction rps fds rule: listen_loop.induct) (auto simp: first_socket_def listens_def close_fd_def Let_def)

lemma connect_loop_first: "connect_loop rps fds = first_socket connects rps fds"
  by (induction rps fds rule: connect_loop.induct) (auto simp: first_socket_def connects_def close_fd_def Let_def)

text \<open>
  C39: opening a socket takes the first address of the resolver for which all calls succeed, and leaves exactly the returned descriptor open: every descriptor that
  was made for another address is closed again, and after a failure none is left.
\<close>
theorem sockets_first_working:
  "tcp_listen resolve host port fds = (case resolve host port of None \<Rightarrow> (-1, fds) | Some rps \<Rightarrow> first_socket listens rps fds)
   \<and> tcp_connect resolve host port fds = (case (host, resolve host port) of (Some _, Some rps) \<Rightarrow> first_socket connects rps fds | _ \<Rightarrow> (-1, fds))"
  by (simp add: tcp_listen_def tcp_connect_def listen_loop_first connect_loop_first split: option.split)

end
