(* ===== verification/Spec2Isabelle.thy ===== *)
theory Spec2Isabelle
  imports Base_Properties Server_Properties Index_Properties Nm_Properties Client_Behaviour Heartbeats Shutdown Log_Paths Sockets
begin

text \<open>
  \<^bold>\<open>A verification development for a distributed document store.\<close>

  \<^bold>\<open>The program.\<close> A name server (\<open>name_server/\<close>) keeps which files exist, who owns them, who may read and
  write them and which storage servers hold them. Storage servers (\<open>storage_server/\<close>) keep the documents, which clients edit
  sentence by sentence under locks, with undo and checkpoints. Clients (\<open>client/\<close>) ask the name server for a file, are told the
  address of a storage server and talk to it directly; other commands the name server forwards. All talk in messages
  of a 12-byte header and a JSON payload (\<open>common/\<close>).

  \<^bold>\<open>The theories.\<close>
  \<^item> \<open>Prelude\<close>, \<open>C_Strings\<close>: machine types, generic list lemmas; C strings cut at the first NUL, the library functions on
    them (\<open>strstr\<close>, \<open>strtok_r\<close>, \<open>strtoul\<close>, printing of numbers, \<open>snprintf\<close> at an offset).
  \<^item> \<open>Protocol\<close>, \<open>Net\<close>, \<open>Persistence\<close>: \<open>common/src/protocol.c\<close>, the loops of \<open>net.c\<close> over scripts of what the kernel does
    (fragments, interrupts, errors, a closed peer), the path builders of \<open>persistence.c\<close>. \<open>Sockets\<close> has the
    loops that open sockets, \<open>Log_Paths\<close> the dated log files with the calendar. The framing of messages is a locale
    that the header codec instantiates.
  \<^item> \<open>Disk\<close>: a file system as a map from resolved paths to nodes, the system calls with free outcomes, and the file
    helpers of \<open>storage_engine.c\<close>; a locale states what replacing a file promises.
  \<^item> \<open>Text\<close>, \<open>Storage_File\<close>, \<open>Storage_Engine\<close>: \<open>storage_engine.c\<close>: sentences and words, loaded documents, every operation.
    \<open>Engine_Invariant\<close> and \<open>Engine_Correct\<close> hold its invariant and the lemmas on reading back what was saved,
    \<open>Engine_Properties\<close> the properties.
  \<^item> \<open>Storage_Server\<close>, \<open>Write_Sessions\<close>: \<open>storage_server/src/main.c\<close>: a definition per request, the table of locked sentences,
    the write conversation as steps that interleave; \<open>Storage_Main\<close>: its start and main loop; \<open>Server_Properties\<close>.
  \<^item> \<open>File_Index\<close>, \<open>Lru_Cache\<close>: \<open>name_server/src/file_index.c\<close>: the trie of records on a heap, so that a freed record can be told
    from a live one, the doubly linked cache and the list it implements; the index as the cache sees it is a locale; \<open>Index_Properties\<close>.
  \<^item> \<open>Json\<close>, \<open>Nm_Store\<close>, \<open>Name_Server\<close>, \<open>Nm_Commands\<close>, \<open>Nm_Main\<close>: \<open>name_server/src/main.c\<close>: reading and writing JSON (the contract of
    a field reader is a locale, instantiated for both servers and the client), the files of the name server, its tables and the exchange
    with a storage server, registration, heartbeat and lookup, one definition per command, folders, moves, dispatch, start and
    the runs of the server as a step relation. \<open>Nm_Invariant\<close> shows that every handler keeps the invariant, \<open>Nm_Rights\<close> follows
    owner and access list through every handler, \<open>Nm_Properties\<close> has the properties. \<open>Shutdown\<close>: the end of the server. \<open>Heartbeats\<close>: the storage
    server's loop and the name server that listens to it.
  \<^item> \<open>Client_Io\<close>, \<open>Client_Commands\<close>, \<open>Client_Session\<close>, \<open>Client_Main\<close>: \<open>client/src/commands.c\<close> and \<open>client/main.c\<close>: messages, answers and
    errors, one definition per command, the loops of WRITE and STREAM, registration, the dispatch of a line and the shell.
  \<^item> \<open>Links\<close>, \<open>Client_Links\<close>: what passes between the programs: each reads the fields the other writes, and exchanges whose answer arrives.
    \<open>Client_Properties\<close> and \<open>Client_Write\<close> follow READ, UNDO, STREAM and WRITE through client, name server and storage server,
    \<open>Client_Behaviour\<close> has what the client does on every input. This theory: a property of both servers. \<open>Base_Properties\<close>: properties of messages,
    files, sentences and paths.

  \<^bold>\<open>Correspondence.\<close> Definitions carry the names of the functions they model; a part of a function that is a loop or a
  self-contained block has a definition of its own. A state is a record with the fields of the C structure. A function returns the new
  state and its results; \<open>None\<close> in the type of a server's answer is a run that leaves defined behaviour (a write behind a buffer, a freed
  record, a null pointer, a search that never ends), so that a result \<open>Some\<close> is a claim of memory safety. Fixed-width counters
  are words; lengths and counts are naturals; \<open>time_t\<close> is an integer. All loops are total functions, with a termination proof where the
  recursion is not structural; no fuel is used.

  \<^bold>\<open>Conventions.\<close> Allocation always succeeds and pointer arguments are not null, except where a request without payload passes
  one. An operation reads the clock once. Operations under a mutex are atomic. System calls may fail freely, each as a function of
  its path. The file system has no symbolic links; reading an existing file does not fail in the storage engine and can fail in the name server. The name server
  is single-threaded; the outcome of a connection it opens depends on host, port, opcode and payload and is fixed within one handler.
  The messages of a handler to storage servers are those it tries to send. The client runs over scripts: of what standard input delivers, and of what each
  connection it opens delivers and accepts; its world keeps a log of connections, messages sent and things shown.

  \<^bold>\<open>What is shown.\<close> For the engine: a write replaces one sentence and nothing else, a refused one changes nothing, undo and redo, checkpoints
  that stay as they are, recovery after a restart, its invariant over all operations. For the storage server: exclusive sentences
  between interleaved sessions, refusal of stale commits, exact replication, and the listings that leave their buffer. For the name server: in
  every run from any disk, over any messages, index and cache stay consistent and memory is used safely but for three listings; only the owner
  changes the rights on a file; lookups name the least loaded live holder to those with the right; rights and requests survive a restart;
  moves carry the record along. After any run it ends without freeing
  anything twice. For both: they agree on creations, and a storage server that works is never taken for dead, while one that once lost the connection stays lost. For the messages: any fragmentation and either byte order. For the
  three programs together: a document is shown to its reader as the engine has it up to the first quote, a stream shows every word, and what a user types into a write
  session is what the storage server commits. For the client alone: on every input a session sends updates, then at most one commit, and
  reports no commit it did not send; the shell ends only where it should; errors are shown with the text and code the server gave.

  \<^bold>\<open>Not modelled.\<close> Writing the logs; what the resolver and the kernel do behind the calls, which are arguments; the creation of threads beyond its
  success; \<open>select\<close>, whose choice is the choice of a step; signals, which end a run; freeing the tables of the storage engine;
  colours, frames and the help text of the client, whose messages are constructors with what is filled in; the formatting of local times and the shell
  of EXEC, which are parameters.
\<close>

section \<open>Creating a file on both sides\<close>

definition create_text :: "string \<Rightarrow> string \<Rightarrow> string" where
  "create_text n u = ''{'' @ json_fields [(''filename'', n), (''owner'', u)] ''}''"

lemma create_text_fits: "length n < 256 \<Longrightarrow> length u < 128 \<Longrightarrow> fit 512 (create_text n u) = create_text n u"
  by (rule fit_id) (simp add: create_text_def)

lemma create_text_read:
  assumes "plain n" and "plain u" and "length n < 256" and "length u < 128" and "n \<noteq> ''owner''"
  shows "ss_field (create_text n u) ''filename'' 256 [] = n" and "ss_field (create_text n u) ''owner'' 256 [] = u"
proof -
  have k: "json_key ''filename''" "json_key ''owner''" "plain ''{''" by (simp_all add: json_key_def plain_def)
  show "ss_field (create_text n u) ''filename'' 256 [] = n" unfolding create_text_def ss_field_def
    using ss_fields.get_fits [OF k(1,3), of 0 "[(''filename'', n), (''owner'', u)]" n 256 "''}''"] assms by simp
  show "ss_field (create_text n u) ''owner'' 256 [] = u" unfolding create_text_def ss_field_def
    using ss_fields.get_fits [OF k(2,3), of 1 "[(''filename'', n), (''owner'', u)]" u 256 "''}''"] assms by (simp add: plain_def)
qed

text \<open>
  C7: Name server and storage server agree on a creation: when the storage server's answer to the forwarded request
  arrives, the file is created there under the same name for the same owner; if that succeeded the name server registers it, with
  this owner and the storage server as its first holder, and reports success; otherwise its index is unchanged
  and the client receives the storage server's error.
\<close>
theorem create_end_to_end:
  assumes "nm_ok st" and "ix_record (nm_file_index st) n = None" and "active_servers (ne_now env) st \<noteq> []"
    and "pick_servers (active_servers (ne_now env) st) (nm_next_primary_index st) = (primary, replica, idx)"
    and "plain n" and "plain u" and "length n < 256" and "length u < 128" and "n \<noteq> ''owner''"
    and "handle_create_request w now s (create_text n u) = (s', [(opc, body)])"
    and "ne_net env ''localhost'' (si_client_port primary) OP_COMMAND_FORWARD (create_text n u) = Some ([], revs)"
    and "arrives big opc 0 body revs"
  shows "case storage_engine_create_file w now (ss_disk s) (ss_engine s) n u of (rc, d, e) \<Rightarrow>
    s' = s\<lparr>ss_disk := d, ss_engine := e\<rparr> \<and>
    (\<exists>st' out. cmd_create env st rid n u = Some (st', out) \<and>
      (if rc = STORAGE_OK then (\<exists>r. ix_record (nm_file_index st') n = Some r \<and> fr_owner r = u
           \<and> hd (fr_ss_ids r) = fit 128 (si_ss_id primary)) \<and> mh_opcode (fst (snd (last out))) = opcode_code OP_COMMAND_STATUS
       else nm_file_index st' = nm_file_index st \<and> last out = (To_Client, message_for (opcode_code OP_ERROR) 0 (Some body), body)))"
proof -
  obtain rc d e where c: "storage_engine_create_file w now (ss_disk s) (ss_engine s) n u = (rc, d, e)" by (metis prod_cases3)
  note f = create_text_read [OF assms(5-9)]
  have s': "s' = s\<lparr>ss_disk := d, ss_engine := e\<rparr>" and opc: "opc = (if rc = STORAGE_OK then OP_COMMAND_STATUS else OP_ERROR)"
    using assms(10) c by (auto simp: handle_create_request_def f error_reply_def split: if_splits)
  have x: "exchange_with env ''localhost'' (si_client_port primary) OP_COMMAND_FORWARD rid (create_text n u) = Some \<lparr>ex_send_header = int PROTOCOL_HEADER_SIZE,
      ex_send_payload = int (length (create_text n u)), ex_recv_header = int PROTOCOL_HEADER_SIZE,
      ex_header = message_for (opcode_code opc) 0 (Some body), ex_recv_payload = int (length body), ex_payload = body\<rparr>"
    by (rule exchange_reply [OF assms(11) _ assms(12)]) (use assms(7,8) in \<open>simp add: create_text_def\<close>)
  have t: "fit 512 (''{'' @ json_fields [(''filename'', n), (''owner'', u)] ''}'') = create_text n u"
    using create_text_fits [OF assms(7,8)] by (simp only: create_text_def)
  obtain cc where cc: "lru_cache_invalidate n (nm_cache st) = Some cc" using nm_ok_invalidate [OF assms(1)] by blast
  have none: "file_index_lookup (nm_file_index st) n = None"
    using assms(2) lookup_record_cases [OF assms(1), of n] by (cases "file_index_lookup (nm_file_index st) n") (auto simp: ix_record_def lookup_record_def)
  note run = cmd_create_def [of env st rid n u, unfolded t add_replica_def [symmetric]]
  show ?thesis
  proof (cases "rc = STORAGE_OK")
    case True
    have ix: "index_ok (nm_file_index st)" using assms(1) by (simp add: nm_ok_def)
    have "\<exists>r. ix_record (case replica of None \<Rightarrow> file_index_add (ne_now env) n u (si_ss_id primary) (nm_file_index st)
        | Some rs \<Rightarrow> add_replica n (si_ss_id rs) (file_index_add (ne_now env) n u (si_ss_id primary) (nm_file_index st))) n = Some r
      \<and> fr_owner r = u \<and> hd (fr_ss_ids r) = fit 128 (si_ss_id primary)"
      using assms(2,8) by (auto simp: ix_record_replica index_ok_add [OF ix] ix_record_add [OF ix] add_ss_id_def new_record_def fit_id
          MAX_SS_PER_FILE_def MAX_USERNAME_LEN_def split: option.split)
    then show ?thesis using True opc x none assms(3,4) cc s' c by (simp add: run Let_def message_for_def nm_send_def)
  next
    case False
    have "body = snd (error_reply ''Failed to create file'' (storage_rc_code rc))"
      using assms(10) c False by (auto simp: handle_create_request_def f split: prod.splits)
    then have "0 < (word_of_nat (length body) :: u32)" using error_reply_length by (intro announced_length) simp_all
    then show ?thesis using False opc x none assms(3,4) cc s' c by (simp add: run Let_def message_for_def)
  qed
qed

text \<open>The storage server already holds a document \<open>a\<close>: its refusal reaches the client.\<close>

definition nm1 :: nm_state where
  "nm1 = (nm_empty ''n'' nm_disk0)\<lparr>nm_servers := [nm_server ''s'' 7 5]\<rparr>"

lemma nm1_facts: "nm_ok nm1" "ix_record (nm_file_index nm1) ''a'' = None" "active_servers 100 nm1 = [nm_server ''s'' 7 5]"
  by (simp add: nm1_def) (simp_all add: nm1_def nm_empty_def active_servers_def server_alive_def nm_server_def
      ix_record_def file_index_lookup_def file_index_init_def)

definition refusal :: string where
  "refusal = snd (error_reply ''Failed to create file'' (storage_rc_code STORAGE_ERR_INVALID))"

definition net_refusal :: nm_env where
  "net_refusal = nm_env0\<lparr>ne_net := \<lambda>_ _ _ _. Some ([], [RData (the (protocol_encode_header False
     (Some (message_for (opcode_code OP_ERROR) 0 (Some refusal)))) @ map byte_of_char refusal)])\<rparr>"

lemma create_refused: "storage_engine_create_file io_fine 6 disk0 engine0 ''a'' ''u'' = (STORAGE_ERR_INVALID, disk0, engine0)"
  by (simp add: storage_engine_create_file_def engine0_load engine0_file doc0_content)

theorem create_end_to_end_witness:
  "\<exists>st' out. cmd_create net_refusal nm1 1 ''a'' ''u'' = Some (st', out) \<and> nm_file_index st' = nm_file_index nm1
     \<and> last out = (To_Client, message_for (opcode_code OP_ERROR) 0 (Some refusal), refusal)"
proof -
  have t: "plain ''a''" "plain ''u''" "length ''a'' < 256" "length ''u'' < 128" "''a'' \<noteq> ''owner''" by (simp_all add: plain_def)
  have h: "handle_create_request io_fine 6 server0 (create_text ''a'' ''u'') = (server0, [(OP_ERROR, refusal)])"
    by (simp add: handle_create_request_def create_text_read [OF t] server0_def create_refused refusal_def error_reply_def)
  have net: "ne_net net_refusal ''localhost'' (si_client_port (nm_server ''s'' 7 5)) OP_COMMAND_FORWARD (create_text ''a'' ''u'') = Some ([],
      [RData (the (protocol_encode_header False (Some (message_for (opcode_code OP_ERROR) 0 (Some refusal)))) @ map byte_of_char refusal)])"
    "ne_now net_refusal = 100" by (simp_all add: net_refusal_def nm_env0_def)
  have pick: "pick_servers (active_servers (ne_now net_refusal) nm1) (nm_next_primary_index nm1) = (nm_server ''s'' 7 5, None, 1)"
    by (simp add: net(2) nm1_facts pick_servers_def Let_def) (simp add: nm1_def nm_empty_def)
  have "arrives False OP_ERROR 0 refusal [RData (the (protocol_encode_header False
      (Some (message_for (opcode_code OP_ERROR) 0 (Some refusal)))) @ map byte_of_char refusal)]"
    using error_reply_length [of "''Failed to create file''" "storage_rc_code STORAGE_ERR_INVALID"]
    by (intro arrives_whole) (simp add: refusal_def)
  from create_end_to_end [OF nm1_facts(1,2) _ pick t h net(1) this, of 1] show ?thesis
    by (simp add: server0_def create_refused net(2) nm1_facts(3) del: opcode_code.simps)
qed

end
